(* ===== verification/GoBase.thy ===== *)
theory GoBase
  imports Main "HOL-Library.Word" "HOL-Library.Sublist"
begin

text \<open>
  The prelude: what the bridge uses of Go and of its standard library.

  A Go \<open>string\<close> is a sequence of bytes, and so is HOL's \<open>string\<close> (a list of 8-bit
  \<open>char\<close>s); every operation below works on bytes, with UTF-8 sequences spelled out where the
  library decodes runes. Go's \<open>int\<close> and \<open>int64\<close> are 64-bit words read in two's complement
  wherever wrap-around can be observed, and \<open>int\<close> or \<open>nat\<close> with an explicit range check
  elsewhere. Errors are values of one datatype, one constructor per way the sources make one.
  Instants (\<open>time.Time\<close>) are nanoseconds since the Unix epoch.
\<close>

named_theorems go_string \<comment> \<open>unfoldings and rewrite rules of the string library\<close>
named_theorems go_num \<comment> \<open>facts on 64-bit integers and decimal numerals\<close>

type_synonym int64 = "64 word"
type_synonym duration = int64 \<comment> \<open>\<open>time.Duration\<close>: nanoseconds\<close>
type_synonym instant = int \<comment> \<open>\<open>time.Time\<close>: nanoseconds since the epoch\<close>

section \<open>Trimming: strings.TrimSpace\<close>

text \<open>
  The UTF-8 encodings of the runes for which \<open>unicode.IsSpace\<close> holds. A trailing (leading)
  rune is a space exactly when the string ends (starts) with one of these byte sequences.
\<close>

definition space_runes :: "string list" where
  "space_runes =
     [[CHR 0x20], [CHR 0x09], [CHR 0x0A], [CHR 0x0B], [CHR 0x0C], [CHR 0x0D],
      [CHR 0xC2, CHR 0x85], [CHR 0xC2, CHR 0xA0], [CHR 0xE1, CHR 0x9A, CHR 0x80],
      [CHR 0xE2, CHR 0x80, CHR 0x80], [CHR 0xE2, CHR 0x80, CHR 0x81],
      [CHR 0xE2, CHR 0x80, CHR 0x82], [CHR 0xE2, CHR 0x80, CHR 0x83],
      [CHR 0xE2, CHR 0x80, CHR 0x84], [CHR 0xE2, CHR 0x80, CHR 0x85],
      [CHR 0xE2, CHR 0x80, CHR 0x86], [CHR 0xE2, CHR 0x80, CHR 0x87],
      [CHR 0xE2, CHR 0x80, CHR 0x88], [CHR 0xE2, CHR 0x80, CHR 0x89],
      [CHR 0xE2, CHR 0x80, CHR 0x8A], [CHR 0xE2, CHR 0x80, CHR 0xA8],
      [CHR 0xE2, CHR 0x80, CHR 0xA9], [CHR 0xE2, CHR 0x80, CHR 0xAF],
      [CHR 0xE2, CHR 0x81, CHR 0x9F], [CHR 0xE3, CHR 0x80, CHR 0x80]]"

text \<open>Drop leading members of \<open>rs\<close> as long as there is one.\<close>

function trim_runes :: "'a list list \<Rightarrow> 'a list \<Rightarrow> 'a list" where
  "trim_runes rs s =
     (case find (\<lambda>r. r \<noteq> [] \<and> prefix r s) rs of
        None \<Rightarrow> s
      | Some r \<Rightarrow> trim_runes rs (drop (length r) s))"
  by pat_completeness auto
termination
  by (relation "measure (\<lambda>(rs, s). length s)")
     (auto simp: find_Some_iff prefix_def)

declare trim_runes.simps [simp del]

definition trim_left :: "string \<Rightarrow> string" where
  "trim_left s = trim_runes space_runes s"

definition trim_right :: "string \<Rightarrow> string" where
  "trim_right s = rev (trim_runes (map rev space_runes) (rev s))"

definition trim_space :: "string \<Rightarrow> string" where
  "trim_space s = trim_right (trim_left s)"

text \<open>A string with nothing to trim at either end.\<close>

definition trimmed :: "string \<Rightarrow> bool" where
  "trimmed s \<longleftrightarrow> (\<forall>r \<in> set space_runes. \<not> prefix r s \<and> \<not> suffix r s)"

lemma space_runes_nonempty: "[] \<notin> set space_runes"
  by (simp add: space_runes_def)

lemma trim_runes_suffix: "suffix (trim_runes rs s) s"
proof (induction rs s rule: trim_runes.induct)
  case (1 rs s)
  show ?case
  proof (cases "find (\<lambda>r. r \<noteq> [] \<and> prefix r s) rs")
    case None
    then show ?thesis by (subst trim_runes.simps) simp
  next
    case (Some r)
    with 1 have "suffix (trim_runes rs (drop (length r) s)) s"
      using suffix_order.trans suffix_drop by blast
    with Some show ?thesis by (subst trim_runes.simps) simp
  qed
qed

lemma trim_runes_stuck: "r \<in> set rs \<Longrightarrow> r \<noteq> [] \<Longrightarrow> \<not> prefix r (trim_runes rs s)"
proof (induction rs s rule: trim_runes.induct)
  case (1 rs s)
  show ?case
  proof (cases "find (\<lambda>r. r \<noteq> [] \<and> prefix r s) rs")
    case None
    then have "trim_runes rs s = s" by (subst trim_runes.simps) simp
    with None 1 show ?thesis by (auto simp: find_None_iff)
  next
    case (Some r')
    with 1 have "\<not> prefix r (trim_runes rs (drop (length r') s))" by blast
    with Some show ?thesis by (subst trim_runes.simps) simp
  qed
qed

lemma trim_runes_id: "(\<And>r. r \<in> set rs \<Longrightarrow> r \<noteq> [] \<Longrightarrow> \<not> prefix r s) \<Longrightarrow> trim_runes rs s = s"
  by (subst trim_runes.simps) (auto simp: find_Some_iff split: option.splits)

lemma trim_runes_Nil [simp]: "trim_runes rs [] = []"
  by (subst trim_runes.simps) (auto simp: find_Some_iff split: option.splits)

lemma trim_left_suffix: "suffix (trim_left s) s"
  by (simp add: trim_left_def trim_runes_suffix)

lemma trim_right_prefix: "prefix (trim_right s) s"
  using trim_runes_suffix [of "map rev space_runes" "rev s"]
  by (simp add: trim_right_def suffix_to_prefix)

lemma trim_left_stuck: "r \<in> set space_runes \<Longrightarrow> \<not> prefix r (trim_left s)"
  unfolding trim_left_def by (rule trim_runes_stuck) (use space_runes_nonempty in auto)

lemma trim_right_stuck: "r \<in> set space_runes \<Longrightarrow> \<not> suffix r (trim_right s)"
proof -
  assume r: "r \<in> set space_runes"
  with space_runes_nonempty have "\<not> prefix (rev r) (trim_runes (map rev space_runes) (rev s))"
    by (intro trim_runes_stuck) auto
  then show ?thesis by (simp add: trim_right_def suffix_to_prefix)
qed

lemma trimmed_trim_space [simp, intro]: "trimmed (trim_space s)"
proof -
  have "\<not> prefix r (trim_space s)" if "r \<in> set space_runes" for r
    using that trim_left_stuck [of r s] trim_right_prefix [of "trim_left s"]
    unfolding trim_space_def by (meson prefix_order.trans)
  then show ?thesis by (auto simp: trimmed_def trim_space_def trim_right_stuck)
qed

lemma trim_space_trimmed: "trimmed s \<Longrightarrow> trim_space s = s"
proof -
  assume s: "trimmed s"
  then have "trim_left s = s"
    by (auto simp: trim_left_def trimmed_def intro!: trim_runes_id)
  moreover from s have "trim_runes (map rev space_runes) (rev s) = rev s"
    by (auto simp: trimmed_def suffix_to_prefix intro!: trim_runes_id)
  ultimately show ?thesis by (simp add: trim_space_def trim_right_def)
qed

lemma trim_space_idem [simp]: "trim_space (trim_space s) = trim_space s"
  by (simp add: trim_space_trimmed)

lemma trim_space_id_iff: "trim_space s = s \<longleftrightarrow> trimmed s"
  using trim_space_trimmed by (metis trimmed_trim_space)

lemma trimmed_Nil [simp]: "trimmed []"
  using space_runes_nonempty by (auto simp: trimmed_def)

lemma trim_space_Nil [simp]: "trim_space [] = []"
  by (simp add: trim_space_trimmed)

lemma trim_space_sublist: "sublist (trim_space s) s"
proof -
  obtain a where "s = a @ trim_left s" using trim_left_suffix by (auto simp: suffix_def)
  moreover obtain b where "trim_left s = trim_space s @ b"
    using trim_right_prefix unfolding trim_space_def by (auto simp: prefix_def)
  ultimately have "s = a @ trim_space s @ b" by simp
  then show ?thesis unfolding sublist_def by blast
qed

lemma set_trim_space: "set (trim_space s) \<subseteq> set s"
  by (rule set_mono_sublist [OF trim_space_sublist])

lemma trim_space_length: "length (trim_space s) \<le> length s"
  by (rule sublist_length_le [OF trim_space_sublist])

text \<open>
  Bytes that occur in no space rune. A string whose first and last bytes are such bytes is
  trimmed, and so is a trimmed non-empty string with such bytes put in front.
\<close>

definition solid :: "char \<Rightarrow> bool" where
  "solid c \<longleftrightarrow> (\<forall>r \<in> set space_runes. c \<notin> set r)"

lemma trimmed_solid_ends: "s \<noteq> [] \<Longrightarrow> solid (hd s) \<Longrightarrow> solid (last s) \<Longrightarrow> trimmed s"
  unfolding trimmed_def solid_def
proof (intro ballI conjI)
  fix r assume ends: "s \<noteq> []" "\<forall>r \<in> set space_runes. hd s \<notin> set r" "\<forall>r \<in> set space_runes. last s \<notin> set r"
    and r: "r \<in> set space_runes"
  from r space_runes_nonempty have "r \<noteq> []" by auto
  show "\<not> prefix r s"
  proof
    assume "prefix r s"
    with \<open>r \<noteq> []\<close> have "hd s = hd r" by (auto simp: prefix_def)
    with ends r \<open>r \<noteq> []\<close> show False by force
  qed
  show "\<not> suffix r s"
  proof
    assume "suffix r s"
    with \<open>r \<noteq> []\<close> have "last s = last r" by (auto simp: suffix_def)
    with ends r \<open>r \<noteq> []\<close> show False by force
  qed
qed

lemma trimmed_solid_append:
  assumes "a \<noteq> []" "solid (hd a)" "solid (last a)" "trimmed t" "t \<noteq> []"
  shows "trimmed (a @ t)"
  unfolding trimmed_def
proof (intro ballI conjI)
  fix r assume r: "r \<in> set space_runes"
  with space_runes_nonempty have ne: "r \<noteq> []" by auto
  show "\<not> prefix r (a @ t)"
  proof
    assume "prefix r (a @ t)"
    then have "hd r = hd a" using ne assms(1) by (cases r; cases a) (auto simp: prefix_def)
    with ne r assms(2) show False unfolding solid_def by (metis hd_in_set)
  qed
  show "\<not> suffix r (a @ t)"
  proof
    assume "suffix r (a @ t)"
    then consider "suffix r t" | r' where "r = r' @ t" "suffix r' a"
      by (auto simp: suffix_append)
    then show False
    proof cases
      case 1
      with r assms(4) show False by (auto simp: trimmed_def)
    next
      case (2 r')
      show False
      proof (cases "r' = []")
        case True
        with 2 r assms(4) show False by (auto simp: trimmed_def)
      next
        case False
        with 2 have "last a \<in> set r" by (auto simp: suffix_def)
        with r assms(3) show False by (auto simp: solid_def)
      qed
    qed
  qed
qed

section \<open>Case folding: strings.ToLower and strings.EqualFold\<close>

text \<open>
  Both have a fast path for ASCII strings, written out here. On other strings they consult the
  Unicode case tables, which are a parameter: \<open>uc_lower\<close> stands for
  \<open>strings.Map(unicode.ToLower, s)\<close> and \<open>uc_fold\<close> for the rune-wise comparison.
\<close>

record unicode =
  uc_lower :: "string \<Rightarrow> string"
  uc_fold :: "string \<Rightarrow> string \<Rightarrow> bool"

definition is_ascii :: "char \<Rightarrow> bool" where
  "is_ascii c \<longleftrightarrow> (of_char c :: nat) < 128"

definition ascii_lower :: "char \<Rightarrow> char" where
  "ascii_lower c =
     (let n = (of_char c :: nat) in if 65 \<le> n \<and> n \<le> 90 then char_of (n + 32) else c)"

definition to_lower :: "unicode \<Rightarrow> string \<Rightarrow> string" where
  "to_lower uc s = (if list_all is_ascii s then map ascii_lower s else uc_lower uc s)"

definition equal_fold :: "unicode \<Rightarrow> string \<Rightarrow> string \<Rightarrow> bool" where
  "equal_fold uc s t =
     (if list_all is_ascii s \<and> list_all is_ascii t
      then map ascii_lower s = map ascii_lower t else uc_fold uc s t)"

lemma ascii_lower_idem [simp]: "ascii_lower (ascii_lower c) = ascii_lower c"
  by (auto simp: ascii_lower_def Let_def)

lemma is_ascii_lower [simp]: "is_ascii c \<Longrightarrow> is_ascii (ascii_lower c)"
  by (auto simp: ascii_lower_def is_ascii_def Let_def)

lemma to_lower_ascii: "list_all is_ascii s \<Longrightarrow> to_lower uc s = map ascii_lower s"
  by (simp add: to_lower_def)

lemma to_lower_Nil [simp]: "to_lower uc [] = []"
  by (simp add: to_lower_def)

section \<open>Searching, splitting and replacing\<close>

abbreviation has_prefix :: "string \<Rightarrow> string \<Rightarrow> bool" where \<comment> \<open>\<open>strings.HasPrefix(s, p)\<close>\<close>
  "has_prefix s p \<equiv> prefix p s"

abbreviation has_suffix :: "string \<Rightarrow> string \<Rightarrow> bool" where \<comment> \<open>\<open>strings.HasSuffix(s, p)\<close>\<close>
  "has_suffix s p \<equiv> suffix p s"

definition trim_prefix :: "string \<Rightarrow> string \<Rightarrow> string" where
  "trim_prefix s p = (if has_prefix s p then drop (length p) s else s)"

definition trim_suffix :: "string \<Rightarrow> string \<Rightarrow> string" where
  "trim_suffix s p = (if has_suffix s p then take (length s - length p) s else s)"

text \<open>\<open>strings.TrimRight(s, cutset)\<close> for a one-byte cutset.\<close>

definition trim_right_char :: "string \<Rightarrow> char \<Rightarrow> string" where
  "trim_right_char s c = rev (dropWhile (\<lambda>x. x = c) (rev s))"

text \<open>\<open>strings.Contains(s, sub)\<close>.\<close>

fun contains :: "string \<Rightarrow> string \<Rightarrow> bool" where
  "contains [] sub = (sub = [])"
| "contains (c # cs) sub = (prefix sub (c # cs) \<or> contains cs sub)"

lemma contains_iff_sublist: "contains s sub \<longleftrightarrow> sublist sub s"
  by (induction s) (auto simp: sublist_Cons_right)

text \<open>\<open>strings.IndexByte(s, c)\<close>, with \<open>None\<close> for -1.\<close>

fun index_byte :: "string \<Rightarrow> char \<Rightarrow> nat option" where
  "index_byte [] c = None"
| "index_byte (x # xs) c = (if x = c then Some 0 else map_option Suc (index_byte xs c))"

lemma index_byte_None_iff: "index_byte s c = None \<longleftrightarrow> c \<notin> set s"
  by (induction s) auto

lemma index_byte_Some: "index_byte s c = Some i \<Longrightarrow> i < length s \<and> s ! i = c \<and> c \<notin> set (take i s)"
  by (induction s arbitrary: i) (auto split: if_splits)

text \<open>\<open>strings.Split(s, sep)\<close> for a one-byte separator, and \<open>strings.Join\<close>.\<close>

fun split_byte :: "string \<Rightarrow> char \<Rightarrow> string list" where
  "split_byte [] c = [[]]"
| "split_byte (x # xs) c =
     (if x = c then [] # split_byte xs c
      else (case split_byte xs c of [] \<Rightarrow> [[x]] | y # ys \<Rightarrow> (x # y) # ys))"

fun join :: "string list \<Rightarrow> string \<Rightarrow> string" where
  "join [] sep = []"
| "join [s] sep = s"
| "join (s # t # ss) sep = s @ sep @ join (t # ss) sep"

lemma split_byte_nonempty [simp]: "split_byte s c \<noteq> []"
  by (induction s) (auto split: list.splits)

lemma split_byte_no_sep: "c \<notin> set s \<Longrightarrow> split_byte s c = [s]"
  by (induction s) auto

lemma split_byte_append: "c \<notin> set s \<Longrightarrow> split_byte (s @ c # t) c = s # split_byte t c"
  by (induction s) (auto split: list.splits)

lemma join_split_byte: "join (split_byte s c) [c] = s"
proof (induction s)
  case (Cons x xs)
  show ?case
  proof (cases "split_byte xs c")
    case (Cons y ys)
    with Cons.IH show ?thesis by (cases ys) auto
  qed simp
qed simp

text \<open>\<open>strings.ReplaceAll(s, old, new)\<close> for a non-empty \<open>old\<close>: leftmost, non-overlapping.\<close>

function replace_all :: "string \<Rightarrow> string \<Rightarrow> string \<Rightarrow> string" where
  "replace_all [] old new = []"
| "replace_all (c # cs) old new =
     (if old \<noteq> [] \<and> prefix old (c # cs)
      then new @ replace_all (drop (length old) (c # cs)) old new
      else c # replace_all cs old new)"
  by pat_completeness auto
termination
  by (relation "measure (\<lambda>(s, _, _). length s)") auto

lemma replace_all_absent: "o1 \<notin> set s \<Longrightarrow> replace_all s (o1 # os) new = s"
  by (induction s) (auto simp: prefix_def)

text \<open>\<open>strings.Fields(s)\<close>: the words between runs of white space.\<close>

definition at_space :: "string \<Rightarrow> bool" where
  "at_space s \<longleftrightarrow> list_ex (\<lambda>r. prefix r s) space_runes"

fun split_word :: "string \<Rightarrow> string \<times> string" where
  "split_word [] = ([], [])"
| "split_word (c # cs) =
     (if at_space (c # cs) then ([], c # cs) else let (w, rest) = split_word cs in (c # w, rest))"

lemma split_word_append: "fst (split_word s) @ snd (split_word s) = s"
  by (induction s) (auto simp: case_prod_beta Let_def)

lemma split_word_nonempty: "s \<noteq> [] \<Longrightarrow> \<not> at_space s \<Longrightarrow> fst (split_word s) \<noteq> []"
  by (cases s) (auto simp: case_prod_beta Let_def)

lemma not_at_space_trim_left: "\<not> at_space (trim_left s)"
  using trim_left_stuck by (auto simp: at_space_def list_ex_iff)

function string_fields :: "string \<Rightarrow> string list" where
  "string_fields s =
     (let t = trim_left s
      in if t = [] then [] else fst (split_word t) # string_fields (snd (split_word t)))"
  by pat_completeness auto
termination
proof (relation "measure length")
  fix s t :: string
  assume t: "t = trim_left s" "t \<noteq> []"
  then have "0 < length (fst (split_word t))"
    by (simp add: split_word_nonempty not_at_space_trim_left)
  moreover have "length t = length (fst (split_word t)) + length (snd (split_word t))"
    by (metis length_append split_word_append)
  moreover have "length t \<le> length s" unfolding t(1) using trim_left_suffix suffix_length_le by blast
  ultimately show "(snd (split_word t), s) \<in> measure length"
    unfolding in_measure by linarith
qed simp

declare string_fields.simps [simp del]

text \<open>Replacing a single byte is a \<open>concat (map ...)\<close>.\<close>

lemma replace_all_byte:
  "replace_all s [x] new = concat (map (\<lambda>c. if c = x then new else [c]) s)"
  by (induction s) (auto simp: prefix_def)

text \<open>\<open>strings.Compare\<close>: lexicographic on bytes, -1, 0 or 1.\<close>

fun str_compare :: "string \<Rightarrow> string \<Rightarrow> int" where
  "str_compare [] [] = 0"
| "str_compare [] (y # ys) = -1"
| "str_compare (x # xs) [] = 1"
| "str_compare (x # xs) (y # ys) =
     (if (of_char x :: nat) < of_char y then -1
      else if (of_char y :: nat) < of_char x then 1 else str_compare xs ys)"

lemma str_compare_range: "str_compare a b \<in> {-1, 0, 1}"
  by (induction a b rule: str_compare.induct) auto

lemma str_compare_eq_0: "str_compare a b = 0 \<longleftrightarrow> a = b"
  by (induction a b rule: str_compare.induct) auto

lemma str_compare_antisym: "str_compare b a = - str_compare a b"
  by (induction a b rule: str_compare.induct) auto

lemma str_compare_trans: "str_compare a b \<le> 0 \<Longrightarrow> str_compare b c \<le> 0 \<Longrightarrow> str_compare a c \<le> 0"
proof (induction a b arbitrary: c rule: str_compare.induct)
  case (2 y ys)
  then show ?case by (cases c) auto
next
  case (4 x xs y ys)
  show ?case
  proof (cases c)
    case Nil
    with "4.prems" show ?thesis by simp
  next
    case (Cons z zs)
    let ?x = "of_char x :: nat" and ?y = "of_char y :: nat" and ?z = "of_char z :: nat"
    from "4.prems"(1) have xy: "?x \<le> ?y" by (simp split: if_splits)
    from "4.prems"(2) Cons have yz: "?y \<le> ?z" by (simp split: if_splits)
    show ?thesis
    proof (cases "?x < ?z")
      case True
      with Cons show ?thesis by simp
    next
      case False
      with xy yz have eq: "?x = ?y" "?y = ?z" by linarith+
      with "4.prems" Cons have "str_compare xs ys \<le> 0" "str_compare ys zs \<le> 0" by simp_all
      with "4.IH" eq have "str_compare xs zs \<le> 0" by simp
      with Cons eq show ?thesis by simp
    qed
  qed
qed simp_all

section \<open>Decimal numerals: strconv and fmt\<close>

definition digit_char :: "nat \<Rightarrow> char" where
  "digit_char d = char_of (48 + d)"

definition is_digit :: "char \<Rightarrow> bool" where
  "is_digit c \<longleftrightarrow> 48 \<le> (of_char c :: nat) \<and> (of_char c :: nat) \<le> 57"

text \<open>\<open>strconv.FormatUint(n, 10)\<close> and the \<open>%d\<close> verb.\<close>

fun format_uint :: "nat \<Rightarrow> string" where
  "format_uint n =
     (if n < 10 then [digit_char n] else format_uint (n div 10) @ [digit_char (n mod 10)])"

declare format_uint.simps [simp del]

definition format_int :: "int \<Rightarrow> string" where
  "format_int i = (if i < 0 then CHR ''-'' # format_uint (nat (- i)) else format_uint (nat i))"

fun digits_value :: "nat \<Rightarrow> string \<Rightarrow> nat option" where
  "digits_value acc [] = Some acc"
| "digits_value acc (c # cs) =
     (if is_digit c then digits_value (10 * acc + (of_char c - 48)) cs else None)"

text \<open>\<open>strconv.ParseUint(s, 10, 64)\<close> and \<open>strconv.ParseInt(s, 10, 64)\<close>; \<open>None\<close> is an error.\<close>

definition parse_uint :: "string \<Rightarrow> nat option" where
  "parse_uint s =
     (if s = [] then None
      else case digits_value 0 s of
        None \<Rightarrow> None
      | Some n \<Rightarrow> if n < 2 ^ 64 then Some n else None)"

definition parse_int :: "string \<Rightarrow> int option" where
  "parse_int s =
     (case s of
        [] \<Rightarrow> None
      | c # cs \<Rightarrow>
          if c = CHR ''-'' then
            (case parse_uint cs of
               None \<Rightarrow> None
             | Some n \<Rightarrow> if n \<le> 2 ^ 63 then Some (- int n) else None)
          else
            (case parse_uint (if c = CHR ''+'' then cs else s) of
               None \<Rightarrow> None
             | Some n \<Rightarrow> if n < 2 ^ 63 then Some (int n) else None))"

lemma is_digit_digit_char [simp]: "d < 10 \<Longrightarrow> is_digit (digit_char d)"
  by (simp add: is_digit_def digit_char_def)

lemma of_char_digit_char [simp]: "d < 10 \<Longrightarrow> of_char (digit_char d) = 48 + d"
  by (simp add: digit_char_def)

lemma digits_value_append:
  "digits_value acc (s @ t) =
     (case digits_value acc s of None \<Rightarrow> None | Some v \<Rightarrow> digits_value v t)"
  by (induction s arbitrary: acc) auto

lemma format_uint_nonempty [simp]: "format_uint n \<noteq> []"
  by (subst format_uint.simps) simp

lemma digits_value_format_uint [simp]: "digits_value 0 (format_uint n) = Some n"
proof (induction n rule: format_uint.induct)
  case (1 n)
  then show ?case
    by (subst format_uint.simps) (auto simp: digits_value_append)
qed

lemma list_all_is_digit_format_uint [simp]: "list_all is_digit (format_uint n)"
proof (induction n rule: format_uint.induct)
  case (1 n)
  then show ?case by (subst format_uint.simps) auto
qed

lemma format_uint_digits: "c \<in> set (format_uint n) \<Longrightarrow> is_digit c"
  using list_all_is_digit_format_uint [of n] by (simp add: list_all_iff)

lemma parse_uint_format_uint: "n < 2 ^ 64 \<Longrightarrow> parse_uint (format_uint n) = Some n"
  by (simp add: parse_uint_def)

lemma is_digit_not [simp]:
  "\<not> is_digit (CHR ''-'')" "\<not> is_digit (CHR ''+'')" "\<not> is_digit (CHR '';'')"
  by (simp_all add: is_digit_def)

lemma parse_int_format_uint: "n < 2 ^ 63 \<Longrightarrow> parse_int (format_uint n) = Some (int n)"
proof -
  assume n: "n < 2 ^ 63"
  obtain c cs where c: "format_uint n = c # cs" by (cases "format_uint n") simp_all
  then have "is_digit c" using format_uint_digits [of c n] by simp
  then have "c \<noteq> CHR ''-''" "c \<noteq> CHR ''+''" by auto
  moreover have "parse_uint (c # cs) = Some n" using n parse_uint_format_uint [of n] c by simp
  ultimately show ?thesis using n c by (simp add: parse_int_def)
qed

lemma parse_int_format_int: "- (2 ^ 63) \<le> i \<Longrightarrow> i < 2 ^ 63 \<Longrightarrow> parse_int (format_int i) = Some i"
proof (cases "i < 0")
  case True
  assume "- (2 ^ 63) \<le> i"
  then have "nat (- i) \<le> 2 ^ 63" by (simp add: nat_le_iff)
  moreover from this have "parse_uint (format_uint (nat (- i))) = Some (nat (- i))"
    by (intro parse_uint_format_uint) (erule le_less_trans, simp)
  ultimately show ?thesis using True by (simp add: parse_int_def format_int_def)
next
  case False
  assume "i < 2 ^ 63"
  with False have "nat i < 2 ^ 63" by (simp add: nat_less_iff)
  with False show ?thesis by (simp add: format_int_def parse_int_format_uint)
qed

lemma solid_digit: "is_digit c \<Longrightarrow> solid c"
proof -
  assume c: "is_digit c"
  have "\<forall>x \<in> set (concat space_runes). \<not> is_digit x" by (simp add: space_runes_def is_digit_def)
  with c show ?thesis by (auto simp: solid_def)
qed

lemma trimmed_format_uint [simp]: "trimmed (format_uint n)"
  by (rule trimmed_solid_ends) (auto intro!: solid_digit format_uint_digits [of _ n])

section \<open>html.EscapeString\<close>

definition escape_char :: "char \<Rightarrow> string" where
  "escape_char c =
     (if c = CHR ''&'' then ''&amp;''
      else if c = CHR 0x27 then ''&#39;''
      else if c = CHR ''<'' then ''&lt;''
      else if c = CHR ''>'' then ''&gt;''
      else if c = CHR 0x22 then ''&#34;''
      else [c])"

definition escape_string :: "string \<Rightarrow> string" where
  "escape_string s = concat (map escape_char s)"

lemma escape_string_simps [simp]:
  "escape_string [] = []"
  "escape_string (c # cs) = escape_char c @ escape_string cs"
  "escape_string (s @ t) = escape_string s @ escape_string t"
  by (simp_all add: escape_string_def)

lemma escape_string_safe:
  "c \<in> set (escape_string s) \<Longrightarrow> c \<noteq> CHR ''<'' \<and> c \<noteq> CHR ''>'' \<and> c \<noteq> CHR 0x22 \<and> c \<noteq> CHR 0x27"
  by (induction s) (auto simp: escape_char_def split: if_splits)

lemma escape_string_eq_Nil [simp]: "escape_string s = [] \<longleftrightarrow> s = []"
  by (cases s) (auto simp: escape_char_def)

end
