(* ===== verification/Executor.thy ===== *)
theory Executor
  imports GoBase
begin

text \<open>
  \<open>internal/teams/client/executor.go\<close> and the response classifiers of the two HTTP clients.

  Errors, responses and requests come first; then \<open>Retry-After\<close>, the nine classifiers, and the
  retry loop \<open>TeamsRequestExecutor.Do\<close>. What the loop asks of the outside (the HTTP exchange, the
  state of the context, an interrupted sleep, the random jitter) is a record of functions of the
  attempt number. Theory \<open>RequestLog\<close> adds the log. The locale \<open>retry_classifier\<close> is the interface between
  the loop and the classifiers; it is interpreted for each of them.
\<close>

section \<open>Errors, responses and requests\<close>

datatype status_error_kind =
    MessagesError | SendMessageError | ReactionError | ReceiptError | TypingError
  | ConversationsError | ConsumptionHorizonsError
  | GraphUploadError | GraphUploadSessionError | GraphChunkUploadError
  | GraphCreateLinkError | GraphDriveItemError | GraphDriveItemContentError

datatype ctx_error = Canceled | DeadlineExceeded

text \<open>What \<open>errors.Is\<close> and \<open>errors.As\<close> answer about an error chain of \<open>net/http\<close>.\<close>

record err_chain =
  is_canceled :: bool
  is_deadline :: bool
  as_tls_record :: bool
  as_cert_invalid :: bool
  as_unknown_authority :: bool
  as_hostname :: bool
  as_dns :: bool
  as_net_timeout :: "bool option" \<comment> \<open>\<open>net.Error\<close> found, and its \<open>Timeout()\<close>\<close>

record net_error =
  chain :: err_chain
  url_inner :: "err_chain option" \<comment> \<open>the \<open>Err\<close> of the first \<open>*url.Error\<close>, if any\<close>

datatype go_error =
    ErrNew string
  | ErrWrap string go_error
  | CtxErr ctx_error
  | NetErr net_error
  | RetryableError int duration "go_error option"
  | StatusError status_error_kind int string

text \<open>\<open>errors.As\<close> for \<open>RetryableError\<close> (which has no \<open>Unwrap\<close>) and for \<open>MessagesError\<close>.\<close>

fun as_retryable :: "go_error \<Rightarrow> (int \<times> duration) option" where
  "as_retryable (RetryableError status retry_after cause) = Some (status, retry_after)"
| "as_retryable (ErrWrap _ e) = as_retryable e"
| "as_retryable _ = None"

fun as_messages_error :: "go_error \<Rightarrow> int option" where
  "as_messages_error (StatusError MessagesError status _) = Some status"
| "as_messages_error (ErrWrap _ e) = as_messages_error e"
| "as_messages_error _ = None"

record response =
  resp_status :: int
  resp_retry_after :: string \<comment> \<open>the \<open>Retry-After\<close> header\<close>
  resp_content_type :: string
  resp_body :: string
  resp_body_err :: "go_error option" \<comment> \<open>how reading the body ends, after these bytes\<close>

record request =
  req_method :: string
  req_url :: string
  req_headers :: "(string \<times> string) list"
  req_body :: "string option"
  req_get_body :: "(go_error + string) option"

text \<open>\<open>io.ReadAll\<close> of the body, and of \<open>io.LimitReader(body, n)\<close>.\<close>

definition read_all :: "response \<Rightarrow> string \<times> go_error option" where
  "read_all r = (resp_body r, resp_body_err r)"

definition read_limited :: "nat \<Rightarrow> response \<Rightarrow> string \<times> go_error option" where
  "read_limited n r =
     (take n (resp_body r), if n \<le> length (resp_body r) then None else resp_body_err r)"

section \<open>Retry-After\<close>

definition second :: duration where "second = 1000000000"

definition millisecond :: duration where "millisecond = 1000000"

text \<open>
  \<open>until\<close> is \<open>http.ParseTime\<close> followed by \<open>time.Until\<close>: \<open>None\<close> when the value is no HTTP date.
  The product with \<open>time.Second\<close> is taken in 64 bits.
\<close>

definition parse_retry_after :: "(string \<Rightarrow> duration option) \<Rightarrow> string \<Rightarrow> duration" where
  "parse_retry_after until value =
     (if value = [] then 0
      else case parse_int value of
        Some seconds \<Rightarrow>
          if 0 \<le> seconds then word_of_int seconds * second
          else (case until value of Some d \<Rightarrow> if 0 <s d then d else 0 | None \<Rightarrow> 0)
      | None \<Rightarrow> (case until value of Some d \<Rightarrow> if 0 <s d then d else 0 | None \<Rightarrow> 0))"

section \<open>Response classifiers\<close>

definition maxErrorBodyBytes :: nat where "maxErrorBodyBytes = 2048"

definition maxUploadErrorBytes :: nat where "maxUploadErrorBytes = 1024"

definition maxCreateLinkErrorBytes :: nat where "maxCreateLinkErrorBytes = 1024"

text \<open>The part the classifiers have in common, after their tests for a missing response.\<close>

definition classify_status ::
  "status_error_kind \<Rightarrow> nat \<Rightarrow> (string \<Rightarrow> duration option) \<Rightarrow> response \<Rightarrow> go_error option" where
  "classify_status kind limit until r =
     (if 200 \<le> resp_status r \<and> resp_status r < 300 then None
      else if resp_status r = 429
        then Some (RetryableError (resp_status r) (parse_retry_after until (resp_retry_after r)) None)
      else if 500 \<le> resp_status r then Some (RetryableError (resp_status r) 0 None)
      else Some (StatusError kind (resp_status r) (fst (read_limited limit r))))"

definition classify_response ::
  "status_error_kind \<Rightarrow> nat \<Rightarrow> (string \<Rightarrow> duration option) \<Rightarrow> response option \<Rightarrow> go_error option"
where
  "classify_response kind limit until resp =
     (case resp of None \<Rightarrow> Some (ErrNew ''missing response'')
      | Some r \<Rightarrow> classify_status kind limit until r)"

definition classifyTeamsSendResponse ::
  "(string \<Rightarrow> duration option) \<Rightarrow> response option \<Rightarrow> go_error option" where
  "classifyTeamsSendResponse = classify_response SendMessageError maxErrorBodyBytes"

definition classifyTeamsReactionResponse ::
  "(string \<Rightarrow> duration option) \<Rightarrow> response option \<Rightarrow> go_error option" where
  "classifyTeamsReactionResponse = classify_response ReactionError maxErrorBodyBytes"

definition classifyTeamsReceiptResponse ::
  "(string \<Rightarrow> duration option) \<Rightarrow> response option \<Rightarrow> go_error option" where
  "classifyTeamsReceiptResponse = classify_response ReceiptError maxErrorBodyBytes"

definition classifyTeamsTypingResponse ::
  "(string \<Rightarrow> duration option) \<Rightarrow> response option \<Rightarrow> go_error option" where
  "classifyTeamsTypingResponse = classify_response TypingError maxErrorBodyBytes"

definition classifyUploadResponse ::
  "(string \<Rightarrow> duration option) \<Rightarrow> response option \<Rightarrow> go_error option" where
  "classifyUploadResponse = classify_response GraphUploadError maxUploadErrorBytes"

definition classifyUploadSessionResponse ::
  "(string \<Rightarrow> duration option) \<Rightarrow> response option \<Rightarrow> go_error option" where
  "classifyUploadSessionResponse = classify_response GraphUploadSessionError maxUploadErrorBytes"

definition classifyCreateLinkResponse ::
  "(string \<Rightarrow> duration option) \<Rightarrow> response option \<Rightarrow> go_error option" where
  "classifyCreateLinkResponse = classify_response GraphCreateLinkError maxCreateLinkErrorBytes"

definition classifyGetDriveItemResponse ::
  "(string \<Rightarrow> duration option) \<Rightarrow> response option \<Rightarrow> go_error option" where
  "classifyGetDriveItemResponse = classify_response GraphDriveItemError maxUploadErrorBytes"

definition classifyDriveItemContentResponse ::
  "(string \<Rightarrow> duration option) \<Rightarrow> response option \<Rightarrow> go_error option" where
  "classifyDriveItemContentResponse = classify_response GraphDriveItemContentError maxUploadErrorBytes"

text \<open>The chunk classifier tests 202 first, which the range test covers anyway.\<close>

definition classifyChunkUploadResponse ::
  "(string \<Rightarrow> duration option) \<Rightarrow> response option \<Rightarrow> go_error option" where
  "classifyChunkUploadResponse until resp =
     (case resp of None \<Rightarrow> Some (ErrNew ''missing response'')
      | Some r \<Rightarrow>
          if resp_status r = 202 \<or> (200 \<le> resp_status r \<and> resp_status r < 300) then None
          else classify_status GraphChunkUploadError maxUploadErrorBytes until r)"

section \<open>The retry loop\<close>

record executor =
  ex_has_http :: bool
  ex_max_retries :: int
  ex_base_backoff :: duration
  ex_max_backoff :: duration

text \<open>
  The outside, by attempt number (from 1): the exchange, the context as the loop head and
  \<open>isRetryableNetworkError\<close> read it, the outcome of a sleep, and the jitter.
\<close>

record exec_env =
  env_http :: "nat \<Rightarrow> request \<Rightarrow> net_error + response"
  env_ctx :: "nat \<Rightarrow> ctx_error option"
  env_ctx_net :: "nat \<Rightarrow> ctx_error option"
  env_sleep :: "nat \<Rightarrow> duration \<Rightarrow> go_error option"
  env_jitter :: "nat \<Rightarrow> duration \<Rightarrow> duration"

datatype exec_event = Attempt request | Backoff duration

type_synonym exec_result = "response option \<times> go_error option \<times> exec_event list"

definition requestForAttempt :: "request \<Rightarrow> nat \<Rightarrow> go_error + request" where
  "requestForAttempt req attempt =
     (if attempt = 1 \<and> req_get_body req = None then Inr req
      else if req_get_body req = None \<and> req_body req \<noteq> None
        then Inl (ErrNew ''request body cannot be retried without GetBody'')
      else case req_get_body req of
        None \<Rightarrow> Inr req
      | Some (Inl err) \<Rightarrow> Inl err
      | Some (Inr body) \<Rightarrow> Inr (req\<lparr>req_body := Some body\<rparr>))"

definition computeBackoff :: "exec_env \<Rightarrow> duration \<Rightarrow> duration \<Rightarrow> nat \<Rightarrow> duration" where
  "computeBackoff env base mx retry =
     (let backoff = (if 1 < retry then base * push_bit (retry - 1) 1 else base);
          backoff = (if mx <s backoff then mx else backoff)
      in env_jitter env retry backoff)"

definition sleepWithContext :: "exec_env \<Rightarrow> nat \<Rightarrow> duration \<Rightarrow> go_error option" where
  "sleepWithContext env retry d = (if d \<le>s 0 then None else env_sleep env retry d)"

definition unwrapURLError :: "net_error \<Rightarrow> err_chain" where
  "unwrapURLError err = (case url_inner err of Some inner \<Rightarrow> inner | None \<Rightarrow> chain err)"

definition isDNSError :: "net_error \<Rightarrow> bool" where
  "isDNSError err = as_dns (unwrapURLError err)"

definition isTLSError :: "net_error \<Rightarrow> bool" where
  "isTLSError err =
     (let unwrapped = unwrapURLError err
      in as_tls_record unwrapped \<or> as_cert_invalid unwrapped \<or> as_unknown_authority unwrapped
         \<or> as_hostname unwrapped)"

definition isRetryableNetworkError :: "ctx_error option \<Rightarrow> net_error \<Rightarrow> bool" where
  "isRetryableNetworkError ctx err =
     (if is_canceled (chain err) then False
      else if is_deadline (chain err) then ctx = None
      else if isTLSError err \<or> isDNSError err then False
      else case as_net_timeout (chain err) of Some t \<Rightarrow> t | None \<Rightarrow> False)"

text \<open>
  One round of the loop: either a result (\<open>Inl\<close>), or the log with which the next round starts
  after a backoff (\<open>Inr\<close>, the source's \<open>continue\<close>).
\<close>

definition back_off ::
  "exec_env \<Rightarrow> nat \<Rightarrow> request \<Rightarrow> duration \<Rightarrow> exec_event list \<Rightarrow> exec_result + exec_event list"
where
  "back_off env retry attemptReq backoff log =
     (let log' = log @ [Attempt attemptReq, Backoff backoff]
      in case sleepWithContext env retry backoff of
           Some e \<Rightarrow> Inl (None, Some e, log')
         | None \<Rightarrow> Inr log')"

definition do_round ::
  "exec_env \<Rightarrow> (response option \<Rightarrow> go_error option) \<Rightarrow> request \<Rightarrow> nat \<Rightarrow> duration \<Rightarrow> duration
     \<Rightarrow> nat \<Rightarrow> exec_event list \<Rightarrow> exec_result + exec_event list"
where
  "do_round env classify req maxRetries base mx retries log =
     (case env_ctx env (Suc retries) of
        Some e \<Rightarrow> Inl (None, Some (CtxErr e), log)
      | None \<Rightarrow>
        (case requestForAttempt req (Suc retries) of
           Inl err \<Rightarrow> Inl (None, Some err, log)
         | Inr attemptReq \<Rightarrow>
           (case env_http env (Suc retries) attemptReq of
              Inl err \<Rightarrow>
                if isRetryableNetworkError (env_ctx_net env (Suc retries)) err \<and> retries < maxRetries
                then back_off env (Suc retries) attemptReq
                       (computeBackoff env base mx (Suc retries)) log
                else Inl (None, Some (NetErr err), log @ [Attempt attemptReq])
            | Inr resp \<Rightarrow>
                (case classify (Some resp) of
                   None \<Rightarrow> Inl (Some resp, None, log @ [Attempt attemptReq])
                 | Some classifyErr \<Rightarrow>
                   (case as_retryable classifyErr of
                      Some (status, retryAfter) \<Rightarrow>
                        if retries < maxRetries then
                          back_off env (Suc retries) attemptReq
                            (if retryAfter \<le>s 0 then computeBackoff env base mx (Suc retries)
                             else retryAfter) log
                        else Inl (Some resp, Some classifyErr, log @ [Attempt attemptReq])
                    | None \<Rightarrow> Inl (Some resp, Some classifyErr, log @ [Attempt attemptReq]))))))"

lemma back_off_Inr:
  "back_off env k q d log = Inr log' \<Longrightarrow> log' = log @ [Attempt q, Backoff d]"
  by (auto simp: back_off_def Let_def split: option.splits)

lemma do_round_Inr:
  "do_round env classify req maxRetries base mx retries log = Inr log' \<Longrightarrow>
     retries < maxRetries \<and> (\<exists>q d. requestForAttempt req (Suc retries) = Inr q
       \<and> log' = log @ [Attempt q, Backoff d])"
  by (auto simp: do_round_def dest!: back_off_Inr split: option.splits sum.splits if_splits)

function do_loop ::
  "exec_env \<Rightarrow> (response option \<Rightarrow> go_error option) \<Rightarrow> request \<Rightarrow> nat \<Rightarrow> duration \<Rightarrow> duration
     \<Rightarrow> nat \<Rightarrow> exec_event list \<Rightarrow> exec_result"
where
  "do_loop env classify req maxRetries base mx retries log =
     (case do_round env classify req maxRetries base mx retries log of
        Inl res \<Rightarrow> res
      | Inr log' \<Rightarrow> do_loop env classify req maxRetries base mx (Suc retries) log')"
  by pat_completeness auto
termination
  by (relation "measure (\<lambda>(_, _, _, maxRetries, _, _, retries, _). maxRetries - retries)")
    (auto dest!: do_round_Inr)

declare do_loop.simps [simp del]

definition Do ::
  "exec_env \<Rightarrow> executor option \<Rightarrow> request option \<Rightarrow> (response option \<Rightarrow> go_error option) option
     \<Rightarrow> exec_result"
where
  "Do env exec req classify =
     (case exec of
        None \<Rightarrow> (None, Some (ErrNew ''consumer client missing http client''), [])
      | Some e \<Rightarrow>
        if \<not> ex_has_http e then (None, Some (ErrNew ''consumer client missing http client''), [])
        else case req of
          None \<Rightarrow> (None, Some (ErrNew ''missing request''), [])
        | Some r \<Rightarrow>
          (case classify of
             None \<Rightarrow> (None, Some (ErrNew ''missing response classifier''), [])
           | Some cl \<Rightarrow>
             (let maxRetries = (if ex_max_retries e < 0 then 0 else ex_max_retries e);
                  baseBackoff = (if ex_base_backoff e \<le>s 0 then 500 * millisecond
                                 else ex_base_backoff e);
                  maxBackoff = (if ex_max_backoff e \<le>s 0 then 10 * second else ex_max_backoff e)
              in do_loop env cl r (nat maxRetries) baseBackoff maxBackoff 0 [])))"

text \<open>The executor every client of the bridge is built with.\<close>

definition defaultExecutor :: executor where
  "defaultExecutor = \<lparr>ex_has_http = True, ex_max_retries = 4,
     ex_base_backoff = 500 * millisecond, ex_max_backoff = 10 * second\<rparr>"

section \<open>The contract of a classifier\<close>

text \<open>
  What the retry loop relies on: success is exactly the 2xx range, and exactly 429 and the 5xx
  range are retryable, reported with the status of the response.
\<close>

locale retry_classifier =
  fixes classify :: "response option \<Rightarrow> go_error option"
  assumes accepts: "classify (Some r) = None \<longleftrightarrow> 200 \<le> resp_status r \<and> resp_status r < 300"
    and retries: "classify (Some r) = Some e \<Longrightarrow>
      as_retryable e \<noteq> None \<longleftrightarrow> resp_status r = 429 \<or> 500 \<le> resp_status r"
    and reports: "classify (Some r) = Some e \<Longrightarrow> as_retryable e = Some (st, ra) \<Longrightarrow>
      st = resp_status r"
    and missing: "\<exists>e. classify None = Some e \<and> as_retryable e = None"

lemma classify_response_retry_classifier: "retry_classifier (classify_response kind limit until)"
  by unfold_locales
    (auto simp: classify_response_def classify_status_def split: if_splits)

lemma classifyChunkUploadResponse_eq:
  "classifyChunkUploadResponse = classify_response GraphChunkUploadError maxUploadErrorBytes"
  by (intro ext)
    (auto simp: classifyChunkUploadResponse_def classify_response_def classify_status_def
       split: option.splits)

interpretation send_classifier: retry_classifier "classifyTeamsSendResponse until" for until
  unfolding classifyTeamsSendResponse_def by (rule classify_response_retry_classifier)

interpretation reaction_classifier: retry_classifier "classifyTeamsReactionResponse until" for until
  unfolding classifyTeamsReactionResponse_def by (rule classify_response_retry_classifier)

interpretation receipt_classifier: retry_classifier "classifyTeamsReceiptResponse until" for until
  unfolding classifyTeamsReceiptResponse_def by (rule classify_response_retry_classifier)

interpretation typing_classifier: retry_classifier "classifyTeamsTypingResponse until" for until
  unfolding classifyTeamsTypingResponse_def by (rule classify_response_retry_classifier)

interpretation upload_classifier: retry_classifier "classifyUploadResponse until" for until
  unfolding classifyUploadResponse_def by (rule classify_response_retry_classifier)

interpretation session_classifier: retry_classifier "classifyUploadSessionResponse until" for until
  unfolding classifyUploadSessionResponse_def by (rule classify_response_retry_classifier)

interpretation link_classifier: retry_classifier "classifyCreateLinkResponse until" for until
  unfolding classifyCreateLinkResponse_def by (rule classify_response_retry_classifier)

interpretation item_classifier: retry_classifier "classifyGetDriveItemResponse until" for until
  unfolding classifyGetDriveItemResponse_def by (rule classify_response_retry_classifier)

interpretation content_classifier: retry_classifier "classifyDriveItemContentResponse until" for until
  unfolding classifyDriveItemContentResponse_def by (rule classify_response_retry_classifier)

interpretation chunk_classifier: retry_classifier "classifyChunkUploadResponse until" for until
  unfolding classifyChunkUploadResponse_eq by (rule classify_response_retry_classifier)

section \<open>The loop against its specification\<close>

fun attempts :: "exec_event list \<Rightarrow> request list" where
  "attempts [] = []"
| "attempts (Attempt q # l) = q # attempts l"
| "attempts (Backoff d # l) = attempts l"

lemma attempts_append [simp]: "attempts (l @ m) = attempts l @ attempts m"
  by (induction l rule: attempts.induct) auto

text \<open>
  Attempt \<open>k\<close> in isolation: is its outcome one the loop would retry, and what is its verdict if
  it is the last one?
\<close>

definition transient ::
  "exec_env \<Rightarrow> (response option \<Rightarrow> go_error option) \<Rightarrow> request \<Rightarrow> nat \<Rightarrow> bool" where
  "transient env classify req k =
     (case requestForAttempt req k of
        Inl _ \<Rightarrow> False
      | Inr q \<Rightarrow>
        (case env_http env k q of
           Inl err \<Rightarrow> isRetryableNetworkError (env_ctx_net env k) err
         | Inr r \<Rightarrow> (case classify (Some r) of None \<Rightarrow> False | Some e \<Rightarrow> as_retryable e \<noteq> None)))"

definition verdict ::
  "exec_env \<Rightarrow> (response option \<Rightarrow> go_error option) \<Rightarrow> request \<Rightarrow> nat
     \<Rightarrow> response option \<times> go_error option" where
  "verdict env classify req k =
     (case requestForAttempt req k of
        Inl err \<Rightarrow> (None, Some err)
      | Inr q \<Rightarrow>
        (case env_http env k q of
           Inl err \<Rightarrow> (None, Some (NetErr err))
         | Inr r \<Rightarrow> (Some r, classify (Some r))))"

text \<open>An environment that neither cancels nor interrupts.\<close>

definition quiet :: "exec_env \<Rightarrow> bool" where
  "quiet env \<longleftrightarrow> (\<forall>k. env_ctx env k = None) \<and> (\<forall>k d. env_sleep env k d = None)"

lemma sleep_quiet [simp]: "quiet env \<Longrightarrow> sleepWithContext env k d = None"
  by (simp add: quiet_def sleepWithContext_def)

lemma do_round_transient:
  assumes "quiet env" "transient env cl req (Suc n)" "n < mr"
  shows "\<exists>log'. do_round env cl req mr b mx n log = Inr log'"
  using assms
  by (auto simp: do_round_def back_off_def transient_def quiet_def sleepWithContext_def Let_def
      split: sum.splits option.splits)

lemma do_round_decisive:
  assumes "quiet env" "\<not> transient env cl req (Suc n) \<or> mr \<le> n"
  shows "\<exists>l. do_round env cl req mr b mx n log
           = Inl (fst (verdict env cl req (Suc n)), snd (verdict env cl req (Suc n)), log @ l)
         \<and> length (attempts l) \<le> 1"
  using assms
  by (auto simp: do_round_def transient_def verdict_def quiet_def
      split: sum.splits option.splits)

lemma do_loop_first_decisive:
  assumes "quiet env" and "n < k" and "k \<le> Suc mr"
    and "\<And>i. n < i \<Longrightarrow> i < k \<Longrightarrow> transient env cl req i"
    and "\<not> transient env cl req k \<or> k = Suc mr"
  shows "\<exists>l. do_loop env cl req mr b mx n log
           = (fst (verdict env cl req k), snd (verdict env cl req k), l)
         \<and> length (attempts l) \<le> length (attempts log) + (k - n)"
  using assms(2-5)
proof (induction "k - n" arbitrary: n log rule: less_induct)
  case less
  show ?case
  proof (cases "k = Suc n")
    case True
    with less.prems do_round_decisive [OF assms(1), of cl req n mr b mx log] show ?thesis
      by (auto simp: do_loop.simps [of env cl req mr b mx n log])
  next
    case False
    with less.prems have n: "Suc n < k" "n < mr" by simp_all
    with less.prems(3) obtain log' where r: "do_round env cl req mr b mx n log = Inr log'"
      using do_round_transient [OF assms(1), of cl req n mr b mx log] by auto
    then have "length (attempts log') = Suc (length (attempts log))"
      by (auto dest: do_round_Inr)
    have "k - Suc n < k - n" using n by simp
    then obtain l where "do_loop env cl req mr b mx (Suc n) log'
        = (fst (verdict env cl req k), snd (verdict env cl req k), l)"
      and "length (attempts l) \<le> length (attempts log') + (k - Suc n)"
      using less.hyps [of "Suc n" log'] less.prems n by auto
    with \<open>length (attempts log') = _\<close> n r show ?thesis
      by (auto simp: do_loop.simps [of env cl req mr b mx n log])
  qed
qed

text \<open>How a round ends: with at most one attempt more, and without error only on acceptance.\<close>

lemma do_round_Inl:
  assumes "do_round env cl req mr b mx n log = Inl (ro, eo, log')"
  shows "log' = log \<or> (\<exists>q d. requestForAttempt req (Suc n) = Inr q \<and>
           (log' = log @ [Attempt q] \<or> log' = log @ [Attempt q, Backoff d]))"
    and "eo = None \<Longrightarrow> \<exists>r. ro = Some r \<and> cl (Some r) = None"
  using assms
  by (auto simp: do_round_def back_off_def Let_def split: option.splits sum.splits if_splits)

text \<open>Whatever the outside does, at most \<open>mr + 1\<close> attempts are made.\<close>

lemma do_loop_attempts:
  "\<exists>l. snd (snd (do_loop env cl req mr b mx n log)) = log @ l
     \<and> length (attempts l) \<le> Suc (mr - n)
     \<and> (\<forall>q \<in> set (attempts l). \<exists>k. requestForAttempt req k = Inr q)"
proof (induction "mr - n" arbitrary: n log rule: less_induct)
  case less
  show ?case
  proof (cases "do_round env cl req mr b mx n log")
    case (Inl res)
    then show ?thesis
      using do_round_Inl(1) [of env cl req mr b mx n log "fst res" "fst (snd res)" "snd (snd res)"]
      by (auto simp: do_loop.simps [of env cl req mr b mx n log])
  next
    case (Inr log')
    from do_round_Inr [OF this] obtain q d where n: "n < mr"
      and q: "requestForAttempt req (Suc n) = Inr q" and log': "log' = log @ [Attempt q, Backoff d]"
      by blast
    from n have "mr - Suc n < mr - n" by simp
    from less [OF this, of log'] obtain l where
      "snd (snd (do_loop env cl req mr b mx (Suc n) log')) = log' @ l"
      "length (attempts l) \<le> Suc (mr - Suc n)"
      "\<forall>q \<in> set (attempts l). \<exists>k. requestForAttempt req k = Inr q" by blast
    with n q log' Inr show ?thesis
      by (intro exI [of _ "Attempt q # Backoff d # l"])
        (auto simp: do_loop.simps [of env cl req mr b mx n log])
  qed
qed

text \<open>No error is returned only with a response the classifier accepts.\<close>

lemma do_loop_accepted:
  "do_loop env cl req mr b mx n log = (ro, None, l) \<Longrightarrow> \<exists>r. ro = Some r \<and> cl (Some r) = None"
proof (induction "mr - n" arbitrary: n log rule: less_induct)
  case less
  show ?case
  proof (cases "do_round env cl req mr b mx n log")
    case (Inl res)
    with less.prems show ?thesis
      by (intro do_round_Inl(2) [of env cl req mr b mx n log ro None l])
        (simp_all add: do_loop.simps [of env cl req mr b mx n log])
  next
    case (Inr log')
    then have "mr - Suc n < mr - n" by (auto dest: do_round_Inr)
    with Inr less.prems less.hyps [of "Suc n" log'] show ?thesis
      by (simp add: do_loop.simps [of env cl req mr b mx n log])
  qed
qed

lemma Do_do_loop:
  assumes "ex_has_http e"
  obtains b mx where
    "Do env (Some e) (Some req) (Some cl) = do_loop env cl req (nat (ex_max_retries e)) b mx 0 []"
  by (rule that [of "if ex_base_backoff e \<le>s 0 then 500 * millisecond else ex_base_backoff e"
        "if ex_max_backoff e \<le>s 0 then 10 * second else ex_max_backoff e"])
    (simp add: Do_def Let_def assms)

lemma Do_accepted:
  "Do env exec req (Some cl) = (ro, None, l) \<Longrightarrow> \<exists>r. ro = Some r \<and> cl (Some r) = None"
  by (auto simp: Do_def Let_def split: option.splits if_splits dest: do_loop_accepted)

context retry_classifier begin

lemma Do_success:
  "Do env exec req (Some classify) = (ro, None, l) \<Longrightarrow>
     \<exists>r. ro = Some r \<and> 200 \<le> resp_status r \<and> resp_status r < 300"
  by (auto dest!: Do_accepted simp: accepts)

lemma not_transient_iff:
  assumes "requestForAttempt req k = Inr q" "env_http env k q = Inr r"
  shows "transient env classify req k \<longleftrightarrow> resp_status r = 429 \<or> 500 \<le> resp_status r"
  using assms accepts [of r] retries [of r]
  by (cases "classify (Some r)") (auto simp: transient_def)

end

section \<open>Properties\<close>

text \<open>All the classifiers the two clients hand to the loop.\<close>

definition classifiers ::
  "(string \<Rightarrow> duration option) \<Rightarrow> (response option \<Rightarrow> go_error option) list" where
  "classifiers until =
     [classifyTeamsSendResponse until, classifyTeamsReactionResponse until,
      classifyTeamsReceiptResponse until, classifyTeamsTypingResponse until,
      classifyUploadResponse until, classifyUploadSessionResponse until,
      classifyChunkUploadResponse until, classifyCreateLinkResponse until,
      classifyGetDriveItemResponse until, classifyDriveItemContentResponse until]"

lemma classifiers_contract: "list_all retry_classifier (classifiers until)"
  by (simp add: classifiers_def send_classifier.retry_classifier_axioms
      reaction_classifier.retry_classifier_axioms receipt_classifier.retry_classifier_axioms
      typing_classifier.retry_classifier_axioms upload_classifier.retry_classifier_axioms
      session_classifier.retry_classifier_axioms chunk_classifier.retry_classifier_axioms
      link_classifier.retry_classifier_axioms item_classifier.retry_classifier_axioms
      content_classifier.retry_classifier_axioms)

lemma classifiers_member: "cl \<in> set (classifiers until) \<Longrightarrow> retry_classifier cl"
  using classifiers_contract [of until] by (simp add: list_all_iff)

text \<open>An environment for the examples: fixed answers by attempt number, nothing cancelled.\<close>

definition reply :: "int \<Rightarrow> string \<Rightarrow> response" where
  "reply st retry_after = \<lparr>resp_status = st, resp_retry_after = retry_after,
     resp_content_type = [], resp_body = ''body'', resp_body_err = None\<rparr>"

definition scripted :: "(nat \<Rightarrow> int) \<Rightarrow> exec_env" where
  "scripted status = \<lparr>env_http = (\<lambda>k _. Inr (reply (status k) [])), env_ctx = (\<lambda>_. None),
     env_ctx_net = (\<lambda>_. None), env_sleep = (\<lambda>_ _. None), env_jitter = (\<lambda>_ d. d)\<rparr>"

definition sample_request :: request where
  "sample_request = \<lparr>req_method = ''POST'', req_url = ''https://x'', req_headers = [],
     req_body = Some ''hi'', req_get_body = Some (Inr ''hi'')\<rparr>"

lemmas scripted_simps = scripted_def reply_def sample_request_def quiet_def transient_def
  requestForAttempt_def verdict_def classify_response_def classify_status_def read_limited_def



definition same_request :: "request \<Rightarrow> request \<Rightarrow> bool" where
  "same_request req q \<longleftrightarrow>
     q = req\<lparr>req_body := (case req_get_body req of Some (Inr body) \<Rightarrow> Some body | _ \<Rightarrow> req_body req)\<rparr>"

lemma requestForAttempt_same: "requestForAttempt req k = Inr q \<Longrightarrow> same_request req q"
  by (auto simp: requestForAttempt_def same_request_def split: if_splits option.splits sum.splits)

lemma Do_attempts:
  "length (attempts (snd (snd (Do env (Some e) req cl)))) \<le> Suc (nat (ex_max_retries e))
   \<and> (\<forall>q \<in> set (attempts (snd (snd (Do env (Some e) req cl)))). same_request (the req) q)"
proof (cases "ex_has_http e \<and> req \<noteq> None \<and> cl \<noteq> None")
  case True
  then obtain r c where rc: "req = Some r" "cl = Some c" by auto
  from True obtain b mx where "Do env (Some e) req cl
      = do_loop env c r (nat (ex_max_retries e)) b mx 0 []"
    unfolding rc by (blast intro: Do_do_loop)
  with do_loop_attempts [of env c r "nat (ex_max_retries e)" b mx 0 "[]"] show ?thesis
    by (auto simp: rc intro: requestForAttempt_same)
next
  case False
  then show ?thesis by (auto simp: Do_def split: option.splits)
qed

text \<open>
  Whatever the server, the context and the timers do, \<open>Do\<close> makes at most \<open>MaxRetries + 1\<close>
  attempts, and every attempt is the caller's request: same method, URL and headers, and the body
  that \<open>GetBody\<close> gives (the original one when there is none).
\<close>

theorem Do_attempts_bounded:
  "length (attempts (snd (snd (Do env (Some e) req cl)))) \<le> Suc (nat (ex_max_retries e))
   \<and> list_all (same_request (the req)) (attempts (snd (snd (Do env (Some e) req cl))))"
  using Do_attempts by (simp add: list_all_iff)

text \<open>
  C40: no classifier of the Teams and Graph clients ever lets a failed exchange pass: when \<open>Do\<close>
  returns a nil error, the response it returns is there and its status is in the 2xx range.
\<close>

theorem Do_success_2xx:
  assumes "cl \<in> set (classifiers until)" and "Do env e req (Some cl) = (ro, None, log)"
  shows "\<exists>r. ro = Some r \<and> 200 \<le> resp_status r \<and> resp_status r < 300"
  using assms by (blast intro: retry_classifier.Do_success classifiers_member)

theorem Do_success_2xx_witness:
  "\<exists>r. Some (reply 204 []) = Some r \<and> 200 \<le> resp_status r \<and> resp_status r < 300"
  by (rule Do_success_2xx [of "classifyTeamsTypingResponse (\<lambda>_. None)" "\<lambda>_. None" "scripted (\<lambda>_. 204)"
        "Some defaultExecutor" "Some sample_request" "Some (reply 204 [])" "[Attempt sample_request]"])
    (simp_all add: classifiers_def Do_def Let_def defaultExecutor_def do_loop.simps do_round_def
       scripted_simps classifyTeamsTypingResponse_def)

text \<open>
  Exactly the statuses 429 and 5xx are retried. For every classifier and every response, the
  outcome of an attempt that reached the server is transient if and only if its status is 429 or at
  least 500; every other status outside 2xx ends the loop with that status in the error.
\<close>

theorem transient_status:
  assumes "cl \<in> set (classifiers until)"
    and "requestForAttempt req k = Inr q" and "env_http env k q = Inr r"
  shows "transient env cl req k \<longleftrightarrow> resp_status r = 429 \<or> 500 \<le> resp_status r"
  by (rule retry_classifier.not_transient_iff [OF classifiers_member]) (rule assms)+

theorem transient_status_witness:
  "transient (scripted (\<lambda>_. 429)) (classifyUploadResponse (\<lambda>_. None)) sample_request 1 \<longleftrightarrow>
     (429 :: int) = 429 \<or> 500 \<le> (429 :: int)"
  using transient_status [of "classifyUploadResponse (\<lambda>_. None)" "\<lambda>_. None" sample_request 1
      sample_request "scripted (\<lambda>_. 429)" "reply 429 []"]
  by (simp add: classifiers_def scripted_simps)

definition jitter_law :: "exec_env \<Rightarrow> bool" where
  "jitter_law env \<longleftrightarrow> (\<forall>k d. 0 \<le> sint d \<longrightarrow>
     sint d div 2 \<le> sint (env_jitter env k d) \<and> sint (env_jitter env k d) \<le> 3 * sint d div 2)"

lemma computeBackoff_default:
  "computeBackoff env (ex_base_backoff defaultExecutor) (ex_max_backoff defaultExecutor) 1
     = env_jitter env 1 500000000"
  "computeBackoff env (ex_base_backoff defaultExecutor) (ex_max_backoff defaultExecutor) 2
     = env_jitter env 2 1000000000"
  "computeBackoff env (ex_base_backoff defaultExecutor) (ex_max_backoff defaultExecutor) 3
     = env_jitter env 3 2000000000"
  "computeBackoff env (ex_base_backoff defaultExecutor) (ex_max_backoff defaultExecutor) 4
     = env_jitter env 4 4000000000"
  by (simp_all add: computeBackoff_def defaultExecutor_def second_def millisecond_def Let_def
      word_sless_alt push_bit_eq_mult)

text \<open>
  With the settings every client uses (500 ms base, 10 s cap, four retries) and a jitter that
  stays between one half and one and a half of its argument, the computed waits of one request
  add up to at least 3.75 s and at most 11.25 s; the 10 s cap is never reached.
\<close>

theorem default_backoff_total:
  assumes "jitter_law env"
  shows "(\<Sum>k = 1..4. sint (computeBackoff env (ex_base_backoff defaultExecutor)
           (ex_max_backoff defaultExecutor) k)) \<in> {3750000000..11250000000}"
proof -
  have "{1..4::nat} = {1, 2, 3, 4}" by auto
  moreover have J: "0 \<le> sint d \<Longrightarrow> sint d div 2 \<le> sint (env_jitter env k d)
      \<and> sint (env_jitter env k d) \<le> 3 * sint d div 2" for k d
    using assms by (simp add: jitter_law_def)
  ultimately show ?thesis
    using J [of 500000000 1] J [of 1000000000 2] J [of 2000000000 3] J [of 4000000000 4]
    by (simp add: computeBackoff_default del: One_nat_def)
qed

theorem default_backoff_total_witness:
  "(\<Sum>k = 1..4. sint (computeBackoff (scripted (\<lambda>_. 200)) (ex_base_backoff defaultExecutor)
       (ex_max_backoff defaultExecutor) k)) \<in> {3750000000..11250000000}"
  by (rule default_backoff_total) (auto simp: jitter_law_def scripted_def)

end
