(* ===== verification/GoLib.thy ===== *)
theory GoLib
  imports GoBase
begin

text \<open>
  The parts of Go's standard library, and of \<open>golang.org/x/net/html\<close>, that the model takes as
  parameters, gathered in one record; and the decoding rules of \<open>encoding/json\<close> on syntax trees.

  A parameter stands for a table or a parser that is not in the repository: the Unicode case tables,
  the JSON and HTML parsers, \<open>url.Parse\<close>, date and floating-point parsing, the HTML entity table,
  MIME sniffing. The definitions that use one take the record \<open>golib\<close> as their first argument.
\<close>

section \<open>JSON trees\<close>

text \<open>Members and elements carry their source text, which \<open>json.RawMessage\<close> keeps.\<close>

datatype json =
    JNull
  | JBool bool
  | JNumber string
  | JString string
  | JArray "(string \<times> json) list"
  | JObject "(string \<times> string \<times> json) list"

section \<open>HTML nodes and URLs\<close>

datatype node_type =
  ErrorNode | TextNode | DocumentNode | ElementNode | CommentNode | DoctypeNode | RawNode

datatype html_node =
  Node (ntype: node_type) (ndata: string) (nattr: "(string \<times> string) list")
    (nchildren: "html_node list")

record url =
  url_scheme :: string
  url_host :: string
  url_path :: string
  url_string :: string \<comment> \<open>\<open>URL.String()\<close>\<close>

section \<open>url.PathEscape\<close>

text \<open>Unreserved bytes, and the reserved ones a path segment may hold, stay; the rest is \<open>%XY\<close>.\<close>

definition path_safe :: "char \<Rightarrow> bool" where
  "path_safe c \<longleftrightarrow> is_digit c
     \<or> (65 \<le> (of_char c :: nat) \<and> (of_char c :: nat) \<le> 90)
     \<or> (97 \<le> (of_char c :: nat) \<and> (of_char c :: nat) \<le> 122)
     \<or> c \<in> set ''-_.~$&+:=@''"

definition hex_digit :: "nat \<Rightarrow> char" where
  "hex_digit d = (if d < 10 then char_of (48 + d) else char_of (55 + d))"

definition path_escape_char :: "char \<Rightarrow> string" where
  "path_escape_char c =
     (if path_safe c then [c]
      else [CHR ''%'', hex_digit (of_char c div 16), hex_digit (of_char c mod 16)])"

definition path_escape :: "string \<Rightarrow> string" where
  "path_escape s = concat (map path_escape_char s)"

lemma path_escape_simps [simp]:
  "path_escape [] = []"
  "path_escape (c # s) = path_escape_char c @ path_escape s"
  by (simp_all add: path_escape_def)

lemma hex_digit_code: "d < 16 \<Longrightarrow> of_char (hex_digit d) = (if d < 10 then 48 + d else 55 + d :: nat)"
  by (simp add: hex_digit_def)

lemma hex_digit_inj: "d < 16 \<Longrightarrow> e < 16 \<Longrightarrow> hex_digit d = hex_digit e \<Longrightarrow> d = e"
proof -
  assume d: "d < 16" and e: "e < 16" and eq: "hex_digit d = hex_digit e"
  have "(if d < 10 then 48 + d else 55 + d :: nat) = (if e < 10 then 48 + e else 55 + e)"
    using hex_digit_code [OF d] hex_digit_code [OF e] eq by metis
  with d e show "d = e" by (cases "d < 10"; cases "e < 10") simp_all
qed

lemma path_safe_hex_digit: "d < 16 \<Longrightarrow> path_safe (hex_digit d)"
  by (simp add: path_safe_def is_digit_def hex_digit_code)

lemma of_char_lt_256: "of_char (c :: char) < (256 :: nat)"
  using nat_of_char_less_256 [of c] by simp

text \<open>An escaped string is one path segment: no slash, no question mark, no fragment.\<close>

lemma path_escape_segment: "c \<in> set (path_escape s) \<Longrightarrow> path_safe c \<or> c = CHR ''%''"
proof (induction s)
  case (Cons x s)
  have "of_char x div 16 < (16 :: nat)" using of_char_lt_256 [of x] by linarith
  with Cons show ?case
    by (auto simp: path_escape_char_def path_safe_hex_digit split: if_splits)
qed simp

lemma path_escape_char_prefix:
  "path_escape_char c @ s = path_escape_char d @ t \<Longrightarrow> c = d \<and> s = t"
proof -
  assume a: "path_escape_char c @ s = path_escape_char d @ t"
  have n: "\<not> path_safe (CHR ''%'')" by (simp add: path_safe_def is_digit_def)
  show ?thesis
  proof (cases "path_safe c \<or> path_safe d")
    case True
    with a n show ?thesis by (auto simp: path_escape_char_def split: if_splits)
  next
    case False
    have "of_char c div 16 < (16 :: nat)" "of_char d div 16 < (16 :: nat)"
      using of_char_lt_256 [of c] of_char_lt_256 [of d] by linarith+
    with a False have "of_char c div 16 = (of_char d div 16 :: nat)"
      and "of_char c mod 16 = (of_char d mod 16 :: nat)" and "s = t"
      by (auto simp: path_escape_char_def intro: hex_digit_inj)
    then have "of_char c = (of_char d :: nat)" by (metis div_mult_mod_eq)
    with \<open>s = t\<close> show ?thesis by simp
  qed
qed

lemma path_escape_inj: "path_escape s = path_escape t \<longleftrightarrow> s = t"
proof
  show "path_escape s = path_escape t \<Longrightarrow> s = t"
  proof (induction s arbitrary: t)
    case Nil
    then show ?case by (cases t) (auto simp: path_escape_char_def split: if_splits)
  next
    case (Cons c s)
    show ?case
    proof (cases t)
      case Nil
      with Cons.prems show ?thesis by (auto simp: path_escape_char_def split: if_splits)
    next
      case (Cons d u)
      with Cons.prems Cons.IH [of u] show ?thesis by (auto dest: path_escape_char_prefix)
    qed
  qed
qed simp

section \<open>url.Values\<close>

text \<open>\<open>url.QueryEscape\<close>, and \<open>Values.Encode\<close> for one value per key: pairs in the order of the keys.\<close>

definition query_safe :: "char \<Rightarrow> bool" where
  "query_safe c \<longleftrightarrow> is_digit c
     \<or> (65 \<le> (of_char c :: nat) \<and> (of_char c :: nat) \<le> 90)
     \<or> (97 \<le> (of_char c :: nat) \<and> (of_char c :: nat) \<le> 122)
     \<or> c \<in> set ''-_.~''"

definition query_escape :: "string \<Rightarrow> string" where
  "query_escape s = concat (map (\<lambda>c. if query_safe c then [c] else if c = CHR '' '' then ''+''
     else [CHR ''%'', hex_digit (of_char c div 16), hex_digit (of_char c mod 16)]) s)"

fun insert_pair :: "string \<times> string \<Rightarrow> (string \<times> string) list \<Rightarrow> (string \<times> string) list" where
  "insert_pair p [] = [p]"
| "insert_pair p (q # qs) = (if str_compare (fst p) (fst q) \<le> 0 then p # q # qs else q # insert_pair p qs)"

definition encode_values :: "(string \<times> string) list \<Rightarrow> string" where
  "encode_values vs =
     join (map (\<lambda>(k, v). query_escape k @ ''='' @ query_escape v) (foldr insert_pair vs [])) ''&''"

section \<open>The parameters\<close>

record golib =
  lib_unicode :: unicode
  lib_json :: "string \<Rightarrow> json option" \<comment> \<open>\<open>encoding/json\<close>: text to tree, \<open>None\<close> on a syntax error\<close>
  lib_json_first :: "string \<Rightarrow> json option" \<comment> \<open>\<open>json.Decoder.Decode\<close>: the first value of a stream\<close>
  lib_html :: "string \<Rightarrow> html_node option" \<comment> \<open>\<open>nethtml.Parse\<close>\<close>
  lib_url :: "string \<Rightarrow> url option" \<comment> \<open>\<open>url.Parse\<close>\<close>
  lib_unescape :: "string \<Rightarrow> string" \<comment> \<open>\<open>html.UnescapeString\<close>\<close>
  lib_float_int :: "string \<Rightarrow> int option" \<comment> \<open>\<open>strconv.ParseFloat\<close>, then \<open>int64(\<dots>)\<close>\<close>
  lib_rfc3339 :: "string \<Rightarrow> instant option" \<comment> \<open>\<open>time.Parse\<close> with the RFC 3339 layouts\<close>
  lib_sniff :: "string \<Rightarrow> string" \<comment> \<open>\<open>http.DetectContentType\<close>\<close>
  lib_mime_ext :: "string \<Rightarrow> string" \<comment> \<open>\<open>mime.TypeByExtension\<close>\<close>
  lib_marshal :: "json \<Rightarrow> string" \<comment> \<open>\<open>json.Marshal\<close>, of strings, numbers and maps only\<close>

abbreviation lower :: "golib \<Rightarrow> string \<Rightarrow> string" where
  "lower L \<equiv> to_lower (lib_unicode L)"

abbreviation eq_fold :: "golib \<Rightarrow> string \<Rightarrow> string \<Rightarrow> bool" where
  "eq_fold L \<equiv> equal_fold (lib_unicode L)"

text \<open>The zero \<open>time.Time\<close>, and \<open>Time.UnixMilli\<close>.\<close>

definition zero_time :: instant where "zero_time = -62135596800000000000"

definition unix_milli :: "instant \<Rightarrow> int" where "unix_milli t = t div 1000000"

section \<open>Decoding: json.Unmarshal into Go types\<close>

text \<open>
  Into a \<open>string\<close>: \<open>null\<close> leaves the target as it is, anything but a string is an error. Into a
  struct: \<open>null\<close> leaves it as it is; a member goes to the field its key names, exactly or up to
  case folding; several members of one name are decoded in turn. Any error makes the whole call
  fail, and the callers then drop the target.
\<close>

fun decode_string :: "string \<Rightarrow> json \<Rightarrow> string option" where
  "decode_string old (JString s) = Some s"
| "decode_string old JNull = Some old"
| "decode_string old _ = None"

definition unmarshal_string :: "golib \<Rightarrow> string \<Rightarrow> string option" where
  "unmarshal_string L raw = Option.bind (lib_json L raw) (decode_string [])"

definition field_is :: "golib \<Rightarrow> string \<Rightarrow> string \<Rightarrow> bool" where
  "field_is L name key \<longleftrightarrow> key = name \<or> eq_fold L key name"

fun members :: "json \<Rightarrow> (string \<times> string \<times> json) list option" where
  "members (JObject ms) = Some ms"
| "members JNull = Some []"
| "members _ = None"

fun elements :: "json \<Rightarrow> (string \<times> json) list option" where
  "elements (JArray es) = Some es"
| "elements JNull = Some []"
| "elements _ = None"

text \<open>The value of a string field after all members have been decoded.\<close>

fun string_field :: "golib \<Rightarrow> string \<Rightarrow> string \<Rightarrow> (string \<times> string \<times> json) list \<Rightarrow> string option"
where
  "string_field L name old [] = Some old"
| "string_field L name old ((key, raw, v) # ms) =
     (if field_is L name key
      then Option.bind (decode_string old v) (\<lambda>s. string_field L name s ms)
      else string_field L name old ms)"

text \<open>A \<open>json.RawMessage\<close> field keeps the text of the last member, \<open>null\<close> included.\<close>

fun raw_field :: "golib \<Rightarrow> string \<Rightarrow> string \<Rightarrow> (string \<times> string \<times> json) list \<Rightarrow> string" where
  "raw_field L name old [] = old"
| "raw_field L name old ((key, raw, v) # ms) =
     raw_field L name (if field_is L name key then raw else old) ms"

text \<open>The tree of the last member with a name; \<open>JNull\<close> if there is none.\<close>

fun tree_field :: "golib \<Rightarrow> string \<Rightarrow> json \<Rightarrow> (string \<times> string \<times> json) list \<Rightarrow> json" where
  "tree_field L name old [] = old"
| "tree_field L name old ((key, raw, v) # ms) =
     tree_field L name (if field_is L name key \<and> v \<noteq> JNull then v else old) ms"

text \<open>Decode all elements of a list; one failure fails the whole.\<close>

fun decode_all :: "('a \<Rightarrow> 'b option) \<Rightarrow> 'a list \<Rightarrow> 'b list option" where
  "decode_all f [] = Some []"
| "decode_all f (x # xs) =
     Option.bind (f x) (\<lambda>y. map_option ((#) y) (decode_all f xs))"

lemma decode_all_Some: "decode_all f xs = Some ys \<longleftrightarrow> list_all2 (\<lambda>x y. f x = Some y) xs ys"
proof (induction xs arbitrary: ys)
  case Nil
  show ?case by auto
next
  case (Cons x xs)
  show ?case
    by (cases ys; cases "f x"; cases "decode_all f xs") (auto simp flip: Cons.IH)
qed

text \<open>
  Structs as HOL records: a table of fields, each with what a member does to the record. A nested
  struct keeps what earlier members left in it; a list is replaced, and \<open>null\<close> empties it.
\<close>

type_synonym 'r member = "string \<Rightarrow> json \<Rightarrow> 'r \<Rightarrow> 'r option" \<comment> \<open>source text, tree, record\<close>

fun struct_members ::
  "golib \<Rightarrow> (string \<times> 'r member) list \<Rightarrow> (string \<times> string \<times> json) list \<Rightarrow> 'r \<Rightarrow> 'r option"
where
  "struct_members L fs [] r = Some r"
| "struct_members L fs ((key, raw, v) # ms) r =
     (case find (\<lambda>(name, _). field_is L name key) fs of
        None \<Rightarrow> struct_members L fs ms r
      | Some (_, put) \<Rightarrow> Option.bind (put raw v r) (struct_members L fs ms))"

fun decode_struct :: "golib \<Rightarrow> (string \<times> 'r member) list \<Rightarrow> json \<Rightarrow> 'r \<Rightarrow> 'r option" where
  "decode_struct L fs (JObject ms) r = struct_members L fs ms r"
| "decode_struct L fs JNull r = Some r"
| "decode_struct L fs _ r = None"

fun put_string :: "((string \<Rightarrow> string) \<Rightarrow> 'r \<Rightarrow> 'r) \<Rightarrow> 'r member" where
  "put_string upd raw (JString s) r = Some (upd (\<lambda>_. s) r)"
| "put_string upd raw JNull r = Some r"
| "put_string upd raw _ r = None"

fun put_bool :: "((bool \<Rightarrow> bool) \<Rightarrow> 'r \<Rightarrow> 'r) \<Rightarrow> 'r member" where
  "put_bool upd raw (JBool b) r = Some (upd (\<lambda>_. b) r)"
| "put_bool upd raw JNull r = Some r"
| "put_bool upd raw _ r = None"

fun put_int64 :: "((int \<Rightarrow> int) \<Rightarrow> 'r \<Rightarrow> 'r) \<Rightarrow> 'r member" where
  "put_int64 upd raw (JNumber t) r = map_option (\<lambda>i. upd (\<lambda>_. i) r) (parse_int t)"
| "put_int64 upd raw JNull r = Some r"
| "put_int64 upd raw _ r = None"

definition put_raw :: "((string \<Rightarrow> string) \<Rightarrow> 'r \<Rightarrow> 'r) \<Rightarrow> 'r member" where
  "put_raw upd raw v r = Some (upd (\<lambda>_. raw) r)"

definition put_struct ::
  "golib \<Rightarrow> (string \<times> 'a member) list \<Rightarrow> ('r \<Rightarrow> 'a) \<Rightarrow> (('a \<Rightarrow> 'a) \<Rightarrow> 'r \<Rightarrow> 'r) \<Rightarrow> 'r member"
where
  "put_struct L fs get upd raw v r =
     map_option (\<lambda>x. upd (\<lambda>_. x) r) (decode_struct L fs v (get r))"

fun put_list ::
  "(json \<Rightarrow> 'a option) \<Rightarrow> (('a list \<Rightarrow> 'a list) \<Rightarrow> 'r \<Rightarrow> 'r) \<Rightarrow> 'r member" where
  "put_list dec upd raw (JArray es) r =
     map_option (\<lambda>xs. upd (\<lambda>_. xs) r) (decode_all dec (map snd es))"
| "put_list dec upd raw JNull r = Some (upd (\<lambda>_. []) r)"
| "put_list dec upd raw _ r = None"

text \<open>An instance for the examples, with the simplest answers.\<close>

definition plain_lib :: golib where
  "plain_lib = \<lparr>lib_unicode = \<lparr>uc_lower = (\<lambda>s. s), uc_fold = (=)\<rparr>, lib_json = (\<lambda>s. Some (JString s)),
     lib_json_first = (\<lambda>s. Some (JString s)),
     lib_html = (\<lambda>_. None), lib_url = (\<lambda>_. None), lib_unescape = (\<lambda>s. s),
     lib_float_int = (\<lambda>_. None), lib_rfc3339 = (\<lambda>_. None), lib_sniff = (\<lambda>_. []),
     lib_mime_ext = (\<lambda>_. []), lib_marshal = (\<lambda>_. ''{}'')\<rparr>"

end
