(* ===== verification/Http.thy ===== *)
theory Http
  imports Executor GoLib
begin

text \<open>
  What the clients of the bridge share when they build requests and read responses: building a
  request from a URL, JSON payloads, and the snippets of bodies that errors carry.
\<close>

text \<open>
  \<open>http.NewRequestWithContext\<close>: fails exactly when the URL does not parse. A body given as a
  byte reader can be read again.
\<close>

definition new_request ::
  "golib \<Rightarrow> string \<Rightarrow> string \<Rightarrow> string option \<Rightarrow> (string \<times> string) list \<Rightarrow> go_error + request"
where
  "new_request L meth endpoint body headers =
     (if lib_url L endpoint = None then Inl (ErrNew ''invalid request url'')
      else Inr \<lparr>req_method = meth, req_url = endpoint, req_headers = headers, req_body = body,
        req_get_body = map_option Inr body\<rparr>)"

text \<open>A map literal as a JSON object.\<close>

definition json_map :: "(string \<times> json) list \<Rightarrow> json" where
  "json_map kvs = JObject (map (\<lambda>(k, v). (k, [], v)) kvs)"

text \<open>An exchange without retries.\<close>

type_synonym exchange = "request \<Rightarrow> net_error + response"

text \<open>The trimmed text of an error body, cut to 400 bytes.\<close>

definition body_snippet :: "string \<Rightarrow> string" where
  "body_snippet body =
     (let snippet = trim_space body
      in if 400 < length snippet then take 400 snippet @ ''...(truncated)'' else snippet)"

lemma new_request_Inr:
  "new_request L meth endpoint body headers = Inr q \<longleftrightarrow> lib_url L endpoint \<noteq> None
     \<and> q = \<lparr>req_method = meth, req_url = endpoint, req_headers = headers, req_body = body,
            req_get_body = map_option Inr body\<rparr>"
  by (auto simp: new_request_def)

end
