(* ===== verification/MessageHtml.thy ===== *)
theory MessageHtml
  imports GoLib
begin

text \<open>
  \<open>internal/teams/model/message_html.go\<close> and \<open>gif.go\<close>: the two renderings of a Teams HTML body (the
  plain one and the sanitised one), the normalisation of plain text, and the search for GIFs. The
  parser is a parameter; its nodes are trees.
\<close>

section \<open>Tags and links\<close>

definition allowedFormattedTags :: "string list" where
  "allowedFormattedTags =
     [''a'', ''b'', ''blockquote'', ''br'', ''code'', ''em'', ''i'', ''li'', ''ol'', ''p'', ''pre'',
      ''s'', ''strong'', ''u'', ''ul'']"

definition blockTags :: "string list" where
  "blockTags =
     [''blockquote'', ''div'', ''h1'', ''h2'', ''h3'', ''h4'', ''h5'', ''h6'', ''li'', ''ol'', ''p'',
      ''pre'', ''section'', ''ul'']"

definition isUnsafeTag :: "string \<Rightarrow> bool" where
  "isUnsafeTag tag \<longleftrightarrow> tag \<in>
     {''script'', ''style'', ''iframe'', ''object'', ''embed'', ''meta'', ''link'', ''head''}"

definition sanitizeHref :: "golib \<Rightarrow> string \<Rightarrow> string option" where
  "sanitizeHref L value =
     (let value = trim_space value
      in if value = [] then None
         else case lib_url L value of
           None \<Rightarrow> None
         | Some parsed \<Rightarrow>
             if lower L (url_scheme parsed) \<in> {''http'', ''https'', ''mailto'', ''matrix''}
             then Some value else None)"

fun extractSafeHref :: "golib \<Rightarrow> (string \<times> string) list \<Rightarrow> string option" where
  "extractSafeHref L [] = None"
| "extractSafeHref L ((key, val) # attrs) =
     (if eq_fold L key ''href'' then sanitizeHref L val else extractSafeHref L attrs)"

section \<open>Plain rendering\<close>

text \<open>The string builder is the accumulator \<open>b\<close>.\<close>

definition newline :: char where "newline = CHR 0x0A"

definition appendPlainNewline :: "string \<Rightarrow> string" where
  "appendPlainNewline b =
     (if b = [] then b else if has_suffix b [newline] then b else b @ [newline])"

fun renderPlainNode :: "golib \<Rightarrow> string \<Rightarrow> html_node \<Rightarrow> string"
  and renderPlainNodes :: "golib \<Rightarrow> string \<Rightarrow> html_node list \<Rightarrow> string"
where
  "renderPlainNode L b (Node ty data attrs children) =
     (case ty of
        TextNode \<Rightarrow> b @ data
      | ElementNode \<Rightarrow>
          (let tag = lower L data
           in if isUnsafeTag tag then b
              else if tag = ''br'' then appendPlainNewline b
              else
                (let b = (if tag \<in> set blockTags then appendPlainNewline b else b);
                     b = renderPlainNodes L b children
                 in if tag \<in> set blockTags then appendPlainNewline b else b))
      | _ \<Rightarrow> renderPlainNodes L b children)"
| "renderPlainNodes L b [] = b"
| "renderPlainNodes L b (n # ns) = renderPlainNodes L (renderPlainNode L b n) ns"

section \<open>Formatted rendering\<close>

definition open_tag :: "golib \<Rightarrow> string \<Rightarrow> (string \<times> string) list \<Rightarrow> string" where
  "open_tag L tag attrs =
     ''<'' @ tag
     @ (if tag = ''a'' then
          (case extractSafeHref L attrs of
             Some href \<Rightarrow> '' href='' @ [CHR 0x22] @ escape_string href @ [CHR 0x22]
           | None \<Rightarrow> [])
        else [])
     @ ''>''"

fun renderFormattedNode :: "golib \<Rightarrow> string \<Rightarrow> html_node \<Rightarrow> string \<times> bool"
  and renderFormattedNodes :: "golib \<Rightarrow> string \<Rightarrow> bool \<Rightarrow> html_node list \<Rightarrow> string \<times> bool"
where
  "renderFormattedNode L b (Node ty data attrs children) =
     (case ty of
        TextNode \<Rightarrow> (b @ escape_string data, False)
      | ElementNode \<Rightarrow>
          (let tag = lower L data
           in if isUnsafeTag tag then (b, False)
              else if tag = ''br'' then (b @ ''<br>'', True)
              else if tag \<notin> set allowedFormattedTags then renderFormattedNodes L b False children
              else
                (let b = b @ open_tag L tag attrs;
                     b = fst (renderFormattedNodes L b False children)
                 in (b @ ''</'' @ tag @ ''>'', True)))
      | _ \<Rightarrow> renderFormattedNodes L b False children)"
| "renderFormattedNodes L b rendered [] = (b, rendered)"
| "renderFormattedNodes L b rendered (n # ns) =
     (case renderFormattedNode L b n of
        (b', r) \<Rightarrow> renderFormattedNodes L b' (rendered \<or> r) ns)"

section \<open>Normalisation\<close>

function collapseNewlines :: "string \<Rightarrow> string" where
  "collapseNewlines [] = []"
| "collapseNewlines (c # cs) =
     (if prefix [newline, newline, newline] (c # cs)
      then [newline, newline] @ collapseNewlines (dropWhile (\<lambda>x. x = newline) (c # cs))
      else c # collapseNewlines cs)"
  by pat_completeness auto
termination
  by (relation "measure length") (auto simp: prefix_def intro: le_imp_less_Suc le_trans [OF length_dropWhile_le])

definition normalizePlainText :: "string \<Rightarrow> string" where
  "normalizePlainText value =
     (let value = replace_all value [CHR 0x0D, CHR 0x0A] [newline];
          value = replace_all value [CHR 0x0D] [newline];
          value = collapseNewlines value
      in trim_space value)"

definition normalizeSanitizedHTML :: "string \<Rightarrow> string" where
  "normalizeSanitizedHTML value = (let value = trim_space value in if value = [] then [] else value)"

text \<open>
  The pattern \<open>(?i)<\s*/?\s*[a-z][^>]*>\<close>, decided from the left: \<open>\s\<close> is the ASCII class of RE2, and
  under \<open>(?i)\<close> the class \<open>[a-z]\<close> also holds U+017F and U+212A.
\<close>

definition re_space :: "char \<Rightarrow> bool" where
  "re_space c \<longleftrightarrow> c \<in> {CHR 0x09, CHR 0x0A, CHR 0x0C, CHR 0x0D, CHR 0x20}"

definition ascii_letter :: "char \<Rightarrow> bool" where
  "ascii_letter c \<longleftrightarrow>
     (let n = of_char (ascii_lower c) in (97 :: nat) \<le> n \<and> n \<le> 122)"

definition tag_name_at :: "string \<Rightarrow> bool" where
  "tag_name_at s \<longleftrightarrow>
     (case s of
        [] \<Rightarrow> False
      | c # cs \<Rightarrow>
          (ascii_letter c \<and> CHR ''>'' \<in> set cs)
          \<or> (prefix [CHR 0xC5, CHR 0xBF] s \<and> CHR ''>'' \<in> set (drop 2 s))
          \<or> (prefix [CHR 0xE2, CHR 0x84, CHR 0xAA] s \<and> CHR ''>'' \<in> set (drop 3 s)))"

definition tag_at :: "string \<Rightarrow> bool" where
  "tag_at s \<longleftrightarrow>
     (let s = dropWhile re_space s;
          s = (if has_prefix s ''/'' then tl s else s)
      in tag_name_at (dropWhile re_space s))"

fun looksLikeHTML :: "string \<Rightarrow> bool" where
  "looksLikeHTML [] = False"
| "looksLikeHTML (c # cs) = ((c = CHR ''<'' \<and> tag_at cs) \<or> looksLikeHTML cs)"

section \<open>Message bodies\<close>

record TeamsGIF =
  gif_Title :: string
  gif_URL :: string

record MessageContent =
  mc_Body :: string
  mc_FormattedBody :: string
  mc_GIFs :: "TeamsGIF list"

definition no_content :: MessageContent where
  "no_content = \<lparr>mc_Body = [], mc_FormattedBody = [], mc_GIFs = []\<rparr>"

fun findWrapperDiv :: "golib \<Rightarrow> html_node \<Rightarrow> html_node option"
  and findWrapperDivs :: "golib \<Rightarrow> html_node list \<Rightarrow> html_node option"
where
  "findWrapperDiv L (Node ty data attrs children) =
     (if ty = ElementNode \<and> eq_fold L data ''div'' then Some (Node ty data attrs children)
      else findWrapperDivs L children)"
| "findWrapperDivs L [] = None"
| "findWrapperDivs L (n # ns) =
     (case findWrapperDiv L n of Some found \<Rightarrow> Some found | None \<Rightarrow> findWrapperDivs L ns)"

definition normalizeHTMLFragment :: "golib \<Rightarrow> string \<Rightarrow> (string \<times> string) option" where
  "normalizeHTMLFragment L value =
     (case lib_html L (''<div>'' @ value @ ''</div>'') of
        None \<Rightarrow> None
      | Some doc \<Rightarrow>
        (case findWrapperDiv L doc of
           None \<Rightarrow> None
         | Some wrapper \<Rightarrow>
           (let nodes = nchildren wrapper
            in if nodes = [] then Some ([], [])
               else
                 (let plain = normalizePlainText (renderPlainNodes L [] nodes);
                      (html, renderedTag) = renderFormattedNodes L [] False nodes;
                      sanitized = normalizeSanitizedHTML html
                  in Some (plain, if renderedTag then sanitized else [])))))"

definition NormalizeMessageBody :: "golib \<Rightarrow> string \<Rightarrow> MessageContent" where
  "NormalizeMessageBody L raw =
     (let normalized = normalizePlainText (lib_unescape L raw)
      in if normalized = [] then no_content
         else if \<not> looksLikeHTML raw then no_content\<lparr>mc_Body := normalized\<rparr>
         else case normalizeHTMLFragment L raw of
           None \<Rightarrow> no_content\<lparr>mc_Body := normalized\<rparr>
         | Some (body, formatted) \<Rightarrow>
             if body = [] then no_content
             else if formatted = [] then no_content\<lparr>mc_Body := body\<rparr>
             else no_content\<lparr>mc_Body := body, mc_FormattedBody := formatted\<rparr>)"

section \<open>GIFs\<close>

fun firstNonEmpty :: "string list \<Rightarrow> string" where
  "firstNonEmpty [] = []"
| "firstNonEmpty (v # vs) = (if trim_space v \<noteq> [] then trim_space v else firstNonEmpty vs)"

fun getAttr :: "golib \<Rightarrow> (string \<times> string) list \<Rightarrow> string \<Rightarrow> string" where
  "getAttr L [] key = []"
| "getAttr L ((k, v) # attrs) key = (if eq_fold L k key then v else getAttr L attrs key)"

definition isSafeHTTPURL :: "golib \<Rightarrow> string \<Rightarrow> bool" where
  "isSafeHTTPURL L value \<longleftrightarrow>
     (case lib_url L (trim_space value) of
        None \<Rightarrow> False
      | Some parsed \<Rightarrow> lower L (url_scheme parsed) \<in> {''http'', ''https''})"

definition hasGiphyItemType :: "golib \<Rightarrow> (string \<times> string) list \<Rightarrow> bool" where
  "hasGiphyItemType L attrs =
     contains (lower L (trim_space (getAttr L attrs ''itemtype''))) ''schema.skype.com/giphy''"

text \<open>The state: the GIFs found so far, and the URLs seen.\<close>

type_synonym gif_state = "TeamsGIF list \<times> string set"

definition appendSingleGIF ::
  "golib \<Rightarrow> (string \<times> string) list \<Rightarrow> string \<Rightarrow> gif_state \<Rightarrow> gif_state" where
  "appendSingleGIF L attrs fallbackTitle st =
     (case st of (gifs, seenURLs) \<Rightarrow>
        (let src = trim_space (getAttr L attrs ''src'')
         in if \<not> isSafeHTTPURL L src then (gifs, seenURLs)
            else if src \<in> seenURLs then (gifs, seenURLs)
            else
              (let title = firstNonEmpty
                     [trim_space (getAttr L attrs ''alt''), trim_space fallbackTitle, ''GIF'']
               in (gifs @ [\<lparr>gif_Title = title, gif_URL = src\<rparr>], insert src seenURLs))))"

fun appendGIFsFromImages :: "golib \<Rightarrow> string \<Rightarrow> html_node list \<Rightarrow> gif_state \<Rightarrow> gif_state" where
  "appendGIFsFromImages L fallbackTitle [] st = st"
| "appendGIFsFromImages L fallbackTitle (Node ty data attrs children # siblings) st =
     (let st = (if ty = ElementNode \<and> eq_fold L data ''img''
                then appendSingleGIF L attrs fallbackTitle st else st);
          st = appendGIFsFromImages L fallbackTitle children st
      in appendGIFsFromImages L fallbackTitle siblings st)"

text \<open>What \<open>collectGIFs\<close> does at a node before it descends.\<close>

definition collectHere ::
  "golib \<Rightarrow> node_type \<Rightarrow> string \<Rightarrow> (string \<times> string) list \<Rightarrow> html_node list \<Rightarrow> gif_state \<Rightarrow> gif_state"
where
  "collectHere L ty data attrs children st =
     (if ty = ElementNode then
        (let tag = lower L data
         in if tag = ''readonly'' then
              (if hasGiphyItemType L attrs
               then appendGIFsFromImages L
                      (firstNonEmpty [getAttr L attrs ''title'', getAttr L attrs ''aria-label''])
                      children st
               else st)
            else if tag = ''img'' then
              (if hasGiphyItemType L attrs then appendSingleGIF L attrs [] st else st)
            else st)
      else st)"

fun collectGIFs :: "golib \<Rightarrow> html_node \<Rightarrow> gif_state \<Rightarrow> gif_state"
  and collectGIFsList :: "golib \<Rightarrow> html_node list \<Rightarrow> gif_state \<Rightarrow> gif_state"
where
  "collectGIFs L (Node ty data attrs children) st =
     collectGIFsList L children (collectHere L ty data attrs children st)"
| "collectGIFsList L [] st = st"
| "collectGIFsList L (n # ns) st = collectGIFsList L ns (collectGIFs L n st)"

definition ParseGIFsFromHTML :: "golib \<Rightarrow> string \<Rightarrow> TeamsGIF list option" where
  "ParseGIFsFromHTML L raw =
     (if \<not> looksLikeHTML raw then None
      else case lib_html L (''<div>'' @ raw @ ''</div>'') of
        None \<Rightarrow> None
      | Some doc \<Rightarrow>
        (let gifs = fst (collectGIFs L doc ([], {}))
         in if gifs = [] then None else Some gifs))"

section \<open>What the formatted rendering may contain\<close>

text \<open>
  The specification of the sanitiser: a tree of text, line breaks and allowed tags, the only
  attribute being a link target on an anchor; and how such a tree is written out.
\<close>

datatype safe = SText string | SBreak | STag string "string option" "safe list"

fun serialize :: "safe \<Rightarrow> string" where
  "serialize (SText t) = escape_string t"
| "serialize SBreak = ''<br>''"
| "serialize (STag tag href ts) =
     ''<'' @ tag
     @ (case href of
          Some h \<Rightarrow> '' href='' @ [CHR 0x22] @ escape_string h @ [CHR 0x22]
        | None \<Rightarrow> [])
     @ ''>'' @ concat (map serialize ts) @ ''</'' @ tag @ ''>''"

definition safe_href :: "golib \<Rightarrow> string \<Rightarrow> bool" where
  "safe_href L h \<longleftrightarrow> trimmed h \<and> (\<exists>u. lib_url L h = Some u
     \<and> lower L (url_scheme u) \<in> {''http'', ''https'', ''mailto'', ''matrix''})"

fun safe_ok :: "golib \<Rightarrow> safe \<Rightarrow> bool" where
  "safe_ok L (SText t) = True"
| "safe_ok L SBreak = True"
| "safe_ok L (STag tag href ts) =
     (tag \<in> set allowedFormattedTags
      \<and> (case href of None \<Rightarrow> True | Some h \<Rightarrow> tag = ''a'' \<and> safe_href L h)
      \<and> list_all (safe_ok L) ts)"

fun is_markup :: "safe \<Rightarrow> bool" where
  "is_markup (SText t) = False"
| "is_markup _ = True"

fun sanitize :: "golib \<Rightarrow> html_node \<Rightarrow> safe list"
  and sanitizes :: "golib \<Rightarrow> html_node list \<Rightarrow> safe list"
where
  "sanitize L (Node ty data attrs children) =
     (case ty of
        TextNode \<Rightarrow> [SText data]
      | ElementNode \<Rightarrow>
          (let tag = lower L data
           in if isUnsafeTag tag then []
              else if tag = ''br'' then [SBreak]
              else if tag \<notin> set allowedFormattedTags then sanitizes L children
              else [STag tag (if tag = ''a'' then extractSafeHref L attrs else None)
                      (sanitizes L children)])
      | _ \<Rightarrow> sanitizes L children)"
| "sanitizes L [] = []"
| "sanitizes L (n # ns) = sanitize L n @ sanitizes L ns"

lemma render_sanitize:
  "renderFormattedNode L b n
     = (b @ concat (map serialize (sanitize L n)), list_ex is_markup (sanitize L n))"
  "renderFormattedNodes L b r ns
     = (b @ concat (map serialize (sanitizes L ns)), r \<or> list_ex is_markup (sanitizes L ns))"
  by (induction L b n and L b r ns rule: renderFormattedNode_renderFormattedNodes.induct)
    (auto simp: Let_def open_tag_def split: node_type.split option.split)

lemma sanitizeHref_safe: "sanitizeHref L v = Some h \<Longrightarrow> safe_href L h"
  by (auto simp: sanitizeHref_def safe_href_def Let_def split: if_splits option.splits)

lemma extractSafeHref_safe: "extractSafeHref L attrs = Some h \<Longrightarrow> safe_href L h"
  by (induction L attrs rule: extractSafeHref.induct)
    (auto simp: sanitizeHref_safe split: if_splits)

lemma sanitize_ok:
  "list_all (safe_ok L) (sanitize L n)"
  "list_all (safe_ok L) (sanitizes L ns)"
  by (induction L n and L ns rule: sanitize_sanitizes.induct)
    (auto simp: Let_def extractSafeHref_safe split: node_type.split option.split)

text \<open>Every \<open><\<close> in a string is followed by one of the given strings.\<close>

fun opens_only :: "string set \<Rightarrow> string \<Rightarrow> bool" where
  "opens_only W [] = True"
| "opens_only W (c # cs) =
     ((c \<noteq> CHR ''<'' \<or> (\<exists>w \<in> W. prefix w cs)) \<and> opens_only W cs)"

definition tag_openers :: "string set" where
  "tag_openers = (\<lambda>t. t @ ''>'') ` set allowedFormattedTags
     \<union> (\<lambda>t. ''/'' @ t @ ''>'') ` set allowedFormattedTags \<union> {''a href='' @ [CHR 0x22]}"

lemma opens_only_append: "opens_only W s \<Longrightarrow> opens_only W t \<Longrightarrow> opens_only W (s @ t)"
  by (induction s) (auto intro: prefix_prefix)

lemma opens_only_no_lt: "CHR ''<'' \<notin> set s \<Longrightarrow> opens_only W s"
  by (induction s) auto

lemma opens_only_lt: "w \<in> W \<Longrightarrow> prefix w s \<Longrightarrow> opens_only W s \<Longrightarrow> opens_only W (CHR ''<'' # s)"
  by auto

lemma opens_only_concat: "list_all (opens_only W) ss \<Longrightarrow> opens_only W (concat ss)"
  by (induction ss) (auto intro: opens_only_append)

lemma allowed_no_lt: "tag \<in> set allowedFormattedTags \<Longrightarrow> CHR ''<'' \<notin> set tag"
  by (auto simp: allowedFormattedTags_def)

lemma escape_no_lt: "CHR ''<'' \<notin> set (escape_string s)"
  using escape_string_safe by blast

lemma opens_only_serialize: "safe_ok L t \<Longrightarrow> opens_only tag_openers (serialize t)"
proof (induction t)
  case (SText t)
  show ?case by (simp add: opens_only_no_lt escape_no_lt)
next
  case SBreak
  have "''br>'' \<in> tag_openers" by (auto simp: tag_openers_def allowedFormattedTags_def)
  then show ?case by auto
next
  case (STag tag href ts)
  from STag.prems have tag: "tag \<in> set allowedFormattedTags" by simp
  note no_lt = allowed_no_lt [OF tag]
  have inner: "opens_only tag_openers (concat (map serialize ts))"
    using STag by (intro opens_only_concat) (auto simp: list_all_iff)
  have "''/'' @ tag @ ''>'' \<in> tag_openers" using tag by (simp add: tag_openers_def)
  then have closing: "opens_only tag_openers (''</'' @ tag @ ''>'')"
    using no_lt by (auto intro!: opens_only_lt [of "''/'' @ tag @ ''>''"] opens_only_no_lt)
  have start: "opens_only tag_openers (''<'' @ tag @
      (case href of Some h \<Rightarrow> '' href='' @ [CHR 0x22] @ escape_string h @ [CHR 0x22] | None \<Rightarrow> [])
      @ ''>'')"
  proof (cases href)
    case None
    have "tag @ ''>'' \<in> tag_openers" using tag by (simp add: tag_openers_def)
    then show ?thesis
      using None no_lt by (auto intro!: opens_only_lt [of "tag @ ''>''"] opens_only_no_lt)
  next
    case (Some h)
    with STag.prems have "tag = ''a''" by simp
    moreover have "''a href='' @ [CHR 0x22] \<in> tag_openers" by (simp add: tag_openers_def)
    moreover have "CHR ''<'' \<notin> set (''a href='' @ [CHR 0x22] @ escape_string h @ [CHR 0x22] @ ''>'')"
      using escape_no_lt [of h] by auto
    ultimately show ?thesis
      using Some opens_only_lt [of "''a href='' @ [CHR 0x22]" tag_openers
          "''a href='' @ [CHR 0x22] @ escape_string h @ [CHR 0x22] @ ''>''"]
      by (simp only: append.simps option.case opens_only_no_lt) (simp add: opens_only_no_lt)
  qed
  show ?case
    using opens_only_append [OF opens_only_append [OF start inner] closing] by simp
qed

section \<open>Unsafe subtrees\<close>

text \<open>A forest without its unsafe elements.\<close>

fun prune :: "golib \<Rightarrow> html_node list \<Rightarrow> html_node list" where
  "prune L [] = []"
| "prune L (Node ty data attrs children # ns) =
     (if ty = ElementNode \<and> isUnsafeTag (lower L data) then prune L ns
      else Node ty data attrs (prune L children) # prune L ns)"

lemma render_prune_plain: "renderPlainNodes L b (prune L ns) = renderPlainNodes L b ns"
  by (induction L ns arbitrary: b rule: prune.induct)
    (auto simp: Let_def split: node_type.split)

lemma sanitizes_prune: "sanitizes L (prune L ns) = sanitizes L ns"
  by (induction L ns rule: prune.induct) (auto simp: Let_def split: node_type.split)

section \<open>Normal forms of plain text\<close>

abbreviation triple :: string where "triple \<equiv> [newline, newline, newline]"

lemma collapse_eq_Nil [simp]: "collapseNewlines s = [] \<longleftrightarrow> s = []"
  by (cases s) auto

lemma hd_collapse: "s \<noteq> [] \<Longrightarrow> hd (collapseNewlines s) = hd s"
  by (cases s) (auto simp: prefix_def)

lemma collapse_two:
  "prefix [newline, newline] (collapseNewlines s) \<Longrightarrow> prefix [newline, newline] s"
proof (cases "prefix triple s")
  case True
  then show ?thesis by (auto simp: prefix_def)
next
  case False
  assume "prefix [newline, newline] (collapseNewlines s)"
  with False show ?thesis
  proof (cases s)
    case (Cons c cs)
    with False \<open>prefix _ (collapseNewlines s)\<close>
    have "c = newline" and "prefix [newline] (collapseNewlines cs)" by auto
    then show ?thesis
      using Cons hd_collapse [of cs] by (cases cs; cases "collapseNewlines cs") auto
  qed simp
qed

lemma collapse_no_triple: "\<not> contains (collapseNewlines s) triple"
proof (induction s rule: collapseNewlines.induct)
  case (2 c cs)
  show ?case
  proof (cases "prefix triple (c # cs)")
    case True
    let ?rest = "dropWhile (\<lambda>x. x = newline) (c # cs)"
    have "\<not> prefix [newline] (collapseNewlines ?rest)"
    proof
      assume p: "prefix [newline] (collapseNewlines ?rest)"
      then have ne: "?rest \<noteq> []" by (metis collapseNewlines.simps(1) not_Cons_self2 prefix_Nil)
      have "hd (collapseNewlines ?rest) = newline"
        using p by (cases "collapseNewlines ?rest") simp_all
      with hd_collapse [OF ne] hd_dropWhile [OF ne] show False by metis
    qed
    with 2 True show ?thesis by (auto simp: prefix_def)
  next
    case False
    with 2 have "\<not> contains (collapseNewlines cs) triple" by simp
    moreover have "\<not> prefix triple (c # collapseNewlines cs)"
      using False collapse_two [of cs] by auto
    moreover have "collapseNewlines (c # cs) = c # collapseNewlines cs"
      using False by (simp only: collapseNewlines.simps if_False)
    ultimately show ?thesis by (simp only: contains.simps) simp
  qed
qed simp

lemma collapse_id: "\<not> contains s triple \<Longrightarrow> collapseNewlines s = s"
  by (induction s) auto

definition plain_normal :: "string \<Rightarrow> bool" where
  "plain_normal s \<longleftrightarrow> CHR 0x0D \<notin> set s \<and> \<not> contains s triple \<and> trimmed s"

lemma plain_normal_fixed: "plain_normal s \<Longrightarrow> normalizePlainText s = s"
  by (simp add: normalizePlainText_def Let_def plain_normal_def replace_all_absent collapse_id
      trim_space_trimmed)

lemma set_collapse: "set (collapseNewlines s) \<subseteq> set s \<union> {newline}"
proof (induction s rule: collapseNewlines.induct)
  case (2 c cs)
  then show ?case
    using set_dropWhileD [of _ "\<lambda>x. x = newline" cs] by auto
qed simp

lemma plain_normal_normalize: "plain_normal (normalizePlainText v)"
proof -
  define w where "w = replace_all (replace_all v [CHR 0x0D, CHR 0x0A] [newline]) [CHR 0x0D] [newline]"
  have eq: "normalizePlainText v = trim_space (collapseNewlines w)"
    by (simp add: normalizePlainText_def w_def Let_def)
  have "CHR 0x0D \<notin> set w"
    by (auto simp: w_def replace_all_byte newline_def)
  then have "CHR 0x0D \<notin> set (collapseNewlines w)"
    using set_collapse [of w] by (auto simp: newline_def)
  then have "CHR 0x0D \<notin> set (trim_space (collapseNewlines w))"
    using set_trim_space by blast
  moreover have "\<not> contains (trim_space (collapseNewlines w)) triple"
    using collapse_no_triple [of w] trim_space_sublist [of "collapseNewlines w"]
    by (auto simp: contains_iff_sublist intro: sublist_order.order.trans)
  ultimately show ?thesis by (simp add: plain_normal_def eq)
qed

section \<open>The GIF list\<close>

definition gif_inv :: "golib \<Rightarrow> gif_state \<Rightarrow> bool" where
  "gif_inv L st \<longleftrightarrow>
     snd st = gif_URL ` set (fst st) \<and> distinct (map gif_URL (fst st))
     \<and> list_all (\<lambda>g. isSafeHTTPURL L (gif_URL g) \<and> trimmed (gif_URL g) \<and> gif_Title g \<noteq> [])
         (fst st)"

lemma firstNonEmpty_default: "trim_space d \<noteq> [] \<Longrightarrow> d \<in> set vs \<Longrightarrow> firstNonEmpty vs \<noteq> []"
  by (induction vs) auto

lemma trim_GIF [simp]: "trim_space ''GIF'' = ''GIF''"
  by (rule trim_space_trimmed, rule trimmed_solid_ends)
    (simp_all add: solid_def space_runes_def)

lemma gif_inv_single: "gif_inv L st \<Longrightarrow> gif_inv L (appendSingleGIF L attrs title st)"
proof -
  assume inv: "gif_inv L st"
  have "firstNonEmpty [a, b, ''GIF''] \<noteq> []" for a b
    by (rule firstNonEmpty_default [of "''GIF''"]) simp_all
  with inv show ?thesis
    by (cases st) (auto simp: gif_inv_def appendSingleGIF_def Let_def)
qed

lemma gif_inv_images: "gif_inv L st \<Longrightarrow> gif_inv L (appendGIFsFromImages L title ns st)"
  by (induction L title ns st rule: appendGIFsFromImages.induct)
    (simp_all add: Let_def gif_inv_single)

lemma gif_inv_here: "gif_inv L st \<Longrightarrow> gif_inv L (collectHere L ty data attrs children st)"
  by (simp add: collectHere_def Let_def gif_inv_single gif_inv_images)

lemma gif_inv_collect:
  "gif_inv L st \<Longrightarrow> gif_inv L (collectGIFs L n st)"
  "gif_inv L st \<Longrightarrow> gif_inv L (collectGIFsList L ns st)"
  by (induction L n st and L ns st rule: collectGIFs_collectGIFsList.induct)
    (simp_all add: gif_inv_here)

section \<open>Properties\<close>

text \<open>
  C32: the formatted body is a sanitised document. The renderer writes out exactly the tree the
  sanitiser specifies: escaped text, line breaks and allowed tags, with no attribute but the
  \<open>href\<close> of an anchor, whose scheme is http, https, mailto or matrix; and its flag says whether
  that tree holds any markup.
\<close>

theorem formatted_is_sanitized:
  "renderFormattedNodes L [] False ns
     = (concat (map serialize (sanitizes L ns)), list_ex is_markup (sanitizes L ns))
   \<and> list_all (safe_ok L) (sanitizes L ns)"
  using render_sanitize(2) [of L "[]" False ns] sanitize_ok(2) [of L ns] by simp

text \<open>
  No foreign markup gets through. In the formatted output every \<open><\<close> starts one of the allowed
  tags, its closing tag, or an anchor with a link, whatever the input document contains.
\<close>

theorem formatted_markup_allowed:
  "opens_only tag_openers (fst (renderFormattedNodes L [] False ns))"
  using render_sanitize(2) [of L "[]" False ns] sanitize_ok(2) [of L ns]
  by (auto simp: list_all_iff intro!: opens_only_concat opens_only_serialize)

text \<open>
  Scripts, styles, frames and the other unsafe elements contribute nothing. Removing them from
  the parsed document, at any depth, changes neither the plain nor the formatted rendering.
\<close>

theorem unsafe_elements_ignored:
  "renderPlainNodes L [] (prune L ns) = renderPlainNodes L [] ns
   \<and> renderFormattedNodes L [] False (prune L ns) = renderFormattedNodes L [] False ns"
  by (simp add: render_prune_plain render_sanitize sanitizes_prune)

text \<open>
  Plain text is brought to a normal form: no carriage return, no three newlines in a row, no
  white space at either end; and normalising again changes nothing. Every message body the bridge
  extracts is in this form.
\<close>

theorem message_body_normal:
  "plain_normal (normalizePlainText v)
   \<and> normalizePlainText (normalizePlainText v) = normalizePlainText v
   \<and> plain_normal (mc_Body (NormalizeMessageBody L raw))"
proof -
  have "plain_normal []" by (simp add: plain_normal_def)
  then show ?thesis
    using plain_normal_normalize plain_normal_fixed
    by (auto simp: NormalizeMessageBody_def normalizeHTMLFragment_def no_content_def Let_def
        split: option.split prod.splits if_splits)
qed

text \<open>
  The GIFs of a message have pairwise distinct URLs, each of them an http or https URL without
  surrounding space, and each has a title.
\<close>

theorem gifs_wellformed:
  assumes "ParseGIFsFromHTML L raw = Some gifs"
  shows "gifs \<noteq> [] \<and> distinct (map gif_URL gifs)
    \<and> list_all (\<lambda>g. isSafeHTTPURL L (gif_URL g) \<and> trimmed (gif_URL g) \<and> gif_Title g \<noteq> []) gifs"
proof -
  from assms obtain doc where "gifs = fst (collectGIFs L doc ([], {}))" "gifs \<noteq> []"
    by (auto simp: ParseGIFsFromHTML_def Let_def split: if_splits option.splits)
  moreover have "gif_inv L (collectGIFs L doc ([], {}))"
    by (rule gif_inv_collect) (simp add: gif_inv_def)
  ultimately show ?thesis by (simp add: gif_inv_def)
qed

text \<open>A document with one GIF shown twice, and a library that parses it.\<close>

definition gif_doc :: html_node where
  "gif_doc =
     Node DocumentNode [] []
       [Node ElementNode ''img''
          [(''itemtype'', ''http://schema.skype.com/Giphy''), (''src'', ''u'')] [],
        Node ElementNode ''img''
          [(''itemtype'', ''http://schema.skype.com/Giphy''), (''src'', ''u'')] []]"

definition gif_lib :: golib where
  "gif_lib = plain_lib\<lparr>lib_html := (\<lambda>_. Some gif_doc),
     lib_url := (\<lambda>s. Some \<lparr>url_scheme = ''https'', url_host = [], url_path = [], url_string = s\<rparr>)\<rparr>"

theorem gifs_wellformed_witness:
  "isSafeHTTPURL gif_lib ''u'' \<and> trimmed ''u''"
proof -
  have "ParseGIFsFromHTML gif_lib ''<img>'' = Some [\<lparr>gif_Title = ''GIF'', gif_URL = ''u''\<rparr>]"
    by code_simp
  from gifs_wellformed [OF this] show ?thesis by simp
qed

end
