(* ===== verification/Message.thy ===== *)
theory Message
  imports MessageHtml
begin

text \<open>
  \<open>internal/teams/model/message.go\<close>, \<open>attachment.go\<close> and \<open>consumption_horizon.go\<close>, with
  \<open>ConsumptionHorizonNow\<close> of \<open>client/receipts.go\<close>: what the bridge reads out of a Teams message
  (body, sender, reactions, files), how sequence IDs are compared, and read positions.
\<close>

section \<open>Data\<close>

record MessageReactionUser =
  ru_MRI :: string
  ru_TimeMS :: int

record MessageReaction =
  mr_EmotionKey :: string
  mr_Users :: "MessageReactionUser list"

record RemoteMessage =
  rm_MessageID :: string
  rm_ClientMessageID :: string
  rm_SequenceID :: string
  rm_SenderID :: string
  rm_SenderName :: string
  rm_IMDisplayName :: string
  rm_TokenDisplayName :: string
  rm_Timestamp :: instant
  rm_Body :: string
  rm_FormattedBody :: string
  rm_GIFs :: "TeamsGIF list"
  rm_PropertiesFiles :: string
  rm_Reactions :: "MessageReaction list"

record TeamsAttachment =
  ta_Filename :: string
  ta_DriveItemID :: string
  ta_ShareURL :: string
  ta_DownloadURL :: string
  ta_FileType :: string

section \<open>Content and sender\<close>

definition content_of :: "golib \<Rightarrow> string \<Rightarrow> MessageContent" where
  "content_of L plain =
     (let normalized = NormalizeMessageBody L plain
      in case ParseGIFsFromHTML L plain of
           Some gifs \<Rightarrow> normalized\<lparr>mc_GIFs := gifs\<rparr>
         | None \<Rightarrow> normalized)"

definition ExtractContent :: "golib \<Rightarrow> string \<Rightarrow> MessageContent" where
  "ExtractContent L content =
     (if content = [] then no_content
      else case unmarshal_string L content of
        Some plain \<Rightarrow> content_of L plain
      | None \<Rightarrow>
        (case Option.bind (Option.bind (lib_json L content) members) (string_field L ''text'' []) of
           Some txt \<Rightarrow> content_of L txt
         | None \<Rightarrow> no_content))"

definition ExtractBody :: "golib \<Rightarrow> string \<Rightarrow> string" where
  "ExtractBody L content = mc_Body (ExtractContent L content)"

text \<open>\<open>strings.LastIndex(s, "/")\<close>.\<close>

definition last_index_byte :: "string \<Rightarrow> char \<Rightarrow> nat option" where
  "last_index_byte s c = map_option (\<lambda>i. length s - Suc i) (index_byte (rev s) c)"

definition extractSenderIDValue :: "string \<Rightarrow> string" where
  "extractSenderIDValue value =
     (let value = trim_space value
      in if value = [] then []
         else case last_index_byte value (CHR ''/'') of
           Some idx \<Rightarrow> if idx + 1 < length value then drop (idx + 1) value else value
         | None \<Rightarrow> value)"

definition ExtractSenderID :: "golib \<Rightarrow> string \<Rightarrow> string" where
  "ExtractSenderID L raw =
     (if raw = [] then []
      else case unmarshal_string L raw of
        Some plain \<Rightarrow> extractSenderIDValue plain
      | None \<Rightarrow>
        (case Option.bind (Option.bind (lib_json L raw) members) (string_field L ''id'' []) of
           Some v \<Rightarrow> extractSenderIDValue v
         | None \<Rightarrow> []))"

definition ExtractSenderName :: "golib \<Rightarrow> string \<Rightarrow> string" where
  "ExtractSenderName L raw =
     (if raw = [] then []
      else case unmarshal_string L raw of
        Some plain \<Rightarrow> []
      | None \<Rightarrow>
        (case Option.bind (lib_json L raw) members of
           None \<Rightarrow> []
         | Some ms \<Rightarrow>
           (case (string_field L ''displayName'' [] ms, string_field L ''name'' [] ms) of
              (Some displayName, Some name) \<Rightarrow> if displayName \<noteq> [] then displayName else name
            | _ \<Rightarrow> [])))"

definition NormalizeTeamsUserID :: "string \<Rightarrow> string" where
  "NormalizeTeamsUserID value = trim_space value"

section \<open>Reactions\<close>

definition parseReactionTime :: "golib \<Rightarrow> string \<Rightarrow> int" where
  "parseReactionTime L raw =
     (if raw = [] then 0
      else case unmarshal_string L raw of
        Some str \<Rightarrow>
          (let str = trim_space str
           in if str = [] then 0
              else case parse_int str of
                Some val \<Rightarrow> val
              | None \<Rightarrow> (case lib_float_int L str of Some val \<Rightarrow> val | None \<Rightarrow> 0))
      | None \<Rightarrow>
        (case lib_json L raw of
           Some (JNumber t) \<Rightarrow> (case lib_float_int L t of Some val \<Rightarrow> val | None \<Rightarrow> 0)
         | _ \<Rightarrow> 0))"

text \<open>
  The payload of the \<open>properties\<close> member: emotions with their users (an MRI and the source text of
  the time). Of several members of one name the last one counts.
\<close>

definition decode_user :: "golib \<Rightarrow> json \<Rightarrow> (string \<times> string) option" where
  "decode_user L v =
     Option.bind (members v) (\<lambda>ms.
       map_option (\<lambda>mri. (mri, raw_field L ''time'' [] ms)) (string_field L ''mri'' [] ms))"

definition decode_emotion :: "golib \<Rightarrow> json \<Rightarrow> (string \<times> (string \<times> string) list) option" where
  "decode_emotion L v =
     Option.bind (members v) (\<lambda>ms.
       Option.bind (string_field L ''key'' [] ms) (\<lambda>key.
         Option.bind (elements (tree_field L ''users'' JNull ms)) (\<lambda>us.
           map_option (Pair key) (decode_all (decode_user L) (map snd us)))))"

definition decode_emotions :: "golib \<Rightarrow> json \<Rightarrow> (string \<times> (string \<times> string) list) list option" where
  "decode_emotions L v =
     Option.bind (members v) (\<lambda>ms.
       Option.bind (elements (tree_field L ''emotions'' JNull ms)) (\<lambda>es.
         decode_all (decode_emotion L) (map snd es)))"

definition reaction_users :: "golib \<Rightarrow> (string \<times> string) list \<Rightarrow> MessageReactionUser list" where
  "reaction_users L us =
     map (\<lambda>(mri, t). \<lparr>ru_MRI = trim_space mri, ru_TimeMS = parseReactionTime L t\<rparr>)
       (filter (\<lambda>(mri, t). trim_space mri \<noteq> []) us)"

fun reactions_of ::
  "golib \<Rightarrow> (string \<times> (string \<times> string) list) list \<Rightarrow> MessageReaction list" where
  "reactions_of L [] = []"
| "reactions_of L ((key, us) # es) =
     (let key = trim_space key
      in if key = [] \<or> us = [] then reactions_of L es
         else
           (let users = reaction_users L us
            in if users = [] then reactions_of L es
               else \<lparr>mr_EmotionKey = key, mr_Users = users\<rparr> # reactions_of L es))"

definition ExtractReactions :: "golib \<Rightarrow> string \<Rightarrow> MessageReaction list" where
  "ExtractReactions L properties =
     (if properties = [] then []
      else case Option.bind (lib_json L properties) (decode_emotions L) of
        None \<Rightarrow> []
      | Some emotions \<Rightarrow> reactions_of L emotions)"

section \<open>Times and sequence IDs\<close>

definition ParseTimestamp :: "golib \<Rightarrow> string \<Rightarrow> instant" where
  "ParseTimestamp L value =
     (if value = [] then zero_time
      else case lib_rfc3339 L value of Some ts \<Rightarrow> ts | None \<Rightarrow> zero_time)"

definition ChooseLastSeenTS :: "instant \<Rightarrow> instant \<Rightarrow> instant" where
  "ChooseLastSeenTS messageTS now = (if messageTS \<noteq> zero_time then messageTS else now)"

definition CompareSequenceID :: "string \<Rightarrow> string \<Rightarrow> int" where
  "CompareSequenceID a b =
     (case (parse_uint a, parse_uint b) of
        (Some aNum, Some bNum) \<Rightarrow> if aNum < bNum then -1 else if bNum < aNum then 1 else 0
      | _ \<Rightarrow> str_compare a b)"

section \<open>Files\<close>

definition ExtractFilesProperty :: "golib \<Rightarrow> string \<Rightarrow> string" where
  "ExtractFilesProperty L properties =
     (if properties = [] then []
      else case Option.bind (lib_json L properties) members of
        None \<Rightarrow> []
      | Some ms \<Rightarrow>
        (let files = raw_field L ''files'' [] ms;
             raw = trim_space files
         in if raw = [] \<or> raw = ''null'' then []
            else case unmarshal_string L files of
              Some encoded \<Rightarrow> trim_space encoded
            | None \<Rightarrow> if has_prefix raw ''['' then raw else []))"

text \<open>One entry of the files list: file name, item ID, share URL, file URL, file type.\<close>

definition decode_file :: "golib \<Rightarrow> json \<Rightarrow> (string \<times> string \<times> string \<times> string \<times> string) option" where
  "decode_file L v =
     Option.bind (members v) (\<lambda>ms.
       Option.bind (members (tree_field L ''fileInfo'' JNull ms)) (\<lambda>info.
         Option.bind (string_field L ''fileName'' [] ms) (\<lambda>fileName.
           Option.bind (string_field L ''itemId'' [] info) (\<lambda>itemID.
             Option.bind (string_field L ''shareUrl'' [] info) (\<lambda>shareURL.
               Option.bind (string_field L ''fileUrl'' [] info) (\<lambda>fileURL.
                 map_option (\<lambda>fileType. (fileName, itemID, shareURL, fileURL, fileType))
                   (string_field L ''fileType'' [] ms)))))))"

fun attachments_of ::
  "(string \<times> string \<times> string \<times> string \<times> string) list \<Rightarrow> TeamsAttachment list" where
  "attachments_of [] = []"
| "attachments_of ((fileName, itemID, share, fileURL, fileType) # entries) =
     (let filename = trim_space fileName;
          driveItemID = trim_space itemID;
          shareURL = trim_space share
      in if filename = [] \<or> (shareURL = [] \<and> driveItemID = []) then attachments_of entries
         else \<lparr>ta_Filename = filename, ta_DriveItemID = driveItemID, ta_ShareURL = shareURL,
                ta_DownloadURL = trim_space fileURL, ta_FileType = trim_space fileType\<rparr>
              # attachments_of entries)"

definition ParseAttachments :: "golib \<Rightarrow> string \<Rightarrow> TeamsAttachment list option" where
  "ParseAttachments L raw =
     (let trimmed = trim_space raw
      in if trimmed = [] \<or> trimmed = ''[]'' then None
         else
           (let trimmed =
                  (if has_prefix trimmed [CHR 0x22]
                   then (case unmarshal_string L trimmed of
                           Some decoded \<Rightarrow> trim_space decoded | None \<Rightarrow> trimmed)
                   else trimmed)
            in if trimmed = [] \<or> trimmed = ''[]'' then None
               else case Option.bind (Option.bind (lib_json L trimmed) elements)
                           (\<lambda>es. decode_all (decode_file L) (map snd es)) of
                 None \<Rightarrow> None
               | Some payload \<Rightarrow>
                   if payload = [] then None
                   else if attachments_of payload = [] then None
                   else Some (attachments_of payload)))"

section \<open>Read positions\<close>

definition ParseConsumptionHorizonLatestReadTS :: "string \<Rightarrow> int option" where
  "ParseConsumptionHorizonLatestReadTS horizon =
     (case split_byte horizon (CHR '';'') of
        _ # second # _ \<Rightarrow>
          (let value = trim_space second in if value = [] then None else parse_int value)
      | _ \<Rightarrow> None)"

definition ConsumptionHorizonNow :: "instant \<Rightarrow> string" where
  "ConsumptionHorizonNow now =
     (let ms = unix_milli now in format_int ms @ '';'' @ format_int ms @ '';0'')"

section \<open>Lemmas\<close>

lemma CompareSequenceID_antisym: "CompareSequenceID b a = - CompareSequenceID a b"
  by (auto simp: CompareSequenceID_def str_compare_antisym [of a b] split: option.split)

lemma CompareSequenceID_refl: "CompareSequenceID a a = 0"
  by (simp add: CompareSequenceID_def str_compare_eq_0 split: option.split)

lemma CompareSequenceID_numeric:
  "m < 2 ^ 64 \<Longrightarrow> n < 2 ^ 64 \<Longrightarrow>
     CompareSequenceID (format_uint m) (format_uint n) = sgn (int m - int n)"
  by (simp add: CompareSequenceID_def parse_uint_format_uint sgn_if)

lemma CompareSequenceID_range: "CompareSequenceID a b \<in> {-1, 0, 1}"
  using str_compare_range [of a b] by (auto simp: CompareSequenceID_def split: option.split)

text \<open>On numeric IDs the comparison is that of the values, hence a total preorder.\<close>

definition numericID :: "string \<Rightarrow> bool" where
  "numericID s \<longleftrightarrow> parse_uint s \<noteq> None"

lemma numeric_compare:
  "numericID a \<Longrightarrow> numericID b \<Longrightarrow>
     CompareSequenceID a b = sgn (int (the (parse_uint a)) - int (the (parse_uint b)))"
  by (auto simp: numericID_def CompareSequenceID_def)

lemma numeric_trans:
  "numericID a \<Longrightarrow> numericID b \<Longrightarrow> numericID c \<Longrightarrow>
     CompareSequenceID a b \<le> 0 \<Longrightarrow> CompareSequenceID b c \<le> 0 \<Longrightarrow> CompareSequenceID a c \<le> 0"
  by (simp add: numeric_compare sgn_if split: if_splits)

lemma format_int_no_semicolon: "CHR '';'' \<notin> set (format_int i)"
  using format_uint_digits [of "CHR '';''" "nat i"] format_uint_digits [of "CHR '';''" "nat (- i)"]
  by (auto simp: format_int_def)

lemma trimmed_format_int: "trimmed (format_int i)"
proof (cases "i < 0")
  case True
  have "trimmed (''-'' @ format_uint (nat (- i)))"
    by (rule trimmed_solid_append) (simp_all add: solid_def space_runes_def)
  with True show ?thesis by (simp add: format_int_def)
qed (simp add: format_int_def)

lemma format_int_nonempty [simp]: "format_int i \<noteq> []"
  by (simp add: format_int_def)

lemma attachments_of_wellformed:
  "list_all (\<lambda>a. ta_Filename a \<noteq> [] \<and> (ta_ShareURL a \<noteq> [] \<or> ta_DriveItemID a \<noteq> [])
     \<and> trimmed (ta_Filename a) \<and> trimmed (ta_ShareURL a) \<and> trimmed (ta_DriveItemID a)
     \<and> trimmed (ta_DownloadURL a) \<and> trimmed (ta_FileType a)) (attachments_of es)"
  by (induction es rule: attachments_of.induct) (auto simp: Let_def)

text \<open>The emotion and user pairs a list of reactions holds.\<close>

definition reaction_pairs :: "MessageReaction list \<Rightarrow> (string \<times> string) list" where
  "reaction_pairs rs =
     concat (map (\<lambda>r. map (\<lambda>u. (mr_EmotionKey r, ru_MRI u)) (mr_Users r)) rs)"

definition payload_pairs :: "(string \<times> (string \<times> string) list) list \<Rightarrow> (string \<times> string) list" where
  "payload_pairs es =
     filter (\<lambda>(k, m). k \<noteq> [] \<and> m \<noteq> [])
       (concat (map (\<lambda>(key, us). map (\<lambda>(mri, t). (trim_space key, trim_space mri)) us) es))"

lemma reaction_users_pairs:
  "k \<noteq> [] \<Longrightarrow> map (\<lambda>u. (k, ru_MRI u)) (reaction_users L us)
     = filter (\<lambda>(k, m). k \<noteq> [] \<and> m \<noteq> []) (map (\<lambda>(mri, t). (k, trim_space mri)) us)"
  by (induction us) (auto simp: reaction_users_def)

lemma reactions_of_pairs: "reaction_pairs (reactions_of L es) = payload_pairs es"
proof (induction L es rule: reactions_of.induct)
  case (2 L key us es)
  have "filter (\<lambda>(k, m). k \<noteq> [] \<and> m \<noteq> []) (map (\<lambda>(mri, t). ([], trim_space mri)) us) = []"
    by (induction us) auto
  with 2 reaction_users_pairs [of "trim_space key" L us] show ?case
    by (auto simp: Let_def reaction_pairs_def payload_pairs_def)
qed (simp add: reaction_pairs_def payload_pairs_def)

lemma reactions_of_wellformed:
  "list_all (\<lambda>r. mr_EmotionKey r \<noteq> [] \<and> trimmed (mr_EmotionKey r) \<and> mr_Users r \<noteq> []
     \<and> list_all (\<lambda>u. ru_MRI u \<noteq> [] \<and> trimmed (ru_MRI u)) (mr_Users r)) (reactions_of L es)"
  by (induction L es rule: reactions_of.induct)
    (auto simp: Let_def reaction_users_def list_all_iff)

section \<open>Properties\<close>

text \<open>
  Numeric sequence IDs are ordered by value: for any two 64-bit numbers, comparing their decimal
  forms gives the sign of their difference, so "9" comes before "10"; on any three numeric IDs the
  comparison is transitive, and it is antisymmetric on all strings.
\<close>

theorem sequence_order_numeric:
  assumes "m < 2 ^ 64" and "n < 2 ^ 64"
    and "numericID a" and "numericID b" and "numericID c"
  shows "CompareSequenceID (format_uint m) (format_uint n) = sgn (int m - int n)
    \<and> (CompareSequenceID a b \<le> 0 \<and> CompareSequenceID b c \<le> 0 \<longrightarrow> CompareSequenceID a c \<le> 0)
    \<and> CompareSequenceID b a = - CompareSequenceID a b"
  using assms numeric_trans [of a b c] CompareSequenceID_numeric [of m n]
    CompareSequenceID_antisym [of b a] by auto

theorem sequence_order_numeric_witness:
  "CompareSequenceID (format_uint 9) (format_uint 10) = -1
   \<and> CompareSequenceID ''007'' ''12'' \<le> 0"
proof -
  have n: "numericID ''007''" "numericID ''8''" "numericID ''12''"
    and le: "CompareSequenceID ''007'' ''8'' \<le> 0" "CompareSequenceID ''8'' ''12'' \<le> 0"
    by (simp_all add: numericID_def CompareSequenceID_def parse_uint_def is_digit_def)
  from sequence_order_numeric [of 9 10, OF _ _ n] le show ?thesis by simp
qed

text \<open>
  With IDs that are not all numbers the comparison is no order: "9" is before "10" (as numbers),
  "10" is before "1a" (as text), and "1a" is before "9" (as text).
\<close>

theorem sequence_order_cycle:
  "CompareSequenceID ''9'' ''10'' = -1 \<and> CompareSequenceID ''10'' ''1a'' = -1
   \<and> CompareSequenceID ''1a'' ''9'' = -1"
  by (simp add: CompareSequenceID_def parse_uint_def is_digit_def)

text \<open>
  The read position the bridge sends is one it can read back: parsing the consumption horizon
  built for an instant gives that instant in milliseconds, for every time that fits in 64 bits.
\<close>

theorem horizon_roundtrip:
  assumes "- (2 ^ 63) \<le> unix_milli now" and "unix_milli now < 2 ^ 63"
  shows "ParseConsumptionHorizonLatestReadTS (ConsumptionHorizonNow now) = Some (unix_milli now)"
proof -
  let ?ms = "format_int (unix_milli now)"
  have "split_byte (?ms @ '';'' @ ?ms @ '';0'') (CHR '';'') = [?ms, ?ms, ''0'']"
    by (simp add: split_byte_append format_int_no_semicolon)
  with assms show ?thesis
    by (simp add: ParseConsumptionHorizonLatestReadTS_def ConsumptionHorizonNow_def Let_def
        trim_space_trimmed trimmed_format_int parse_int_format_int)
qed

theorem horizon_roundtrip_witness:
  "ParseConsumptionHorizonLatestReadTS (ConsumptionHorizonNow 1700000000123456789)
     = Some 1700000000123"
  using horizon_roundtrip [of 1700000000123456789] by (simp add: unix_milli_def)

text \<open>
  No reaction is lost, invented or reordered. The emotion and user pairs of the extracted
  reactions are exactly the pairs of the decoded payload, in its order, with the space around keys
  and MRIs removed and the blank ones left out; and no extracted reaction is without users.
\<close>

theorem ExtractReactions_complete:
  assumes "properties \<noteq> []"
    and "Option.bind (lib_json L properties) (decode_emotions L) = Some emotions"
  shows "reaction_pairs (ExtractReactions L properties) = payload_pairs emotions
    \<and> list_all (\<lambda>r. mr_EmotionKey r \<noteq> [] \<and> mr_Users r \<noteq> []) (ExtractReactions L properties)"
  using assms reactions_of_pairs [of L emotions] reactions_of_wellformed [of L emotions]
  by (auto simp: ExtractReactions_def list_all_iff)

definition reaction_lib :: golib where
  "reaction_lib = plain_lib\<lparr>lib_json := (\<lambda>_. Some (JObject [(''emotions'', [], JArray
     [([], JObject [(''key'', [], JString ''like''),
       (''users'', [], JArray [([], JObject [(''mri'', [], JString '' 8:bob '')]),
                               ([], JObject [(''mri'', [], JString '' '')])])])])]))\<rparr>"

theorem ExtractReactions_complete_witness:
  "reaction_pairs (ExtractReactions reaction_lib ''p'') = [(''like'', ''8:bob'')]"
proof -
  have "Option.bind (lib_json reaction_lib ''p'') (decode_emotions reaction_lib)
      = Some [(''like'', [('' 8:bob '', []), ('' '', [])])]"
    by code_simp
  moreover have "payload_pairs [(''like'', [('' 8:bob '', []), ('' '', [])])] = [(''like'', ''8:bob'')]"
    by code_simp
  ultimately show ?thesis
    using ExtractReactions_complete [of "''p''" reaction_lib] by simp
qed

text \<open>
  Every attachment the bridge goes on with has a file name and a share URL or a drive item ID,
  all without surrounding space; and there is at least one.
\<close>

theorem ParseAttachments_wellformed:
  assumes "ParseAttachments L raw = Some atts"
  shows "atts \<noteq> []
    \<and> list_all (\<lambda>a. ta_Filename a \<noteq> [] \<and> (ta_ShareURL a \<noteq> [] \<or> ta_DriveItemID a \<noteq> [])
         \<and> trimmed (ta_Filename a) \<and> trimmed (ta_ShareURL a) \<and> trimmed (ta_DriveItemID a)) atts"
proof -
  from assms obtain payload where "atts = attachments_of payload" "atts \<noteq> []"
    by (auto simp: ParseAttachments_def Let_def split: if_splits option.splits)
  with attachments_of_wellformed [of payload] show ?thesis by (auto simp: list_all_iff)
qed

definition file_lib :: golib where
  "file_lib = plain_lib\<lparr>lib_json := (\<lambda>_. Some (JArray
     [([], JObject [(''fileName'', [], JString '' a.txt ''),
        (''fileInfo'', [], JObject [(''itemId'', [], JString ''I'')])])]))\<rparr>"

theorem ParseAttachments_wellformed_witness:
  "trimmed ''a.txt'' \<and> trimmed ''I''"
proof -
  have "ParseAttachments file_lib ''[x]'' = Some [\<lparr>ta_Filename = ''a.txt'', ta_DriveItemID = ''I'',
      ta_ShareURL = [], ta_DownloadURL = [], ta_FileType = []\<rparr>]"
    by code_simp
  from ParseAttachments_wellformed [OF this] show ?thesis by simp
qed

end
