(* ===== verification/Conversation.thy ===== *)
theory Conversation
  imports GoLib
begin

text \<open>
  \<open>internal/teams/model/conversation.go\<close>: from a conversation as Teams lists it to a thread with a
  room name. Who counts as oneself or as a bot, when a chat is one-to-one, and what it is called.
\<close>

section \<open>Data\<close>

record ThreadProperties =
  tp_OriginalThreadID :: string
  tp_ProductThreadType :: string
  tp_CreatedAt :: string
  tp_IsCreator :: bool
  tp_Topic :: string
  tp_ThreadTopic :: string
  tp_Title :: string
  tp_DisplayName :: string
  tp_Name :: string

record ConversationMember =
  cm_ID :: string
  cm_MRI :: string
  cm_DisplayName :: string
  cm_Name :: string
  cm_IsSelf :: bool
  cm_IsCurrentUser :: bool

record ConversationProperties =
  cp_Topic :: string
  cp_ThreadTopic :: string
  cp_Title :: string
  cp_DisplayName :: string
  cp_Name :: string

record RemoteConversation =
  rc_ID :: string
  rc_ThreadProperties :: ThreadProperties
  rc_Topic :: string
  rc_Title :: string
  rc_DisplayName :: string
  rc_Name :: string
  rc_Properties :: ConversationProperties
  rc_Members :: "ConversationMember list"
  rc_Participants :: "ConversationMember list"
  rc_Consumers :: "ConversationMember list"

record Thread =
  th_ID :: string
  th_ConversationID :: string
  th_Type :: string
  th_CreatedAtRaw :: string
  th_IsCreator :: bool
  th_IsOneToOne :: bool
  th_RoomName :: string

definition defaultRoomName :: string where "defaultRoomName = ''Chat''"

section \<open>Members\<close>

definition memberID :: "ConversationMember \<Rightarrow> string" where
  "memberID m = (if trim_space (cm_ID m) \<noteq> [] then trim_space (cm_ID m) else trim_space (cm_MRI m))"

definition memberName :: "ConversationMember \<Rightarrow> string" where
  "memberName m =
     (if trim_space (cm_DisplayName m) \<noteq> [] then trim_space (cm_DisplayName m)
      else trim_space (cm_Name m))"

text \<open>The loop of \<open>normalizeParticipantID\<close>: drop \<open>digits:\<close> prefixes.\<close>

function dropNumericPrefixes :: "string \<Rightarrow> string" where
  "dropNumericPrefixes s =
     (case index_byte s (CHR '':'') of
        None \<Rightarrow> s
      | Some idx \<Rightarrow>
          if idx = 0 \<or> length s \<le> idx + 1 then s
          else if list_all is_digit (take idx s) then dropNumericPrefixes (drop (idx + 1) s)
          else s)"
  by pat_completeness auto
termination
  by (relation "measure length") auto

declare dropNumericPrefixes.simps [simp del]

definition normalizeParticipantID :: "golib \<Rightarrow> string \<Rightarrow> string" where
  "normalizeParticipantID L raw =
     (let s = lower L (trim_space raw) in if s = [] then [] else dropNumericPrefixes s)"

definition isLikelyTeamsBotID :: "golib \<Rightarrow> string \<Rightarrow> bool" where
  "isLikelyTeamsBotID L raw =
     (let s = trim_space (lower L raw)
      in if s = [] then False else has_prefix s ''28:'' \<or> contains s ''teamsbot'')"

definition isExplicitSelfMember ::
  "golib \<Rightarrow> ConversationMember \<Rightarrow> string \<Rightarrow> string \<Rightarrow> string \<Rightarrow> bool" where
  "isExplicitSelfMember L member mid selfUserID selfNorm =
     (if cm_IsSelf member \<or> cm_IsCurrentUser member then True
      else if selfUserID \<noteq> [] \<and> mid \<noteq> [] \<and> eq_fold L mid selfUserID then True
      else if selfNorm \<noteq> [] \<and> normalizeParticipantID L mid = selfNorm then True
      else False)"

definition all_members :: "RemoteConversation \<Rightarrow> ConversationMember list" where
  "all_members c = rc_Members c @ rc_Participants c @ rc_Consumers c"

text \<open>The set of lower-cased names of the members that are oneself.\<close>

definition collectSelfDisplayNames ::
  "golib \<Rightarrow> RemoteConversation \<Rightarrow> string \<Rightarrow> string \<Rightarrow> string set" where
  "collectSelfDisplayNames L c selfUserID selfNorm =
     fold (\<lambda>m names.
       if \<not> isExplicitSelfMember L m (memberID m) selfUserID selfNorm then names
       else if memberName m \<noteq> [] then insert (lower L (memberName m)) names else names)
     (all_members c) {}"

section \<open>Names\<close>

fun first_named :: "string list \<Rightarrow> string" where
  "first_named [] = []"
| "first_named (candidate # cs) =
     (if trim_space candidate \<noteq> [] then trim_space candidate else first_named cs)"

definition resolveThreadName :: "RemoteConversation \<Rightarrow> string" where
  "resolveThreadName c =
     (let t = rc_ThreadProperties c; p = rc_Properties c
      in first_named
           [tp_Topic t, tp_ThreadTopic t, tp_Title t, tp_DisplayName t, tp_Name t,
            cp_Topic p, cp_ThreadTopic p, cp_Title p, cp_DisplayName p, cp_Name p,
            rc_Topic c, rc_Title c, rc_DisplayName c, rc_Name c])"

text \<open>The loop of \<open>resolveDMName\<close>, over the three member lists in turn.\<close>

fun dm_loop ::
  "golib \<Rightarrow> string \<Rightarrow> string \<Rightarrow> string set \<Rightarrow> string \<Rightarrow> ConversationMember list \<Rightarrow> string" where
  "dm_loop L selfID selfNorm selfNames fallback [] = fallback"
| "dm_loop L selfID selfNorm selfNames fallback (m # ms) =
     (let mid = memberID m
      in if isExplicitSelfMember L m mid selfID selfNorm
         then dm_loop L selfID selfNorm selfNames fallback ms
         else if isLikelyTeamsBotID L mid then dm_loop L selfID selfNorm selfNames fallback ms
         else
           (let name = memberName m
            in if name = [] then dm_loop L selfID selfNorm selfNames fallback ms
               else
                 (let fallback = (if fallback = [] then name else fallback)
                  in if lower L name \<in> selfNames
                     then dm_loop L selfID selfNorm selfNames fallback ms
                     else name)))"

definition resolveDMName :: "golib \<Rightarrow> RemoteConversation \<Rightarrow> string \<Rightarrow> string" where
  "resolveDMName L c selfUserID =
     (let selfID = trim_space selfUserID;
          selfNorm = normalizeParticipantID L selfID;
          selfNames = collectSelfDisplayNames L c selfID selfNorm
      in dm_loop L selfID selfNorm selfNames [] (all_members c))"

definition resolveRoomName :: "golib \<Rightarrow> RemoteConversation \<Rightarrow> bool \<Rightarrow> string \<Rightarrow> string" where
  "resolveRoomName L c isOneToOne selfUserID =
     (if isOneToOne then resolveDMName L c selfUserID
      else if resolveThreadName c \<noteq> [] then resolveThreadName c
      else defaultRoomName)"

section \<open>One-to-one chats\<close>

text \<open>The key under which a member counts as somebody else; \<open>None\<close> when it is skipped.\<close>

definition other_key ::
  "golib \<Rightarrow> string \<Rightarrow> string \<Rightarrow> string set \<Rightarrow> ConversationMember \<Rightarrow> string option" where
  "other_key L selfID selfNorm selfNames m =
     (let rawID = memberID m
      in if isExplicitSelfMember L m rawID selfID selfNorm then None
         else if isLikelyTeamsBotID L rawID then None
         else if memberName m \<noteq> [] \<and> lower L (memberName m) \<in> selfNames then None
         else
           (let idKey = normalizeParticipantID L rawID;
                idKey = (if idKey = [] then lower L (memberName m) else idKey)
            in if idKey = [] then None else Some idKey))"

text \<open>The loop over the members, with its early exit when a second key turns up.\<close>

fun others_loop ::
  "golib \<Rightarrow> string \<Rightarrow> string \<Rightarrow> string set \<Rightarrow> string set \<Rightarrow> ConversationMember list \<Rightarrow> bool" where
  "others_loop L selfID selfNorm selfNames others [] = (card others = 1)"
| "others_loop L selfID selfNorm selfNames others (m # ms) =
     (case other_key L selfID selfNorm selfNames m of
        None \<Rightarrow> others_loop L selfID selfNorm selfNames others ms
      | Some idKey \<Rightarrow>
          (let others = insert idKey others
           in if 1 < card others then False
              else others_loop L selfID selfNorm selfNames others ms))"

definition isLikelyOneToOne :: "golib \<Rightarrow> RemoteConversation \<Rightarrow> string \<Rightarrow> bool" where
  "isLikelyOneToOne L c selfUserID =
     (if resolveThreadName c \<noteq> [] then False
      else
        (let selfID = trim_space selfUserID;
             selfNorm = normalizeParticipantID L selfID;
             selfNames = collectSelfDisplayNames L c selfID selfNorm
         in others_loop L selfID selfNorm selfNames {} (all_members c)))"

section \<open>Threads\<close>

definition NormalizeForSelf :: "golib \<Rightarrow> RemoteConversation \<Rightarrow> string \<Rightarrow> Thread option" where
  "NormalizeForSelf L c selfUserID =
     (let t = rc_ThreadProperties c;
          tid = trim_space (tp_OriginalThreadID t)
      in if tid = [] then None
         else
           (let threadType = trim_space (tp_ProductThreadType t);
                conversationID = trim_space (rc_ID c);
                isOneToOne = (threadType = ''OneToOneChat''
                              \<or> isLikelyOneToOne L c (trim_space selfUserID))
            in Some \<lparr>th_ID = tid, th_ConversationID = conversationID, th_Type = threadType,
                 th_CreatedAtRaw = tp_CreatedAt t, th_IsCreator = tp_IsCreator t,
                 th_IsOneToOne = isOneToOne,
                 th_RoomName = resolveRoomName L c isOneToOne (trim_space selfUserID)\<rparr>))"

definition Normalize :: "golib \<Rightarrow> RemoteConversation \<Rightarrow> Thread option" where
  "Normalize L c = NormalizeForSelf L c []"

section \<open>Lemmas\<close>

lemma dropNumericPrefixes_idem: "dropNumericPrefixes (dropNumericPrefixes s) = dropNumericPrefixes s"
proof (induction s rule: dropNumericPrefixes.induct)
  case (1 s)
  show ?case
  proof (cases "\<exists>idx. index_byte s (CHR '':'') = Some idx \<and> idx \<noteq> 0 \<and> idx + 1 < length s
      \<and> list_all is_digit (take idx s)")
    case True
    with 1 show ?thesis by (auto simp: dropNumericPrefixes.simps [of s])
  next
    case False
    then have "dropNumericPrefixes s = s"
      by (auto simp: dropNumericPrefixes.simps [of s] split: option.split)
    then show ?thesis by simp
  qed
qed

lemma index_byte_append: "c \<notin> set s \<Longrightarrow> index_byte (s @ c # t) c = Some (length s)"
  by (induction s) auto

lemma dropNumericPrefixes_prefix:
  assumes "ds \<noteq> []" "list_all is_digit ds" "t \<noteq> []"
  shows "dropNumericPrefixes (ds @ CHR '':'' # t) = dropNumericPrefixes t"
proof -
  have "\<not> is_digit (CHR '':'')" by (simp add: is_digit_def)
  with assms(2) have "CHR '':'' \<notin> set ds" by (auto simp: list_all_iff)
  then have "index_byte (ds @ CHR '':'' # t) (CHR '':'') = Some (length ds)"
    by (rule index_byte_append)
  with assms show ?thesis by (simp add: dropNumericPrefixes.simps [of "ds @ CHR '':'' # t"])
qed

lemma first_named_trimmed: "trimmed (first_named cs)"
  by (induction cs) auto

lemma finite_others: "finite {k. \<exists>m \<in> set ms. f m = Some k}"
proof -
  have "{k. \<exists>m \<in> set ms. f m = Some k} \<subseteq> the ` f ` set ms" by force
  then show ?thesis by (rule finite_subset) simp
qed

text \<open>The early exit does not change the answer: exactly one key among the members.\<close>

lemma others_loop_card:
  assumes "finite others" "card others \<le> 1"
  shows "others_loop L sid sn names others ms
    \<longleftrightarrow> card (others \<union> {k. \<exists>m \<in> set ms. other_key L sid sn names m = Some k}) = 1"
  using assms
proof (induction ms arbitrary: others)
  case Nil
  then show ?case by simp
next
  case (Cons m ms)
  let ?K = "\<lambda>ms. {k. \<exists>m \<in> set ms. other_key L sid sn names m = Some k}"
  show ?case
  proof (cases "other_key L sid sn names m")
    case None
    then have "?K (m # ms) = ?K ms" by auto
    with Cons None show ?thesis by simp
  next
    case (Some k)
    then have K: "others \<union> ?K (m # ms) = insert k others \<union> ?K ms" by auto
    show ?thesis
    proof (cases "1 < card (insert k others)")
      case True
      have "card (insert k others) \<le> card (insert k others \<union> ?K ms)"
        using Cons.prems(1) finite_others [of ms "other_key L sid sn names"]
        by (intro card_mono) auto
      with True Some K show ?thesis by simp
    next
      case False
      with Cons Some K show ?thesis by simp
    qed
  qed
qed

text \<open>A member with a name that is neither oneself nor a bot.\<close>

definition other_named :: "golib \<Rightarrow> string \<Rightarrow> string \<Rightarrow> ConversationMember \<Rightarrow> bool" where
  "other_named L selfID selfNorm m \<longleftrightarrow>
     \<not> isExplicitSelfMember L m (memberID m) selfID selfNorm
     \<and> \<not> isLikelyTeamsBotID L (memberID m) \<and> memberName m \<noteq> []"

definition name_of :: "ConversationMember option \<Rightarrow> string" where
  "name_of mo = (case mo of None \<Rightarrow> [] | Some m \<Rightarrow> memberName m)"

lemma dm_loop_Cons:
  "dm_loop L sid sn names fb (m # ms) =
     (if \<not> other_named L sid sn m then dm_loop L sid sn names fb ms
      else if lower L (memberName m) \<in> names
        then dm_loop L sid sn names (if fb = [] then memberName m else fb) ms
      else memberName m)"
  by (simp add: other_named_def Let_def)

lemma dm_loop_find:
  "dm_loop L sid sn names fb ms =
     (case find (\<lambda>m. other_named L sid sn m \<and> lower L (memberName m) \<notin> names) ms of
        Some m \<Rightarrow> memberName m
      | None \<Rightarrow> if fb \<noteq> [] then fb else name_of (find (other_named L sid sn) ms))"
proof (induction ms arbitrary: fb)
  case Nil
  show ?case by (simp add: name_of_def)
next
  case (Cons m ms)
  have "other_named L sid sn m \<Longrightarrow> memberName m \<noteq> []" by (simp add: other_named_def)
  with Cons show ?case
    by (auto simp del: dm_loop.simps(2) simp add: dm_loop_Cons name_of_def split: option.split)
qed

lemma self_names_fold:
  "fold (\<lambda>m names.
       if \<not> isExplicitSelfMember L m (memberID m) sid sn then names
       else if memberName m \<noteq> [] then insert (lower L (memberName m)) names else names) ms A
   = A \<union> {lower L (memberName m) | m. m \<in> set ms
        \<and> isExplicitSelfMember L m (memberID m) sid sn \<and> memberName m \<noteq> []}"
  by (induction ms arbitrary: A) auto

lemma find_SomeD: "find P xs = Some x \<Longrightarrow> x \<in> set xs \<and> P x"
  by (auto simp: find_Some_iff)

lemma dm_loop_member:
  "dm_loop L sid sn names [] ms = []
   \<or> (\<exists>m \<in> set ms. dm_loop L sid sn names [] ms = memberName m \<and> other_named L sid sn m)"
  unfolding dm_loop_find name_of_def
  by (auto split: option.split dest!: find_SomeD)

lemma resolveThreadName_trimmed: "trimmed (resolveThreadName c)"
  by (simp add: resolveThreadName_def Let_def first_named_trimmed)

lemma ascii_lower_digit: "is_digit c \<Longrightarrow> ascii_lower c = c"
  by (simp add: is_digit_def ascii_lower_def Let_def)

lemma is_digit_ascii: "is_digit c \<Longrightarrow> is_ascii c"
  by (simp add: is_digit_def is_ascii_def)

section \<open>Properties\<close>

text \<open>
  The one-to-one heuristic. A conversation is taken for a one-to-one chat exactly when it has no
  name of its own and, leaving out oneself, bots and members that share one's own display name, its
  members amount to exactly one distinct participant; the early exit of the loop is unobservable.
\<close>

theorem isLikelyOneToOne_iff:
  "isLikelyOneToOne L c selfUserID \<longleftrightarrow>
     resolveThreadName c = []
     \<and> (let sid = trim_space selfUserID; sn = normalizeParticipantID L sid;
            names = collectSelfDisplayNames L c sid sn
        in card {k. \<exists>m \<in> set (all_members c). other_key L sid sn names m = Some k} = 1)"
  using others_loop_card [of "{}"] by (simp add: isLikelyOneToOne_def Let_def)

lemma isLikelyOneToOne_example:
  "let bob = \<lparr>cm_ID = ''8:bob'', cm_MRI = [], cm_DisplayName = ''Bob'', cm_Name = [],
              cm_IsSelf = False, cm_IsCurrentUser = False\<rparr>;
       c = \<lparr>rc_ID = ''c'', rc_ThreadProperties = \<lparr>tp_OriginalThreadID = ''t'',
              tp_ProductThreadType = [], tp_CreatedAt = [], tp_IsCreator = False, tp_Topic = [],
              tp_ThreadTopic = [], tp_Title = [], tp_DisplayName = [], tp_Name = []\<rparr>,
            rc_Topic = [], rc_Title = [], rc_DisplayName = [], rc_Name = [],
            rc_Properties = \<lparr>cp_Topic = [], cp_ThreadTopic = [], cp_Title = [],
              cp_DisplayName = [], cp_Name = []\<rparr>,
            rc_Members = [bob, bob\<lparr>cm_ID := ''bob''\<rparr>], rc_Participants = [], rc_Consumers = []\<rparr>
   in isLikelyOneToOne plain_lib c ''8:me''"
  by code_simp

text \<open>
  The name of a direct chat is the name of the first member, in the order members, participants,
  consumers, who is neither oneself nor a bot and whose name is not one of one's own; failing that,
  of the first named member who is neither oneself nor a bot; failing that it is empty.
\<close>

theorem resolveDMName_spec:
  "resolveDMName L c selfUserID =
     (let sid = trim_space selfUserID; sn = normalizeParticipantID L sid;
          mine = {lower L (memberName m) | m. m \<in> set (all_members c)
            \<and> isExplicitSelfMember L m (memberID m) sid sn \<and> memberName m \<noteq> []}
      in case find (\<lambda>m. other_named L sid sn m \<and> lower L (memberName m) \<notin> mine) (all_members c) of
           Some m \<Rightarrow> memberName m
         | None \<Rightarrow> name_of (find (other_named L sid sn) (all_members c)))"
  by (simp add: resolveDMName_def collectSelfDisplayNames_def self_names_fold dm_loop_find Let_def)

text \<open>
  Every thread the bridge keeps is well formed: its ID is not empty and, like the conversation
  ID, without surrounding space; a group chat always has a name, also without surrounding space; and
  a direct chat's name, if it has one, is that of a member who is neither oneself nor a bot.
\<close>

theorem NormalizeForSelf_wellformed:
  assumes "NormalizeForSelf L c selfUserID = Some th"
  shows "th_ID th \<noteq> [] \<and> trimmed (th_ID th) \<and> trimmed (th_ConversationID th)
    \<and> (if th_IsOneToOne th
       then th_RoomName th = []
         \<or> (\<exists>m \<in> set (all_members c). th_RoomName th = memberName m
              \<and> other_named L (trim_space selfUserID)
                  (normalizeParticipantID L (trim_space selfUserID)) m)
       else th_RoomName th \<noteq> [] \<and> trimmed (th_RoomName th))"
proof -
  let ?sid = "trim_space selfUserID"
  let ?sn = "normalizeParticipantID L ?sid"
  have dm: "resolveDMName L c ?sid = []
    \<or> (\<exists>m \<in> set (all_members c). resolveDMName L c ?sid = memberName m \<and> other_named L ?sid ?sn m)"
    using dm_loop_member [of L ?sid ?sn] by (simp add: resolveDMName_def Let_def)
  have "trimmed ''Chat''"
    by (rule trimmed_solid_ends) (simp_all add: solid_def space_runes_def)
  with assms dm resolveThreadName_trimmed [of c] show ?thesis
    by (auto simp: NormalizeForSelf_def resolveRoomName_def defaultRoomName_def Let_def
        split: if_splits)
qed

definition sample_conversation :: RemoteConversation where
  "sample_conversation =
     \<lparr>rc_ID = '' 19:x@thread.v2 '', rc_ThreadProperties = \<lparr>tp_OriginalThreadID = ''19:x@thread.v2'',
        tp_ProductThreadType = ''Chat'', tp_CreatedAt = [], tp_IsCreator = False, tp_Topic = '' Team '',
        tp_ThreadTopic = [], tp_Title = [], tp_DisplayName = [], tp_Name = []\<rparr>,
      rc_Topic = [], rc_Title = [], rc_DisplayName = [], rc_Name = [],
      rc_Properties = \<lparr>cp_Topic = [], cp_ThreadTopic = [], cp_Title = [],
        cp_DisplayName = [], cp_Name = []\<rparr>,
      rc_Members = [], rc_Participants = [], rc_Consumers = []\<rparr>"

theorem NormalizeForSelf_wellformed_witness:
  "''Team'' \<noteq> [] \<and> trimmed ''Team''"
proof -
  have "NormalizeForSelf plain_lib sample_conversation ''8:me'' =
    Some \<lparr>th_ID = ''19:x@thread.v2'', th_ConversationID = ''19:x@thread.v2'', th_Type = ''Chat'',
      th_CreatedAtRaw = [], th_IsCreator = False, th_IsOneToOne = False, th_RoomName = ''Team''\<rparr>"
    by code_simp
  from NormalizeForSelf_wellformed [OF this] show ?thesis by simp
qed

text \<open>
  Participants are compared without the numeric prefix of their identifier: putting any
  \<open>digits:\<close> in front of an ASCII identifier does not change its normal form.
\<close>

theorem participant_prefix_irrelevant:
  assumes "ds \<noteq> []" and "list_all is_digit ds" and "x \<noteq> []" and "trimmed x" and "list_all is_ascii x"
  shows "normalizeParticipantID L (ds @ '':'' @ x) = normalizeParticipantID L x"
proof -
  have d: "list_all is_ascii ds" "map ascii_lower ds = ds"
    using assms(2) by (auto simp: list_all_iff is_digit_ascii ascii_lower_digit intro: map_idI)
  have "solid (hd ds)"
    using assms(1,2) by (auto simp: list_all_iff intro: solid_digit)
  moreover have "solid (CHR '':'')" by (simp add: solid_def space_runes_def)
  ultimately have "trimmed ((ds @ '':'') @ x)"
    using assms by (intro trimmed_solid_append) auto
  then have "trim_space (ds @ CHR '':'' # x) = ds @ CHR '':'' # x"
    by (simp add: trim_space_trimmed)
  moreover have "is_ascii (CHR '':'')" "ascii_lower (CHR '':'') = CHR '':''"
    by (simp_all add: is_ascii_def ascii_lower_def)
  ultimately show ?thesis
    using assms d dropNumericPrefixes_prefix [of ds "map ascii_lower x"]
    by (simp add: normalizeParticipantID_def Let_def to_lower_ascii trim_space_trimmed)
qed

theorem participant_prefix_irrelevant_witness:
  "normalizeParticipantID plain_lib ''8:live:bob'' = normalizeParticipantID plain_lib ''live:bob''"
  using participant_prefix_irrelevant [of "''8''" "''live:bob''" plain_lib]
    trimmed_solid_ends [of "''live:bob''"]
  by (simp add: is_digit_def is_ascii_def solid_def space_runes_def)

end
