(* ===== verification/ClientID.thy ===== *)
theory ClientID
  imports GoBase
begin

text \<open>
  \<open>GenerateClientMessageID\<close> of \<open>internal/teams/client/messages.go\<close>: the package-level counter
  that goroutines advance by compare-and-swap. The interleavings are a step relation on the shared
  counter and the program points of the goroutines; \<open>issued\<close> records the successful swaps, the
  last one first.
\<close>

section \<open>One call\<close>

text \<open>The candidate computed from the loaded counter, in 64-bit arithmetic.\<close>

definition candidate :: "int64 \<Rightarrow> int64 \<Rightarrow> int64" where
  "candidate now prev = (if now \<le> prev then prev + 1 else now)"

text \<open>A call that no other goroutine disturbs: the ID and the counter it leaves.\<close>

definition GenerateClientMessageID :: "int64 \<Rightarrow> int64 \<Rightarrow> string \<times> int64" where
  "GenerateClientMessageID now counter =
     (let now = candidate now counter in (format_uint (unat now), now))"

section \<open>Interleaved calls\<close>

datatype point = Idle | Head int64 | Loaded int64 int64 | Returned int64

record shared =
  sendMessageCounter :: int64
  point_of :: "nat \<Rightarrow> point"
  issued :: "int64 list"

definition initial :: shared where
  "initial = \<lparr>sendMessageCounter = 0, point_of = (\<lambda>_. Idle), issued = []\<rparr>"

inductive gen_step :: "shared \<Rightarrow> shared \<Rightarrow> bool" where
  enter: "point_of s i = Idle \<or> point_of s i = Returned old \<Longrightarrow>
     gen_step s (s\<lparr>point_of := (point_of s)(i := Head clock)\<rparr>)"
| load: "point_of s i = Head now \<Longrightarrow> prev = sendMessageCounter s \<Longrightarrow>
     gen_step s (s\<lparr>point_of := (point_of s)(i := Loaded (candidate now prev) prev)\<rparr>)"
| swap: "point_of s i = Loaded now prev \<Longrightarrow> sendMessageCounter s = prev \<Longrightarrow>
     gen_step s \<lparr>sendMessageCounter = now, point_of = (point_of s)(i := Returned now),
                 issued = now # issued s\<rparr>"
| retry: "point_of s i = Loaded now prev \<Longrightarrow> sendMessageCounter s \<noteq> prev \<Longrightarrow>
     gen_step s (s\<lparr>point_of := (point_of s)(i := Head now)\<rparr>)"

inductive_cases gen_stepE: "gen_step s t"

abbreviation gen_reach :: "shared \<Rightarrow> shared \<Rightarrow> bool" where
  "gen_reach \<equiv> gen_step\<^sup>*\<^sup>*"

section \<open>The invariant\<close>

definition point_ok :: "int64 list \<Rightarrow> point \<Rightarrow> bool" where
  "point_ok ids p =
     (case p of
        Loaded now prev \<Rightarrow> prev < now \<or> prev = -1
      | Returned now \<Rightarrow> now \<in> set ids
      | _ \<Rightarrow> True)"

definition gen_inv :: "shared \<Rightarrow> bool" where
  "gen_inv s \<longleftrightarrow>
     sendMessageCounter s = (case issued s of [] \<Rightarrow> 0 | x # _ \<Rightarrow> x)
     \<and> (\<forall>i. point_ok (issued s) (point_of s i))
     \<and> (-1 \<notin> set (issued s) \<longrightarrow> sorted_wrt (>) (issued s))"

lemma candidate_greater: "prev < candidate now prev \<or> prev = -1"
proof (cases "prev = -1")
  case False
  then have "1 + prev \<noteq> 0" by (simp add: eq_neg_iff_add_eq_0 add.commute)
  then have "prev < prev + 1" by (simp add: word_less_nat_alt unatSuc add.commute)
  then show ?thesis by (auto simp: candidate_def not_le)
qed simp

lemma point_ok_mono: "point_ok ids p \<Longrightarrow> point_ok (x # ids) p"
  by (cases p) (auto simp: point_ok_def)

lemma gen_inv_step: "gen_step s t \<Longrightarrow> gen_inv s \<Longrightarrow> gen_inv t"
proof (induction rule: gen_step.induct)
  case (enter s i old clock)
  then show ?case by (auto simp: gen_inv_def point_ok_def)
next
  case (load s i now prev)
  then show ?case using candidate_greater [of prev now]
    by (auto simp: gen_inv_def point_ok_def)
next
  case (swap s i now prev)
  from swap.prems have "\<forall>j. point_ok (issued s) (point_of s j)" unfolding gen_inv_def by blast
  then have "point_ok (issued s) (Loaded now prev)" using swap(1) by metis
  then have p: "prev < now \<or> prev = -1" by (simp add: point_ok_def)
  have "sorted_wrt (>) (now # issued s)" if "-1 \<notin> set (now # issued s)"
  proof (cases "issued s")
    case (Cons x xs)
    with swap that p have "x < now" "sorted_wrt (>) (x # xs)" by (auto simp: gen_inv_def)
    with Cons show ?thesis by (auto dest: order.strict_trans)
  qed simp
  with swap show ?case
    by (auto simp: gen_inv_def intro: point_ok_mono) (auto simp: point_ok_def)
next
  case (retry s i now prev)
  then show ?case by (auto simp: gen_inv_def point_ok_def)
qed

lemma gen_inv_reach: "gen_reach initial s \<Longrightarrow> gen_inv s"
proof (induction rule: rtranclp_induct)
  case base
  show ?case by (simp add: gen_inv_def initial_def point_ok_def)
qed (rule gen_inv_step)

lemma format_word_inj: "inj (\<lambda>w :: int64. format_uint (unat w))"
proof (rule injI)
  fix v w :: int64
  assume "format_uint (unat v) = format_uint (unat w)"
  moreover have "unat v < 2 ^ 64" "unat w < 2 ^ 64"
    using unsigned_less [of v, where 'a=nat] unsigned_less [of w, where 'a=nat] by simp_all
  ultimately have "unat v = unat w" by (metis option.inject parse_uint_format_uint)
  then show "v = w" by (rule unsigned_word_eqI)
qed

section \<open>Properties\<close>

text \<open>
  C34: however the calls of any number of goroutines interleave, and whatever their clocks read
  (equal, or going backwards), the client message IDs they return are pairwise different, and each
  is larger than every one issued before it, as long as the counter has not come to the last 64-bit
  value (which, in nanoseconds, is the year 2554).
\<close>

theorem client_ids_unique:
  assumes "gen_reach initial s" and "-1 \<notin> set (issued s)"
  shows "sorted_wrt (>) (issued s) \<and> distinct (map (\<lambda>w. format_uint (unat w)) (issued s))"
proof -
  have "sorted_wrt (>) (issued s)" using gen_inv_reach [OF assms(1)] assms(2) by (simp add: gen_inv_def)
  moreover from this have "distinct (issued s)"
    by (metis distinct_rev sorted_wrt_rev strict_sorted_iff)
  ultimately show ?thesis
    by (auto simp: distinct_map intro: inj_on_subset [OF format_word_inj])
qed

text \<open>Two goroutines with the same clock: both load 0, the second swap fails and is retried.\<close>

definition raced :: shared where
  "raced = \<lparr>sendMessageCounter = 8, point_of = (\<lambda>_. Idle)(0 := Returned 7, Suc 0 := Returned 8),
     issued = [8, 7]\<rparr>"

lemma raced_reachable: "gen_reach initial raced"
proof -
  define st where "st c p q ids = \<lparr>sendMessageCounter = c, point_of = (\<lambda>_. Idle)(0 := p, Suc 0 := q),
      issued = ids\<rparr>" for c p q ids
  have "(\<lambda>_. Idle) = (\<lambda>_. Idle)(0 := Idle, Suc 0 := Idle :: point)" by auto
  then have "initial = st 0 Idle Idle []" by (simp add: initial_def st_def)
  moreover have "gen_step (st 0 Idle Idle []) (st 0 (Head 7) Idle [])"
    using enter [of "st 0 Idle Idle []" 0 0 7] by (simp add: st_def fun_upd_twist)
  moreover have "gen_step (st 0 (Head 7) Idle []) (st 0 (Head 7) (Head 7) [])"
    using enter [of "st 0 (Head 7) Idle []" "Suc 0" 0 7] by (simp add: st_def)
  moreover have "gen_step (st 0 (Head 7) (Head 7) []) (st 0 (Loaded 7 0) (Head 7) [])"
    using load [of "st 0 (Head 7) (Head 7) []" 0 7 0] by (simp add: st_def candidate_def fun_upd_twist)
  moreover have "gen_step (st 0 (Loaded 7 0) (Head 7) []) (st 0 (Loaded 7 0) (Loaded 7 0) [])"
    using load [of "st 0 (Loaded 7 0) (Head 7) []" "Suc 0" 7 0] by (simp add: st_def candidate_def)
  moreover have "gen_step (st 0 (Loaded 7 0) (Loaded 7 0) []) (st 7 (Returned 7) (Loaded 7 0) [7])"
    using swap [of "st 0 (Loaded 7 0) (Loaded 7 0) []" 0 7 0] by (simp add: st_def fun_upd_twist)
  moreover have "gen_step (st 7 (Returned 7) (Loaded 7 0) [7]) (st 7 (Returned 7) (Head 7) [7])"
    using retry [of "st 7 (Returned 7) (Loaded 7 0) [7]" "Suc 0" 7 0] by (simp add: st_def)
  moreover have "gen_step (st 7 (Returned 7) (Head 7) [7]) (st 7 (Returned 7) (Loaded 8 7) [7])"
    using load [of "st 7 (Returned 7) (Head 7) [7]" "Suc 0" 7 7] by (simp add: st_def candidate_def)
  moreover have "gen_step (st 7 (Returned 7) (Loaded 8 7) [7]) raced"
    using swap [of "st 7 (Returned 7) (Loaded 8 7) [7]" "Suc 0" 8 7] by (simp add: st_def raced_def)
  ultimately show ?thesis by (metis (no_types) converse_rtranclp_into_rtranclp rtranclp.rtrancl_refl)
qed

theorem client_ids_unique_witness:
  "sorted_wrt (>) (issued raced) \<and> distinct (map (\<lambda>w. format_uint (unat w)) (issued raced))"
  by (rule client_ids_unique [OF raced_reachable]) (simp add: raced_def)

text \<open>An undisturbed call is a run of the relation, and ends with the ID of the sequential function.\<close>

lemma GenerateClientMessageID_run:
  assumes "point_of s i = Idle"
  shows "\<exists>t. gen_reach s t
    \<and> point_of t i = Returned (snd (GenerateClientMessageID now (sendMessageCounter s)))
    \<and> sendMessageCounter t = snd (GenerateClientMessageID now (sendMessageCounter s))"
proof -
  define c where "c = candidate now (sendMessageCounter s)"
  define a where "a = s\<lparr>point_of := (point_of s)(i := Head now)\<rparr>"
  define b where "b = a\<lparr>point_of := (point_of a)(i := Loaded c (sendMessageCounter a))\<rparr>"
  define d where "d = \<lparr>sendMessageCounter = c, point_of = (point_of b)(i := Returned c),
    issued = c # issued b\<rparr>"
  have "gen_step s a" unfolding a_def using assms by (blast intro: enter)
  moreover have "gen_step a b"
    using load [of a i now "sendMessageCounter a"] by (simp add: a_def b_def c_def)
  moreover have "gen_step b d"
    using swap [of b i c "sendMessageCounter b"] by (simp add: b_def d_def)
  ultimately have "gen_reach s d"
    by (rule converse_rtranclp_into_rtranclp [OF _ converse_rtranclp_into_rtranclp
          [OF _ r_into_rtranclp]])
  then show ?thesis
    by (intro exI [of _ d]) (simp add: GenerateClientMessageID_def c_def d_def Let_def)
qed

end
