(* ===== verification/ConsumerClient.thy ===== *)
theory ConsumerClient
  imports Http Message Conversation ClientID "HOL-Library.Multiset"
begin

text \<open>
  \<open>internal/teams/client\<close>: the Teams consumer client. Listing messages and conversations, sending
  messages, GIFs, attachments, reactions, receipts and typing notifications, and the generator of
  client message IDs. The requests go through the retry loop of theory \<open>Executor\<close>; the two
  unretried GETs use the exchange of attempt 1 of the same environment.

  \<open>until\<close> is the clock of \<open>Retry-After\<close> dates, \<open>now\<close> the formatted time a payload carries, and
  \<open>srt\<close> is \<open>sort.Slice\<close>. The log lines are in theory \<open>RequestLog\<close>.
\<close>

section \<open>The client\<close>

record Client =
  cl_HTTP :: bool \<comment> \<open>the HTTP client is there\<close>
  cl_Executor :: "executor option"
  cl_ConversationsURL :: string
  cl_MessagesURL :: string
  cl_SendMessagesURL :: string
  cl_ConsumptionHorizonsURL :: string
  cl_Token :: string

definition defaultConversationsURL :: string where
  "defaultConversationsURL = ''https://teams.live.com/api/chatsvc/consumer/v1/users/ME/conversations''"

definition defaultMessagesURL :: string where
  "defaultMessagesURL = ''https://msgapi.teams.live.com/v1/users/ME/conversations''"

definition defaultSendMessagesURL :: string where
  "defaultSendMessagesURL = ''https://teams.live.com/api/chatsvc/consumer/v1/users/ME/conversations''"

definition defaultConsumptionHorizonsURL :: string where
  "defaultConsumptionHorizonsURL = ''https://teams.live.com/api/chatsvc/consumer/v1/threads''"

definition NewClient :: "bool \<Rightarrow> Client" where
  "NewClient http = \<lparr>cl_HTTP = http, cl_Executor = Some (defaultExecutor\<lparr>ex_has_http := http\<rparr>),
     cl_ConversationsURL = defaultConversationsURL, cl_MessagesURL = [],
     cl_SendMessagesURL = defaultSendMessagesURL,
     cl_ConsumptionHorizonsURL = defaultConsumptionHorizonsURL, cl_Token = []\<rparr>"

definition ErrMissingHTTPClient :: go_error where
  "ErrMissingHTTPClient = ErrNew ''consumer client missing http client''"

definition ErrMissingToken :: go_error where
  "ErrMissingToken = ErrNew ''consumer client missing skypetoken''"

text \<open>The first two checks of every call: the error, or the client.\<close>

definition client_ready :: "Client option \<Rightarrow> go_error + Client" where
  "client_ready c =
     (case c of None \<Rightarrow> Inl ErrMissingHTTPClient
      | Some cl \<Rightarrow>
          if \<not> cl_HTTP cl then Inl ErrMissingHTTPClient
          else if cl_Token cl = [] then Inl ErrMissingToken
          else Inr cl)"

definition base_url :: "string \<Rightarrow> string \<Rightarrow> string" where
  "base_url configured fallback = trim_suffix (if configured = [] then fallback else configured) ''/''"

definition auth_header :: "string \<Rightarrow> string \<times> string" where
  "auth_header token = (''authentication'', ''skypetoken='' @ token)"

definition get_headers :: "string \<Rightarrow> (string \<times> string) list" where
  "get_headers token = [auth_header token, (''Accept'', ''application/json'')]"

definition post_headers :: "string \<Rightarrow> (string \<times> string) list" where
  "post_headers token = get_headers token @ [(''Content-Type'', ''application/json'')]"

section \<open>Sending through the executor\<close>

text \<open>
  What a call leaves behind: the client (whose executor may have been created), the status it
  returns, its error, and the events of the retry loop.
\<close>

type_synonym call = "Client option \<times> int \<times> go_error option \<times> exec_event list"

definition refuse :: "Client option \<Rightarrow> go_error \<Rightarrow> call" where
  "refuse c e = (c, 0, Some e, [])"

definition client_executor :: "Client \<Rightarrow> executor" where
  "client_executor c =
     (let ex = (case cl_Executor c of
                  None \<Rightarrow> defaultExecutor\<lparr>ex_has_http := cl_HTTP c\<rparr>
                | Some ex \<Rightarrow> ex)
      in if ex_has_http ex then ex else ex\<lparr>ex_has_http := cl_HTTP c\<rparr>)"

definition run_request ::
  "exec_env \<Rightarrow> Client \<Rightarrow> (response option \<Rightarrow> go_error option) \<Rightarrow> request \<Rightarrow> call" where
  "run_request E c classify req =
     (let ex = client_executor c
      in case Do E (Some ex) (Some req) (Some classify) of
           (resp, Some err, log) \<Rightarrow>
             (Some (c\<lparr>cl_Executor := Some ex\<rparr>),
              (case resp of Some r \<Rightarrow> resp_status r | None \<Rightarrow> 0), Some err, log)
         | (resp, None, log) \<Rightarrow>
             (Some (c\<lparr>cl_Executor := Some ex\<rparr>),
              (case resp of Some r \<Rightarrow> resp_status r | None \<Rightarrow> 0), None, log))"

text \<open>Build the request and run it.\<close>

definition submit ::
  "golib \<Rightarrow> exec_env \<Rightarrow> Client \<Rightarrow> (response option \<Rightarrow> go_error option)
     \<Rightarrow> string \<Rightarrow> string \<Rightarrow> json \<Rightarrow> call" where
  "submit L E c classify meth endpoint payload =
     (case new_request L meth endpoint (Some (lib_marshal L payload)) (post_headers (cl_Token c)) of
        Inl err \<Rightarrow> refuse (Some c) err
      | Inr req \<Rightarrow> run_request E c classify req)"

definition messages_endpoint :: "Client \<Rightarrow> string \<Rightarrow> string" where
  "messages_endpoint c threadID =
     base_url (cl_SendMessagesURL c) defaultSendMessagesURL @ ''/'' @ path_escape threadID @ ''/messages''"

definition sendRichTextMessageWithID ::
  "golib \<Rightarrow> exec_env \<Rightarrow> (string \<Rightarrow> duration option) \<Rightarrow> string \<Rightarrow> Client option \<Rightarrow> string \<Rightarrow> string
     \<Rightarrow> string \<Rightarrow> string \<Rightarrow> string \<Rightarrow> bool \<Rightarrow> call"
where
  "sendRichTextMessageWithID L E until now c threadID htmlContent filesProperty fromUserID
       clientMessageID allowEmptyContent =
     (case client_ready c of
        Inl err \<Rightarrow> refuse c err
      | Inr cl \<Rightarrow>
        (let threadID = trim_space threadID
         in if threadID = [] then refuse c (ErrNew ''missing thread id'')
            else if \<not> allowEmptyContent \<and> trim_space htmlContent = []
              then refuse c (ErrNew ''missing message content'')
            else if trim_space fromUserID = [] then refuse c (ErrNew ''missing from user id'')
            else if clientMessageID = [] then refuse c (ErrNew ''missing client message id'')
            else submit L E cl (classifyTeamsSendResponse until) ''POST''
              (messages_endpoint cl threadID)
              (json_map
                 ([(''type'', JString ''Message''), (''conversationid'', JString threadID),
                   (''content'', JString htmlContent), (''messagetype'', JString ''RichText/Html''),
                   (''contenttype'', JString ''Text''), (''clientmessageid'', JString clientMessageID),
                   (''composetime'', JString now), (''originalarrivaltime'', JString now),
                   (''from'', JString fromUserID), (''fromUserId'', JString fromUserID)]
                  @ (if trim_space filesProperty \<noteq> []
                     then [(''properties'', json_map [(''files'', JString filesProperty)])]
                     else [])))))"

text \<open>\<open>formatHTMLContent\<close> and \<open>formatGIFContent\<close>.\<close>

definition formatHTMLContent :: "string \<Rightarrow> string" where
  "formatHTMLContent txt =
     (let normalized = replace_all txt [CHR 0x0D, CHR 0x0A] [CHR 0x0A];
          normalized = replace_all normalized [CHR 0x0D] [CHR 0x0A];
          escaped = escape_string normalized;
          escaped = replace_all escaped [CHR 0x0A] ''<br>''
      in ''<p>'' @ escaped @ ''</p>'')"

definition quoted :: "string \<Rightarrow> string" where
  "quoted s = [CHR 0x22] @ s @ [CHR 0x22]"

definition formatGIFContent :: "string \<Rightarrow> string \<Rightarrow> string" where
  "formatGIFContent gifURL title =
     (let gifURL = trim_space gifURL;
          label = trim_space title;
          label = (if label = [] then ''GIF'' else label);
          fullLabel = label @ '' (GIF Image)''
      in ''<p>&nbsp;</p><readonly title='' @ quoted (escape_string fullLabel)
         @ '' itemtype='' @ quoted ''http://schema.skype.com/Giphy''
         @ '' contenteditable='' @ quoted ''false''
         @ '' aria-label='' @ quoted (escape_string fullLabel)
         @ ''><img style='' @ quoted ''height:auto;margin-top:4px;max-width:100%;''
         @ '' alt='' @ quoted (escape_string fullLabel)
         @ '' height='' @ quoted ''250'' @ '' width='' @ quoted ''350''
         @ '' src='' @ quoted (escape_string gifURL)
         @ '' itemtype='' @ quoted ''http://schema.skype.com/Giphy''
         @ ''></readonly><p>&nbsp;</p>'')"

definition sendHTMLMessageWithID ::
  "golib \<Rightarrow> exec_env \<Rightarrow> (string \<Rightarrow> duration option) \<Rightarrow> string \<Rightarrow> Client option \<Rightarrow> string \<Rightarrow> string
     \<Rightarrow> string \<Rightarrow> string \<Rightarrow> call"
where
  "sendHTMLMessageWithID L E until now c threadID htmlContent fromUserID clientMessageID =
     sendRichTextMessageWithID L E until now c threadID htmlContent [] fromUserID clientMessageID False"

definition SendMessageWithID ::
  "golib \<Rightarrow> exec_env \<Rightarrow> (string \<Rightarrow> duration option) \<Rightarrow> string \<Rightarrow> Client option \<Rightarrow> string \<Rightarrow> string
     \<Rightarrow> string \<Rightarrow> string \<Rightarrow> call"
where
  "SendMessageWithID L E until now c threadID txt fromUserID clientMessageID =
     sendHTMLMessageWithID L E until now c threadID (formatHTMLContent txt) fromUserID clientMessageID"

definition SendGIFWithID ::
  "golib \<Rightarrow> exec_env \<Rightarrow> (string \<Rightarrow> duration option) \<Rightarrow> string \<Rightarrow> Client option \<Rightarrow> string \<Rightarrow> string
     \<Rightarrow> string \<Rightarrow> string \<Rightarrow> string \<Rightarrow> call"
where
  "SendGIFWithID L E until now c threadID gifURL title fromUserID clientMessageID =
     sendHTMLMessageWithID L E until now c threadID (formatGIFContent gifURL title) fromUserID
       clientMessageID"

definition SendAttachmentMessageWithID ::
  "golib \<Rightarrow> exec_env \<Rightarrow> (string \<Rightarrow> duration option) \<Rightarrow> string \<Rightarrow> Client option \<Rightarrow> string \<Rightarrow> string
     \<Rightarrow> string \<Rightarrow> string \<Rightarrow> string \<Rightarrow> call"
where
  "SendAttachmentMessageWithID L E until now c threadID htmlContent filesProperty fromUserID
       clientMessageID =
     (if trim_space filesProperty = [] then refuse c (ErrNew ''missing files property'')
      else sendRichTextMessageWithID L E until now c threadID htmlContent filesProperty fromUserID
             clientMessageID True)"

text \<open>
  \<open>SendMessage\<close> and \<open>SendGIF\<close> draw a fresh ID first and return it, whatever becomes of the request.
\<close>

definition SendMessage ::
  "golib \<Rightarrow> exec_env \<Rightarrow> (string \<Rightarrow> duration option) \<Rightarrow> string \<Rightarrow> int64 \<Rightarrow> int64 \<Rightarrow> Client option
     \<Rightarrow> string \<Rightarrow> string \<Rightarrow> string \<Rightarrow> string \<times> go_error option \<times> int64"
where
  "SendMessage L E until now clock counter c threadID txt fromUserID =
     (let (clientMessageID, counter') = GenerateClientMessageID clock counter;
          (_, _, err, _) = SendMessageWithID L E until now c threadID txt fromUserID clientMessageID
      in (clientMessageID, err, counter'))"

definition SendGIF ::
  "golib \<Rightarrow> exec_env \<Rightarrow> (string \<Rightarrow> duration option) \<Rightarrow> string \<Rightarrow> int64 \<Rightarrow> int64 \<Rightarrow> Client option
     \<Rightarrow> string \<Rightarrow> string \<Rightarrow> string \<Rightarrow> string \<Rightarrow> string \<times> go_error option \<times> int64"
where
  "SendGIF L E until now clock counter c threadID gifURL title fromUserID =
     (let (clientMessageID, counter') = GenerateClientMessageID clock counter;
          (_, _, err, _) = SendGIFWithID L E until now c threadID gifURL title fromUserID clientMessageID
      in (clientMessageID, err, counter'))"

section \<open>Receipts, typing, reactions\<close>

definition SetConsumptionHorizon ::
  "golib \<Rightarrow> exec_env \<Rightarrow> (string \<Rightarrow> duration option) \<Rightarrow> Client option \<Rightarrow> string \<Rightarrow> string \<Rightarrow> call"
where
  "SetConsumptionHorizon L E until c threadID horizon =
     (case client_ready c of
        Inl err \<Rightarrow> refuse c err
      | Inr cl \<Rightarrow>
        (let threadID = trim_space threadID; horizon = trim_space horizon
         in if threadID = [] then refuse c (ErrNew ''missing thread id'')
            else if horizon = [] then refuse c (ErrNew ''missing consumption horizon'')
            else submit L E cl (classifyTeamsReceiptResponse until) ''PUT''
              (base_url (cl_SendMessagesURL cl) defaultSendMessagesURL @ ''/'' @ path_escape threadID
                 @ ''/properties?name=consumptionhorizon'')
              (json_map [(''consumptionhorizon'', JString horizon)])))"

definition SendTypingIndicator ::
  "golib \<Rightarrow> exec_env \<Rightarrow> (string \<Rightarrow> duration option) \<Rightarrow> string \<Rightarrow> string \<Rightarrow> Client option \<Rightarrow> string
     \<Rightarrow> string \<Rightarrow> call"
where
  "SendTypingIndicator L E until now clientMessageID c threadID fromUserID =
     (case client_ready c of
        Inl err \<Rightarrow> refuse c err
      | Inr cl \<Rightarrow>
        (let threadID = trim_space threadID; fromUserID = trim_space fromUserID
         in if threadID = [] then refuse c (ErrNew ''missing thread id'')
            else if fromUserID = [] then refuse c (ErrNew ''missing from user id'')
            else submit L E cl (classifyTeamsTypingResponse until) ''POST''
              (messages_endpoint cl threadID)
              (json_map
                 [(''type'', JString ''Message''), (''conversationid'', JString threadID),
                  (''messagetype'', JString ''Control/Typing''), (''contenttype'', JString ''Text''),
                  (''clientmessageid'', JString clientMessageID),
                  (''composetime'', JString now), (''originalarrivaltime'', JString now),
                  (''from'', JString fromUserID), (''fromUserId'', JString fromUserID)])))"

definition sendReaction ::
  "golib \<Rightarrow> exec_env \<Rightarrow> (string \<Rightarrow> duration option) \<Rightarrow> Client \<Rightarrow> string \<Rightarrow> string \<Rightarrow> string \<Rightarrow> json
     \<Rightarrow> call"
where
  "sendReaction L E until cl meth threadID teamsMessageID payload =
     submit L E cl (classifyTeamsReactionResponse until) meth
       (base_url (cl_SendMessagesURL cl) defaultSendMessagesURL @ ''/'' @ path_escape threadID
          @ ''/messages/'' @ path_escape teamsMessageID @ ''/properties?name=emotions'')
       payload"

definition AddReaction ::
  "golib \<Rightarrow> exec_env \<Rightarrow> (string \<Rightarrow> duration option) \<Rightarrow> Client option \<Rightarrow> string \<Rightarrow> string \<Rightarrow> string
     \<Rightarrow> int \<Rightarrow> call"
where
  "AddReaction L E until c threadID teamsMessageID emotionKey appliedAtMS =
     (case client_ready c of
        Inl err \<Rightarrow> refuse c err
      | Inr cl \<Rightarrow>
        (let threadID = trim_space threadID; teamsMessageID = trim_space teamsMessageID
         in if threadID = [] then refuse c (ErrNew ''missing thread id'')
            else if teamsMessageID = [] then refuse c (ErrNew ''missing teams message id'')
            else if trim_space emotionKey = [] then refuse c (ErrNew ''missing emotion key'')
            else if appliedAtMS = 0 then refuse c (ErrNew ''missing applied timestamp'')
            else sendReaction L E until cl ''PUT'' threadID teamsMessageID
              (json_map [(''emotions'', json_map [(''key'', JString emotionKey),
                 (''value'', JNumber (format_int appliedAtMS))])])))"

definition RemoveReaction ::
  "golib \<Rightarrow> exec_env \<Rightarrow> (string \<Rightarrow> duration option) \<Rightarrow> Client option \<Rightarrow> string \<Rightarrow> string \<Rightarrow> string
     \<Rightarrow> call"
where
  "RemoveReaction L E until c threadID teamsMessageID emotionKey =
     (case client_ready c of
        Inl err \<Rightarrow> refuse c err
      | Inr cl \<Rightarrow>
        (let threadID = trim_space threadID; teamsMessageID = trim_space teamsMessageID
         in if threadID = [] then refuse c (ErrNew ''missing thread id'')
            else if teamsMessageID = [] then refuse c (ErrNew ''missing teams message id'')
            else if trim_space emotionKey = [] then refuse c (ErrNew ''missing emotion key'')
            else sendReaction L E until cl ''DELETE'' threadID teamsMessageID
              (json_map [(''emotions'', json_map [(''key'', JString emotionKey)])])))"

section \<open>Reading: conversations, messages, horizons\<close>

text \<open>One GET without retries; the body of a 2xx response is decoded by \<open>decode\<close>.\<close>

definition fetch_json ::
  "status_error_kind \<Rightarrow> golib \<Rightarrow> (request \<Rightarrow> net_error + response) \<Rightarrow> (string \<Rightarrow> duration option)
     \<Rightarrow> string \<Rightarrow> (json \<Rightarrow> 'a option) \<Rightarrow> string \<Rightarrow> go_error + 'a"
where
  "fetch_json kind L http until token decode endpoint =
     (case new_request L ''GET'' endpoint None (get_headers token) of
        Inl err \<Rightarrow> Inl err
      | Inr req \<Rightarrow>
        (case http req of
           Inl err \<Rightarrow> Inl (NetErr err)
         | Inr resp \<Rightarrow>
             if resp_status resp < 200 \<or> 300 \<le> resp_status resp then
               (if resp_status resp = 429
                then Inl (RetryableError (resp_status resp)
                            (parse_retry_after until (resp_retry_after resp)) None)
                else if 500 \<le> resp_status resp then Inl (RetryableError (resp_status resp) 0 None)
                else Inl (StatusError kind (resp_status resp)
                            (fst (read_limited maxErrorBodyBytes resp))))
             else
               (case read_all resp of
                  (_, Some err) \<Rightarrow> Inl err
                | (body, None) \<Rightarrow>
                    (case Option.bind (lib_json L body) decode of
                       None \<Rightarrow> Inl (ErrNew ''invalid json'')
                     | Some v \<Rightarrow> Inr v))))"

definition fetchJSON ::
  "golib \<Rightarrow> (request \<Rightarrow> net_error + response) \<Rightarrow> (string \<Rightarrow> duration option) \<Rightarrow> Client
     \<Rightarrow> string \<Rightarrow> (json \<Rightarrow> 'a option) \<Rightarrow> go_error + 'a"
where
  "fetchJSON L http until c endpoint decode =
     fetch_json MessagesError L http until (cl_Token c) decode endpoint"

definition fetchConsumptionHorizonsJSON ::
  "golib \<Rightarrow> (request \<Rightarrow> net_error + response) \<Rightarrow> (string \<Rightarrow> duration option) \<Rightarrow> Client
     \<Rightarrow> string \<Rightarrow> (json \<Rightarrow> 'a option) \<Rightarrow> go_error + 'a"
where
  "fetchConsumptionHorizonsJSON L http until c endpoint decode =
     fetch_json ConsumptionHorizonsError L http until (cl_Token c) decode endpoint"

text \<open>The payload of the conversations list.\<close>

definition thread_fields :: "(string \<times> ThreadProperties member) list" where
  "thread_fields =
     [(''originalThreadId'', put_string tp_OriginalThreadID_update),
      (''productThreadType'', put_string tp_ProductThreadType_update),
      (''createdat'', put_string tp_CreatedAt_update),
      (''isCreator'', put_bool tp_IsCreator_update),
      (''topic'', put_string tp_Topic_update), (''threadTopic'', put_string tp_ThreadTopic_update),
      (''title'', put_string tp_Title_update), (''displayName'', put_string tp_DisplayName_update),
      (''name'', put_string tp_Name_update)]"

definition member_fields :: "(string \<times> ConversationMember member) list" where
  "member_fields =
     [(''id'', put_string cm_ID_update), (''mri'', put_string cm_MRI_update),
      (''displayName'', put_string cm_DisplayName_update), (''name'', put_string cm_Name_update),
      (''isSelf'', put_bool cm_IsSelf_update), (''isCurrentUser'', put_bool cm_IsCurrentUser_update)]"

definition property_fields :: "(string \<times> ConversationProperties member) list" where
  "property_fields =
     [(''topic'', put_string cp_Topic_update), (''threadTopic'', put_string cp_ThreadTopic_update),
      (''title'', put_string cp_Title_update), (''displayName'', put_string cp_DisplayName_update),
      (''name'', put_string cp_Name_update)]"

definition no_member :: ConversationMember where
  "no_member = \<lparr>cm_ID = [], cm_MRI = [], cm_DisplayName = [], cm_Name = [], cm_IsSelf = False,
     cm_IsCurrentUser = False\<rparr>"

definition no_conversation :: RemoteConversation where
  "no_conversation = \<lparr>rc_ID = [],
     rc_ThreadProperties = \<lparr>tp_OriginalThreadID = [], tp_ProductThreadType = [], tp_CreatedAt = [],
       tp_IsCreator = False, tp_Topic = [], tp_ThreadTopic = [], tp_Title = [], tp_DisplayName = [],
       tp_Name = []\<rparr>,
     rc_Topic = [], rc_Title = [], rc_DisplayName = [], rc_Name = [],
     rc_Properties = \<lparr>cp_Topic = [], cp_ThreadTopic = [], cp_Title = [], cp_DisplayName = [],
       cp_Name = []\<rparr>,
     rc_Members = [], rc_Participants = [], rc_Consumers = []\<rparr>"

definition decode_member :: "golib \<Rightarrow> json \<Rightarrow> ConversationMember option" where
  "decode_member L v = decode_struct L member_fields v no_member"

definition conversation_fields :: "golib \<Rightarrow> (string \<times> RemoteConversation member) list" where
  "conversation_fields L =
     [(''id'', put_string rc_ID_update),
      (''threadProperties'', put_struct L thread_fields rc_ThreadProperties rc_ThreadProperties_update),
      (''topic'', put_string rc_Topic_update), (''title'', put_string rc_Title_update),
      (''displayName'', put_string rc_DisplayName_update), (''name'', put_string rc_Name_update),
      (''properties'', put_struct L property_fields rc_Properties rc_Properties_update),
      (''members'', put_list (decode_member L) rc_Members_update),
      (''participants'', put_list (decode_member L) rc_Participants_update),
      (''consumers'', put_list (decode_member L) rc_Consumers_update)]"

definition decode_conversation :: "golib \<Rightarrow> json \<Rightarrow> RemoteConversation option" where
  "decode_conversation L v = decode_struct L (conversation_fields L) v no_conversation"

definition decode_conversations :: "golib \<Rightarrow> json \<Rightarrow> RemoteConversation list option" where
  "decode_conversations L v =
     decode_struct L [(''conversations'', put_list (decode_conversation L) (\<lambda>f. f))] v []"

text \<open>The conversations list knows no retryable status.\<close>

definition ListConversations ::
  "golib \<Rightarrow> (request \<Rightarrow> net_error + response) \<Rightarrow> Client option \<Rightarrow> string
     \<Rightarrow> go_error + RemoteConversation list"
where
  "ListConversations L http c token =
     (case c of None \<Rightarrow> Inl ErrMissingHTTPClient
      | Some cl \<Rightarrow>
        if \<not> cl_HTTP cl then Inl ErrMissingHTTPClient
        else
          (let endpoint = (if cl_ConversationsURL cl = [] then defaultConversationsURL
                           else cl_ConversationsURL cl)
           in case new_request L ''GET'' endpoint None (get_headers token) of
                Inl err \<Rightarrow> Inl err
              | Inr req \<Rightarrow>
                (case http req of
                   Inl err \<Rightarrow> Inl (NetErr err)
                 | Inr resp \<Rightarrow>
                     if resp_status resp < 200 \<or> 300 \<le> resp_status resp
                     then Inl (StatusError ConversationsError (resp_status resp)
                                 (fst (read_limited maxErrorBodyBytes resp)))
                     else
                       (case read_all resp of
                          (_, Some err) \<Rightarrow> Inl err
                        | (body, None) \<Rightarrow>
                            (case Option.bind (lib_json L body) (decode_conversations L) of
                               None \<Rightarrow> Inl (ErrNew ''invalid json'')
                             | Some v \<Rightarrow> Inr v)))))"

definition normalizeSequenceID :: "golib \<Rightarrow> string \<Rightarrow> go_error + string" where
  "normalizeSequenceID L value =
     (if value = [] then Inr []
      else case unmarshal_string L value of
        Some s \<Rightarrow> Inr s
      | None \<Rightarrow>
        (case lib_json L value of
           Some (JNumber n) \<Rightarrow> Inr n
         | _ \<Rightarrow> Inl (ErrNew ''invalid sequenceId'')))"

record remoteMessage =
  raw_ID :: string
  raw_ClientMessageID :: string
  raw_SequenceID :: string
  raw_OriginalArrivalTime :: string
  raw_From :: string
  raw_IMDisplayName :: string
  raw_FromDisplayNameInToken :: string
  raw_Content :: string
  raw_Properties :: string

definition no_message :: remoteMessage where
  "no_message = \<lparr>raw_ID = [], raw_ClientMessageID = [], raw_SequenceID = [],
     raw_OriginalArrivalTime = [], raw_From = [], raw_IMDisplayName = [],
     raw_FromDisplayNameInToken = [], raw_Content = [], raw_Properties = []\<rparr>"

definition message_fields :: "(string \<times> remoteMessage member) list" where
  "message_fields =
     [(''id'', put_string raw_ID_update), (''clientmessageid'', put_string raw_ClientMessageID_update),
      (''sequenceId'', put_raw raw_SequenceID_update),
      (''originalarrivaltime'', put_string raw_OriginalArrivalTime_update),
      (''from'', put_raw raw_From_update), (''imdisplayname'', put_string raw_IMDisplayName_update),
      (''fromDisplayNameInToken'', put_string raw_FromDisplayNameInToken_update),
      (''content'', put_raw raw_Content_update), (''properties'', put_raw raw_Properties_update)]"

definition decode_message :: "golib \<Rightarrow> json \<Rightarrow> remoteMessage option" where
  "decode_message L v = decode_struct L message_fields v no_message"

definition decode_messages :: "golib \<Rightarrow> json \<Rightarrow> remoteMessage list option" where
  "decode_messages L v =
     decode_struct L [(''messages'', put_list (decode_message L) (\<lambda>f. f))] v []"

definition read_message :: "golib \<Rightarrow> string \<Rightarrow> remoteMessage \<Rightarrow> RemoteMessage" where
  "read_message L sequenceID msg =
     (let content = ExtractContent L (raw_Content msg)
      in \<lparr>rm_MessageID = raw_ID msg, rm_ClientMessageID = raw_ClientMessageID msg,
          rm_SequenceID = sequenceID,
          rm_SenderID = NormalizeTeamsUserID (ExtractSenderID L (raw_From msg)),
          rm_SenderName = [],
          rm_IMDisplayName = raw_IMDisplayName msg,
          rm_TokenDisplayName = raw_FromDisplayNameInToken msg,
          rm_Timestamp = ParseTimestamp L (raw_OriginalArrivalTime msg),
          rm_Body = mc_Body content, rm_FormattedBody = mc_FormattedBody content,
          rm_GIFs = mc_GIFs content,
          rm_PropertiesFiles = ExtractFilesProperty L (raw_Properties msg),
          rm_Reactions = ExtractReactions L (raw_Properties msg)\<rparr>)"

text \<open>The loop over the payload, with the IDs already seen.\<close>

fun collect_messages ::
  "golib \<Rightarrow> string list \<Rightarrow> remoteMessage list \<Rightarrow> go_error + RemoteMessage list" where
  "collect_messages L seen [] = Inr []"
| "collect_messages L seen (msg # msgs) =
     (let msgID = trim_space (raw_ID msg)
      in if msgID \<noteq> [] \<and> msgID \<in> set seen then collect_messages L seen msgs
         else case normalizeSequenceID L (raw_SequenceID msg) of
           Inl err \<Rightarrow> Inl err
         | Inr sequenceID \<Rightarrow>
           (case collect_messages L (if msgID \<noteq> [] then msgID # seen else seen) msgs of
              Inl err \<Rightarrow> Inl err
            | Inr rest \<Rightarrow> Inr (read_message L sequenceID msg # rest)))"

type_synonym 'a sorter = "('a \<Rightarrow> 'a \<Rightarrow> bool) \<Rightarrow> 'a list \<Rightarrow> 'a list"

definition sequence_less :: "RemoteMessage \<Rightarrow> RemoteMessage \<Rightarrow> bool" where
  "sequence_less a b \<longleftrightarrow> CompareSequenceID (rm_SequenceID a) (rm_SequenceID b) < 0"

definition ListMessages ::
  "golib \<Rightarrow> RemoteMessage sorter \<Rightarrow> (request \<Rightarrow> net_error + response)
     \<Rightarrow> (string \<Rightarrow> duration option) \<Rightarrow> Client option \<Rightarrow> string \<Rightarrow> string
     \<Rightarrow> go_error + RemoteMessage list"
where
  "ListMessages L srt http until c conversationID sinceSequence =
     (case client_ready c of
        Inl err \<Rightarrow> Inl err
      | Inr cl \<Rightarrow>
        if conversationID = [] then Inl (ErrNew ''missing conversation id'')
        else
          (case fetchJSON L http until cl
                  (base_url (cl_MessagesURL cl) defaultMessagesURL @ ''/''
                     @ path_escape conversationID @ ''/messages'') (decode_messages L) of
             Inl err \<Rightarrow> Inl err
           | Inr payload \<Rightarrow>
             (case collect_messages L [] payload of
                Inl err \<Rightarrow> Inl err
              | Inr result \<Rightarrow> Inr (srt sequence_less result))))"

record ConsumptionHorizon =
  ch_ID :: string
  ch_ConsumptionHorizon :: string
  ch_MessageVisibilityTime :: int

record ConsumptionHorizonsResponse =
  hr_ID :: string
  hr_Version :: string
  hr_Horizons :: "ConsumptionHorizon list"

definition decode_horizon :: "golib \<Rightarrow> json \<Rightarrow> ConsumptionHorizon option" where
  "decode_horizon L v =
     decode_struct L
       [(''id'', put_string ch_ID_update), (''consumptionhorizon'', put_string ch_ConsumptionHorizon_update),
        (''messageVisibilityTime'', put_int64 ch_MessageVisibilityTime_update)] v
       \<lparr>ch_ID = [], ch_ConsumptionHorizon = [], ch_MessageVisibilityTime = 0\<rparr>"

definition decode_horizons :: "golib \<Rightarrow> json \<Rightarrow> ConsumptionHorizonsResponse option" where
  "decode_horizons L v =
     decode_struct L
       [(''id'', put_string hr_ID_update), (''version'', put_string hr_Version_update),
        (''consumptionhorizons'', put_list (decode_horizon L) hr_Horizons_update)] v
       \<lparr>hr_ID = [], hr_Version = [], hr_Horizons = []\<rparr>"

definition GetConsumptionHorizons ::
  "golib \<Rightarrow> (request \<Rightarrow> net_error + response) \<Rightarrow> (string \<Rightarrow> duration option)
     \<Rightarrow> Client option \<Rightarrow> string \<Rightarrow> go_error + ConsumptionHorizonsResponse"
where
  "GetConsumptionHorizons L http until c threadID =
     (case client_ready c of
        Inl err \<Rightarrow> Inl err
      | Inr cl \<Rightarrow>
        (let threadID = trim_space threadID
         in if threadID = [] then Inl (ErrNew ''missing thread id'')
            else fetchConsumptionHorizonsJSON L http until cl
              (base_url (cl_ConsumptionHorizonsURL cl) defaultConsumptionHorizonsURL @ ''/''
                 @ path_escape threadID @ ''/consumptionhorizons'') (decode_horizons L)))"

section \<open>Where requests go\<close>

text \<open>
  A request of client \<open>cl\<close> about thread \<open>t\<close>: the client's headers, and a URL below the configured
  base in which the thread ID is exactly one path segment.
\<close>

definition addressed :: "Client \<Rightarrow> string \<Rightarrow> request \<Rightarrow> bool" where
  "addressed cl t q \<longleftrightarrow>
     req_headers q = post_headers (cl_Token cl)
     \<and> prefix (base_url (cl_SendMessagesURL cl) defaultSendMessagesURL @ ''/''
                @ path_escape (trim_space t) @ ''/'') (req_url q)
     \<and> list_all (\<lambda>c. c \<notin> set ''/?#'') (path_escape (trim_space t))"

lemma path_escape_one_segment: "list_all (\<lambda>c. c \<notin> set ''/?#'') (path_escape s)"
proof -
  have "c \<noteq> CHR ''/'' \<and> c \<noteq> CHR ''?'' \<and> c \<noteq> CHR ''#''" if "c \<in> set (path_escape s)" for c
    using path_escape_segment [OF that] by (auto simp: path_safe_def is_digit_def)
  then show ?thesis by (auto simp: list_all_iff)
qed

lemma submit_attempts:
  assumes "submit L E c classify meth endpoint payload = (c', st, err, log)"
  shows "\<forall>q \<in> set (attempts log). req_url q = endpoint \<and> req_headers q = post_headers (cl_Token c)
    \<and> req_method q = meth \<and> req_body q = Some (lib_marshal L payload)"
  using assms
    Do_attempts [of E "client_executor c" "Some \<lparr>req_method = meth, req_url = endpoint,
      req_headers = post_headers (cl_Token c), req_body = Some (lib_marshal L payload),
      req_get_body = Some (Inr (lib_marshal L payload))\<rparr>" "Some classify"]
  by (auto simp: submit_def new_request_def refuse_def run_request_def Let_def same_request_def
      split: if_splits option.splits prod.splits)

lemma submit_addressed:
  "submit L E cl classify meth
     (base_url (cl_SendMessagesURL cl) defaultSendMessagesURL @ ''/'' @ path_escape (trim_space t)
        @ ''/'' @ rest) payload = (c', st, err, log) \<Longrightarrow>
   list_all (addressed cl t) (attempts log)"
  by (drule submit_attempts) (auto simp: list_all_iff addressed_def
      path_escape_one_segment [unfolded list_all_iff, simplified])

lemma submit_addressed_def:
  "submit L E cl classify meth (base_url (cl_SendMessagesURL cl) defaultSendMessagesURL
     @ CHR ''/'' # path_escape (trim_space t) @ CHR ''/'' # rest) payload = (c', st, err, log) \<Longrightarrow>
   list_all (addressed cl t) (attempts log)"
  using submit_addressed [of L E cl classify meth t rest payload c' st err log] by simp

lemma client_ready_Inr: "client_ready c = Inr cl \<longleftrightarrow> c = Some cl \<and> cl_HTTP cl \<and> cl_Token cl \<noteq> []"
  by (auto simp: client_ready_def split: option.splits)

text \<open>The five calls that change something on the server, with their arguments.\<close>

definition mutating_calls ::
  "golib \<Rightarrow> exec_env \<Rightarrow> (string \<Rightarrow> duration option) \<Rightarrow> string \<Rightarrow> string \<Rightarrow> Client option \<Rightarrow> string
     \<Rightarrow> string \<Rightarrow> string \<Rightarrow> string \<Rightarrow> bool \<Rightarrow> int \<Rightarrow> call list"
where
  "mutating_calls L E until now cid c t x y z b n =
     [sendRichTextMessageWithID L E until now c t x y z cid b, SetConsumptionHorizon L E until c t x,
      SendTypingIndicator L E until now cid c t z, AddReaction L E until c t x y n,
      RemoveReaction L E until c t x y]"

lemmas call_defs = sendRichTextMessageWithID_def SetConsumptionHorizon_def SendTypingIndicator_def
  AddReaction_def RemoveReaction_def sendReaction_def messages_endpoint_def

lemma refuse_attempts: "list_all P (attempts (snd (snd (snd (refuse c e)))))"
  by (simp add: refuse_def)

text \<open>
  Every request the client makes when it sends, reacts, acknowledges or types, retries
  included, carries the client's token in its \<open>authentication\<close> header and goes to a URL below the
  configured base in which the (trimmed) thread ID is one escaped path segment, so that no thread
  ID can lead to another endpoint.
\<close>

theorem calls_addressed:
  "list_all (\<lambda>(_, _, _, log). list_all (addressed cl t) (attempts log))
     (mutating_calls L E until now cid (Some cl) t x y z b n)"
proof -
  let ?ok = "\<lambda>call :: call. list_all (addressed cl t) (attempts (snd (snd (snd call))))"
  note simps = call_defs Let_def client_ready_def refuse_attempts
  have s: "?ok (submit L E cl classify meth (base_url (cl_SendMessagesURL cl) defaultSendMessagesURL
     @ CHR ''/'' # path_escape (trim_space t) @ CHR ''/'' # rest) payload)" for classify meth rest payload
    by (cases "submit L E cl classify meth (base_url (cl_SendMessagesURL cl) defaultSendMessagesURL
     @ CHR ''/'' # path_escape (trim_space t) @ CHR ''/'' # rest) payload")
      (simp add: submit_addressed_def)
  have "?ok (sendRichTextMessageWithID L E until now (Some cl) t x y z cid b)"
    using s [of _ _ "''messages''"] by (simp add: simps)
  moreover have "?ok (SetConsumptionHorizon L E until (Some cl) t x)"
    using s [of _ _ "''properties?name=consumptionhorizon''"] by (simp add: simps)
  moreover have "?ok (SendTypingIndicator L E until now cid (Some cl) t z)"
    using s [of _ _ "''messages''"] by (simp add: simps)
  moreover have "?ok (AddReaction L E until (Some cl) t x y n)"
    using s [of _ _ "''messages/'' @ path_escape (trim_space x) @ ''/properties?name=emotions''"]
    by (simp add: simps)
  moreover have "?ok (RemoveReaction L E until (Some cl) t x y)"
    using s [of _ _ "''messages/'' @ path_escape (trim_space x) @ ''/properties?name=emotions''"]
    by (simp add: simps)
  ultimately show ?thesis by (simp add: mutating_calls_def case_prod_beta)
qed

text \<open>
  Without an HTTP client, without a token, or with a thread ID that is blank, none of these
  calls makes a request: each returns status 0 and an error at once.
\<close>

theorem unready_calls_silent:
  assumes "c = None \<or> \<not> cl_HTTP (the c) \<or> cl_Token (the c) = [] \<or> trim_space t = []"
  shows "list_all (\<lambda>(c', st, err, log). c' = c \<and> st = 0 \<and> err \<noteq> None \<and> log = [])
    (mutating_calls L E until now cid c t x y z b n)"
  using assms by (cases c) (auto simp: mutating_calls_def call_defs client_ready_def refuse_def Let_def)

theorem unready_calls_silent_witness:
  "list_all (\<lambda>(c', st, err, log). c' = Some (NewClient True) \<and> st = 0 \<and> err \<noteq> None \<and> log = [])
    (mutating_calls plain_lib (scripted (\<lambda>_. 201)) (\<lambda>_. None) ''now'' ''1'' (Some (NewClient True))
       ''19:a@thread.v2'' ''hello'' [] ''8:me'' False 0)"
  by (rule unready_calls_silent) (simp add: NewClient_def)

section \<open>The text of a message\<close>

text \<open>The lines of a text: CR LF, CR and LF all end a line.\<close>

fun text_lines :: "string \<Rightarrow> string list" where
  "text_lines [] = [[]]"
| "text_lines (c # cs) =
     (if c = CHR 0x0D \<and> has_prefix cs [CHR 0x0A] then [] # text_lines (tl cs)
      else if c = CHR 0x0D \<or> c = CHR 0x0A then [] # text_lines cs
      else (case text_lines cs of [] \<Rightarrow> [[c]] | l # ls \<Rightarrow> (c # l) # ls))"

lemma text_lines_nonempty: "text_lines s \<noteq> []"
  by (induction s rule: text_lines.induct) (auto split: list.splits)

abbreviation unix_newlines :: "string \<Rightarrow> string" where
  "unix_newlines s \<equiv> replace_all (replace_all s [CHR 0x0D, CHR 0x0A] [CHR 0x0A]) [CHR 0x0D] [CHR 0x0A]"

lemma escape_break:
  "replace_all (escape_string s) [CHR 0x0A] ''<br>''
     = concat (map (\<lambda>c. if c = CHR 0x0A then ''<br>'' else escape_char c) s)"
  by (induction s) (auto simp: replace_all_byte escape_char_def)

lemma join_Cons_ne: "ls \<noteq> [] \<Longrightarrow> join (l # ls) sep = l @ sep @ join ls sep"
  by (cases ls) simp_all

lemma join_Cons_hd: "join ((l @ m) # ls) sep = l @ join (m # ls) sep"
  by (cases ls) simp_all

lemma text_lines_render:
  "concat (map (\<lambda>c. if c = CHR 0x0A then ''<br>'' else escape_char c) (unix_newlines s))
     = join (map escape_string (text_lines s)) ''<br>''"
proof (induction s rule: text_lines.induct)
  case (2 c cs)
  show ?case
  proof (cases "c = CHR 0x0D \<and> has_prefix cs [CHR 0x0A]")
    case True
    then obtain ds where "cs = CHR 0x0A # ds" by (auto simp: prefix_def)
    with True 2 show ?thesis
      by (auto simp: prefix_def replace_all_byte join_Cons_ne text_lines_nonempty)
  next
    case False
    then have n: "\<not> prefix [CHR 0x0D, CHR 0x0A] (c # cs)" by (auto simp: prefix_def)
    show ?thesis
    proof (cases "c = CHR 0x0D \<or> c = CHR 0x0A")
      case True
      with 2 False n show ?thesis
        by (auto simp: replace_all_byte join_Cons_ne text_lines_nonempty)
    next
      case other: False
      obtain l ls where "text_lines cs = l # ls" by (meson list.exhaust text_lines_nonempty)
      with 2 False n other show ?thesis
        by (auto simp: replace_all_byte join_Cons_hd)
    qed
  qed
qed simp

text \<open>
  The HTML body of a text message is one paragraph holding the lines of the text (ended by
  CR LF, CR or LF alike) separated by \<open><br>\<close>, each line escaped, so that the user's text adds no
  tag and no attribute to the markup.
\<close>

theorem formatHTMLContent_lines:
  "formatHTMLContent s = ''<p>'' @ join (map escape_string (text_lines s)) ''<br>'' @ ''</p>''
   \<and> list_all (\<lambda>l. list_all (\<lambda>c. c \<noteq> CHR ''<'' \<and> c \<noteq> CHR ''>'' \<and> c \<noteq> CHR 0x22) (escape_string l))
       (text_lines s)"
  using escape_string_safe
  by (auto simp: formatHTMLContent_def Let_def escape_break text_lines_render list_all_iff)

section \<open>Listing messages\<close>

text \<open>
  What \<open>sort.Slice\<close> documents: the result is a permutation, and it is sorted when the
  comparison is a strict weak order on the elements.
\<close>

definition weak_order :: "('a \<Rightarrow> 'a \<Rightarrow> bool) \<Rightarrow> 'a set \<Rightarrow> bool" where
  "weak_order lt S \<longleftrightarrow>
     (\<forall>x \<in> S. \<forall>y \<in> S. \<forall>z \<in> S. \<not> lt x x \<and> (lt x y \<longrightarrow> lt y z \<longrightarrow> lt x z)
        \<and> (\<not> lt x y \<longrightarrow> \<not> lt y z \<longrightarrow> \<not> lt x z))"

lemma weak_orderD:
  assumes "weak_order lt S" and "x \<in> S" and "y \<in> S" and "z \<in> S"
  shows "\<not> lt x x \<and> (lt x y \<longrightarrow> lt y z \<longrightarrow> lt x z) \<and> (\<not> lt x y \<longrightarrow> \<not> lt y z \<longrightarrow> \<not> lt x z)"
  using assms unfolding weak_order_def by blast

lemma weak_order_mono: "weak_order lt S \<Longrightarrow> T \<subseteq> S \<Longrightarrow> weak_order lt T"
  unfolding weak_order_def by (intro ballI) (meson subsetD)

locale slice_sorter =
  fixes srt :: "'a sorter"
  assumes permutes: "mset (srt lt xs) = mset xs"
    and sorts: "weak_order lt (set xs) \<Longrightarrow> sorted_wrt (\<lambda>x y. \<not> lt y x) (srt lt xs)"
begin

lemma set_sorted: "set (srt lt xs) = set xs"
  using permutes by (metis set_mset_mset)

lemma distinct_map_sorted: "distinct (filter P (map f xs)) \<Longrightarrow> distinct (filter P (map f (srt lt xs)))"
proof -
  have "mset (filter P (map f (srt lt xs))) = mset (filter P (map f xs))"
    by (simp only: mset_filter mset_map permutes)
  then show "distinct (filter P (map f xs)) \<Longrightarrow> ?thesis" using mset_eq_imp_distinct_iff by blast
qed

end

text \<open>The insertion sort Go uses on slices of up to twelve elements.\<close>

fun insert_by :: "('a \<Rightarrow> 'a \<Rightarrow> bool) \<Rightarrow> 'a \<Rightarrow> 'a list \<Rightarrow> 'a list" where
  "insert_by lt x [] = [x]"
| "insert_by lt x (y # ys) = (if lt y x then y # insert_by lt x ys else x # y # ys)"

definition insertion_sort :: "'a sorter" where
  "insertion_sort lt xs = foldr (insert_by lt) xs []"

lemma mset_insert_by [simp]: "mset (insert_by lt x ys) = add_mset x (mset ys)"
  by (induction ys) auto

lemma set_insert_by [simp]: "set (insert_by lt x ys) = insert x (set ys)"
  by (induction ys) auto

lemma insert_by_sorted:
  "weak_order lt (insert x (set ys)) \<Longrightarrow> sorted_wrt (\<lambda>x y. \<not> lt y x) ys \<Longrightarrow>
     sorted_wrt (\<lambda>x y. \<not> lt y x) (insert_by lt x ys)"
proof (induction ys)
  case (Cons y ys)
  have w: "weak_order lt (insert x (set ys))"
    using Cons.prems(1) by (rule weak_order_mono) auto
  have x: "x \<in> insert x (set (y # ys))" and y: "y \<in> insert x (set (y # ys))" by simp_all
  have asym: "\<not> lt x y" if "lt y x"
    using that weak_orderD [OF Cons.prems(1) x y x] by blast
  have "\<not> lt z x" if "\<not> lt y x" "z \<in> set ys" for z
  proof -
    from that have "z \<in> insert x (set (y # ys))" by simp
    from weak_orderD [OF Cons.prems(1) this y x] that Cons.prems(2) show ?thesis by simp
  qed
  with asym Cons.IH [OF w] Cons.prems(2) show ?case by simp
qed simp

interpretation go_insertion_sort: slice_sorter insertion_sort
proof
  fix lt :: "'a \<Rightarrow> 'a \<Rightarrow> bool" and xs
  show "mset (insertion_sort lt xs) = mset xs"
    unfolding insertion_sort_def by (induction xs) auto
  show "weak_order lt (set xs) \<Longrightarrow> sorted_wrt (\<lambda>x y. \<not> lt y x) (insertion_sort lt xs)"
  proof (induction xs)
    case (Cons x xs)
    have "set (foldr (insert_by lt) xs []) = set xs" by (induction xs) auto
    moreover have "weak_order lt (set xs)" using Cons.prems by (rule weak_order_mono) auto
    moreover note Cons.IH [OF \<open>weak_order lt (set xs)\<close>] and Cons.prems
    ultimately show ?case
      using insert_by_sorted [of lt x "foldr (insert_by lt) xs []"]
      by (simp add: insertion_sort_def)
  qed (simp add: insertion_sort_def)
qed

text \<open>The order by sequence ID is a strict weak order on messages with numeric IDs.\<close>

lemma sequence_less_weak_order:
  "list_all (\<lambda>m. numericID (rm_SequenceID m)) ms \<Longrightarrow> weak_order sequence_less (set ms)"
  unfolding weak_order_def
proof (intro ballI)
  fix x y z assume "list_all (\<lambda>m. numericID (rm_SequenceID m)) ms" "x \<in> set ms" "y \<in> set ms" "z \<in> set ms"
  then have "numericID (rm_SequenceID x)" "numericID (rm_SequenceID y)" "numericID (rm_SequenceID z)"
    by (simp_all add: list_all_iff)
  then show "\<not> sequence_less x x \<and> (sequence_less x y \<longrightarrow> sequence_less y z \<longrightarrow> sequence_less x z)
      \<and> (\<not> sequence_less x y \<longrightarrow> \<not> sequence_less y z \<longrightarrow> \<not> sequence_less x z)"
    by (simp add: sequence_less_def numeric_compare)
qed

text \<open>The IDs with which messages are recognised again.\<close>

abbreviation message_ids :: "RemoteMessage list \<Rightarrow> string list" where
  "message_ids ms \<equiv> filter (\<lambda>i. i \<noteq> []) (map (\<lambda>m. trim_space (rm_MessageID m)) ms)"

lemma read_message_ID [simp]: "rm_MessageID (read_message L q raw) = raw_ID raw"
  by (simp add: read_message_def Let_def)

lemma collect_messages_ids:
  "collect_messages L seen raws = Inr ms \<Longrightarrow>
     distinct (message_ids ms)
     \<and> set (message_ids ms) = {i \<in> set (map (\<lambda>r. trim_space (raw_ID r)) raws). i \<noteq> []} - set seen"
proof (induction L seen raws arbitrary: ms rule: collect_messages.induct)
  case (2 L seen raw raws)
  show ?case
  proof (cases "trim_space (raw_ID raw) \<noteq> [] \<and> trim_space (raw_ID raw) \<in> set seen")
    case True
    with 2 show ?thesis by (auto simp: Let_def)
  next
    case False
    with 2(3) obtain q rest where
      "normalizeSequenceID L (raw_SequenceID raw) = Inr q"
      and r: "collect_messages L (if trim_space (raw_ID raw) \<noteq> [] then trim_space (raw_ID raw) # seen
         else seen) raws = Inr rest" and "ms = read_message L q raw # rest"
      by (auto simp: Let_def split: sum.splits)
    with 2(2) [OF refl _ _ r] False show ?thesis by (auto simp: Let_def)
  qed
qed simp

lemma ListMessages_sorted:
  assumes "slice_sorter srt"
    and "ListMessages L srt http until (Some cl) conv since = Inr ms"
  obtains payload where "fetchJSON L http until cl
      (base_url (cl_MessagesURL cl) defaultMessagesURL @ ''/'' @ path_escape conv @ ''/messages'')
      (decode_messages L) = Inr payload"
    and "distinct (message_ids ms)"
    and "set (message_ids ms) = {i \<in> set (map (\<lambda>r. trim_space (raw_ID r)) payload). i \<noteq> []}"
    and "list_all (\<lambda>m. numericID (rm_SequenceID m)) ms \<Longrightarrow>
      sorted_wrt (\<lambda>a b. CompareSequenceID (rm_SequenceID a) (rm_SequenceID b) \<le> 0) ms"
proof -
  note permutes = slice_sorter.set_sorted [OF assms(1)] and sorts = slice_sorter.sorts [OF assms(1)]
  from assms(2) obtain payload result where
    f: "fetchJSON L http until cl (base_url (cl_MessagesURL cl) defaultMessagesURL @ ''/''
          @ path_escape conv @ ''/messages'') (decode_messages L) = Inr payload"
    and c: "collect_messages L [] payload = Inr result" and ms: "ms = srt sequence_less result"
    by (auto simp: ListMessages_def client_ready_Inr split: sum.splits if_splits)
  note ids = collect_messages_ids [OF c]
  have "distinct (message_ids ms)"
    unfolding ms using ids by (blast intro: slice_sorter.distinct_map_sorted [OF assms(1)])
  moreover have "set (message_ids ms) = set (message_ids result)"
    by (simp add: ms permutes)
  moreover have "sorted_wrt (\<lambda>a b. CompareSequenceID (rm_SequenceID a) (rm_SequenceID b) \<le> 0) ms"
    if "list_all (\<lambda>m. numericID (rm_SequenceID m)) ms"
  proof -
    have "weak_order sequence_less (set result)"
      using that sequence_less_weak_order [of result] by (simp add: ms list_all_iff permutes)
    from sorts [OF this] show ?thesis
      unfolding ms sequence_less_def
      by (rule sorted_wrt_mono_rel [rotated])
        (metis CompareSequenceID_antisym neg_le_0_iff_le not_le)
  qed
  ultimately show ?thesis using that f ids by auto
qed

text \<open>
  A list of messages that is returned is free of repetitions and complete: no two of its
  messages share a (trimmed, non-blank) ID, the IDs in it are exactly the non-blank IDs of the
  server's payload, and if all its sequence IDs are numbers it is in ascending order of them.
\<close>

theorem ListMessages_ordered:
  assumes "slice_sorter srt"
    and "ListMessages L srt http until (Some cl) conv since = Inr ms"
  shows "distinct (message_ids ms)
    \<and> (list_all (\<lambda>m. numericID (rm_SequenceID m)) ms \<longrightarrow>
         sorted_wrt (\<lambda>a b. CompareSequenceID (rm_SequenceID a) (rm_SequenceID b) \<le> 0) ms)
    \<and> (\<exists>payload. fetchJSON L http until cl
           (base_url (cl_MessagesURL cl) defaultMessagesURL @ ''/'' @ path_escape conv @ ''/messages'')
           (decode_messages L) = Inr payload
         \<and> set (message_ids ms) = {i \<in> set (map (\<lambda>r. trim_space (raw_ID r)) payload). i \<noteq> []})"
  using ListMessages_sorted [OF assms] by blast

text \<open>A server that lists message b twice and out of order.\<close>

definition sample_lib :: golib where
  "sample_lib = plain_lib\<lparr>lib_url := \<lambda>_. Some \<lparr>url_scheme = ''https'', url_host = ''h'', url_path = [],
       url_string = []\<rparr>,
     lib_json := \<lambda>s.
       if s = ''page'' then Some (JObject [(''messages'', [], JArray
         (map (\<lambda>(i, q). ([], JObject [(''id'', [], JString i), (''sequenceId'', q, JNumber q)]))
            [(''b'', ''10''), (''a'', ''9''), (''b'', ''10'')]))])
       else Some (JNumber s)\<rparr>"

definition sample_client :: Client where
  "sample_client = (NewClient True)\<lparr>cl_Token := ''t''\<rparr>"

definition page_server :: "request \<Rightarrow> net_error + response" where
  "page_server q = Inr \<lparr>resp_status = 200, resp_retry_after = [], resp_content_type = [],
     resp_body = ''page'', resp_body_err = None\<rparr>"

definition listed :: "string \<Rightarrow> string \<Rightarrow> RemoteMessage" where
  "listed i q = read_message sample_lib q (no_message\<lparr>raw_ID := i, raw_SequenceID := q\<rparr>)"

lemma sample_page: "ListMessages sample_lib srt page_server (\<lambda>_. None) (Some sample_client) ''c'' []
   = Inr (srt sequence_less [listed ''b'' ''10'', listed ''a'' ''9''])"
  by code_simp

lemma sample_sorted: "insertion_sort sequence_less [listed ''b'' ''10'', listed ''a'' ''9'']
   = [listed ''a'' ''9'', listed ''b'' ''10'']"
  by (simp add: insertion_sort_def sequence_less_def listed_def read_message_def Let_def
      CompareSequenceID_def parse_uint_def is_digit_def)

theorem ListMessages_ordered_witness:
  "\<exists>ms. ListMessages sample_lib insertion_sort page_server (\<lambda>_. None) (Some sample_client) ''c'' [] = Inr ms
     \<and> length ms = 2 \<and> distinct (message_ids ms)"
  using ListMessages_ordered [OF go_insertion_sort.slice_sorter_axioms sample_page]
  by (simp add: sample_page sample_sorted)

end
