(* ===== verification/Graph.thy ===== *)
theory Graph
  imports Http
begin

text \<open>
  \<open>internal/teams/graph\<close>: the Microsoft Graph client. Uploading a file in one request or in chunks,
  upload sessions, share links, drive items and their content.

  Every request goes through the retry loop of theory \<open>Executor\<close>. An operation takes one \<open>exec_env\<close> per
  execution of that loop, numbered in the order in which it starts them, and returns the logs of those
  executions with its result. Bytes are characters; lengths and offsets are integers (no file is
  longer than a Go slice). The default executor that a call may store in the client is left out of the
  result: the next call would build the same one.
\<close>

section \<open>The client\<close>

record GraphClient =
  gc_HTTP :: bool
  gc_Executor :: "executor option"
  gc_AccessToken :: string
  gc_UploadBaseURL :: string
  gc_MaxUploadSize :: int
  gc_SmallFileLimit :: int
  gc_ChunkSize :: int

definition defaultUploadEndpoint :: string where
  "defaultUploadEndpoint = ''https://graph.microsoft.com/v1.0/me/drive/root:/Microsoft Teams Chat Files''"

definition driveItemsEndpoint :: string where
  "driveItemsEndpoint = ''https://graph.microsoft.com/v1.0/me/drive/items/''"

definition defaultMaxUploadBytes :: int where "defaultMaxUploadBytes = 100 * 1024 * 1024"
definition DefaultSmallFileLimit :: int where "DefaultSmallFileLimit = 4 * 1024 * 1024"
definition DefaultChunkSize :: int where "DefaultChunkSize = 5 * 1024 * 1024"
definition chunkSizeAlign :: int where "chunkSizeAlign = 320 * 1024"

definition NewGraphClient :: "bool \<Rightarrow> GraphClient" where
  "NewGraphClient http =
     \<lparr>gc_HTTP = http, gc_Executor = Some (defaultExecutor\<lparr>ex_has_http := http\<rparr>), gc_AccessToken = [],
      gc_UploadBaseURL = defaultUploadEndpoint, gc_MaxUploadSize = defaultMaxUploadBytes,
      gc_SmallFileLimit = DefaultSmallFileLimit, gc_ChunkSize = DefaultChunkSize\<rparr>"

definition graph_executor :: "GraphClient \<Rightarrow> executor" where
  "graph_executor c =
     (let ex = (case gc_Executor c of
                  None \<Rightarrow> defaultExecutor\<lparr>ex_has_http := gc_HTTP c\<rparr>
                | Some ex \<Rightarrow> ex)
      in if ex_has_http ex then ex else ex\<lparr>ex_has_http := gc_HTTP c\<rparr>)"

text \<open>Storing the executor makes no difference to the next call.\<close>

lemma graph_executor_stored:
  "graph_executor (c\<lparr>gc_Executor := Some (graph_executor c)\<rparr>) = graph_executor c"
  by (simp add: graph_executor_def Let_def)

text \<open>The checks every call makes first.\<close>

definition errMissingGraphHTTP :: go_error where
  "errMissingGraphHTTP = ErrNew ''graph client missing http client''"

definition graph_ready :: "GraphClient option \<Rightarrow> go_error + GraphClient" where
  "graph_ready client =
     (case client of
        None \<Rightarrow> Inl errMissingGraphHTTP
      | Some c \<Rightarrow>
          if \<not> gc_HTTP c then Inl errMissingGraphHTTP
          else if trim_space (gc_AccessToken c) = [] then Inl (ErrNew ''missing graph access token'')
          else Inr c)"

definition bearer :: "GraphClient \<Rightarrow> string \<times> string" where
  "bearer c = (''Authorization'', ''Bearer '' @ trim_space (gc_AccessToken c))"

section \<open>Executing a request\<close>

type_synonym envs = "nat \<Rightarrow> exec_env"
type_synonym 'a graph_result = "(go_error + 'a) \<times> exec_event list list"

definition graph_do ::
  "exec_env \<Rightarrow> GraphClient \<Rightarrow> (response option \<Rightarrow> go_error option) \<Rightarrow> request \<Rightarrow> response graph_result" where
  "graph_do E c classify req =
     (case Do E (Some (graph_executor c)) (Some req) (Some classify) of
        (_, Some err, log) \<Rightarrow> (Inl err, [log])
      | (Some resp, None, log) \<Rightarrow> (Inr resp, [log])
      | (None, None, log) \<Rightarrow> (Inl (ErrNew ''missing response''), [log]))"

text \<open>\<open>json.NewDecoder(body).Decode(&payload)\<close>: the error of reading if the value is cut short.\<close>

definition decode_body :: "golib \<Rightarrow> (json \<Rightarrow> 'a option) \<Rightarrow> response \<Rightarrow> go_error + 'a" where
  "decode_body L dec resp =
     (case lib_json_first L (resp_body resp) of
        None \<Rightarrow> Inl (case resp_body_err resp of Some e \<Rightarrow> e | None \<Rightarrow> ErrNew ''invalid json'')
      | Some v \<Rightarrow> (case dec v of None \<Rightarrow> Inl (ErrNew ''invalid json'') | Some x \<Rightarrow> Inr x))"

section \<open>Drive items\<close>

record UploadedDriveItem =
  di_DriveItemID :: string
  di_ListItemUniqueID :: string
  di_SiteURL :: string
  di_FileName :: string
  di_Size :: int

record drive_payload =
  dp_ID :: string
  dp_Name :: string
  dp_Size :: int
  dp_ListItemUniqueID :: string
  dp_SiteURL :: string

definition no_drive_payload :: drive_payload where
  "no_drive_payload = \<lparr>dp_ID = [], dp_Name = [], dp_Size = 0, dp_ListItemUniqueID = [], dp_SiteURL = []\<rparr>"

definition decode_drive_item :: "golib \<Rightarrow> json \<Rightarrow> drive_payload option" where
  "decode_drive_item L v =
     decode_struct L
       [(''id'', put_string dp_ID_update), (''name'', put_string dp_Name_update),
        (''size'', put_int64 dp_Size_update),
        (''sharepointIds'', put_struct L
           [(''listItemUniqueId'', put_string dp_ListItemUniqueID_update)] (\<lambda>p. p) (\<lambda>f. f)),
        (''parentReference'', put_struct L
           [(''sharepointIds'', put_struct L
               [(''siteUrl'', put_string dp_SiteURL_update)] (\<lambda>p. p) (\<lambda>f. f))] (\<lambda>p. p) (\<lambda>f. f))] v
       no_drive_payload"

definition parseUploadedDriveItem :: "golib \<Rightarrow> response \<Rightarrow> go_error + UploadedDriveItem" where
  "parseUploadedDriveItem L r =
     (case decode_body L (decode_drive_item L) r of
        Inl err \<Rightarrow> Inl err
      | Inr payload \<Rightarrow>
          if trim_space (dp_ID payload) = [] then Inl (ErrNew ''upload response missing id'')
          else if trim_space (dp_ListItemUniqueID payload) = []
            then Inl (ErrNew ''upload response missing sharepointIds.listItemUniqueId'')
          else if trim_space (dp_SiteURL payload) = []
            then Inl (ErrNew ''upload response missing parentReference.sharepointIds.siteUrl'')
          else Inr \<lparr>di_DriveItemID = trim_space (dp_ID payload),
                    di_ListItemUniqueID = trim_space (dp_ListItemUniqueID payload),
                    di_SiteURL = trim_space (dp_SiteURL payload),
                    di_FileName = trim_space (dp_Name payload), di_Size = dp_Size payload\<rparr>)"

definition item_select :: "(string \<times> string)" where
  "item_select = (''$select'', ''id,name,size,sharepointIds,parentReference'')"

definition GetDriveItem ::
  "golib \<Rightarrow> exec_env \<Rightarrow> (string \<Rightarrow> duration option) \<Rightarrow> GraphClient option \<Rightarrow> string
     \<Rightarrow> UploadedDriveItem graph_result" where
  "GetDriveItem L E until client driveItemID =
     (case graph_ready client of
        Inl err \<Rightarrow> (Inl err, [])
      | Inr c \<Rightarrow>
          if trim_space driveItemID = [] then (Inl (ErrNew ''drive item id is empty''), [])
          else
            (let endpoint = driveItemsEndpoint @ path_escape (trim_space driveItemID)
                              @ ''?'' @ encode_values [item_select]
             in case new_request L ''GET'' endpoint None [bearer c] of
                  Inl err \<Rightarrow> (Inl err, [])
                | Inr req \<Rightarrow>
                  (case graph_do E c (classifyGetDriveItemResponse until) req of
                     (Inl err, log) \<Rightarrow> (Inl err, log)
                   | (Inr resp, log) \<Rightarrow> (parseUploadedDriveItem L resp, log))))"

text \<open>
  What both uploads make of the final response: the item, or the item fetched by its ID if the
  response omits the SharePoint fields.
\<close>

definition minimal_id :: "golib \<Rightarrow> string \<Rightarrow> string" where
  "minimal_id L raw =
     (case Option.bind (lib_json L raw) (\<lambda>v. decode_struct L [(''id'', put_string (\<lambda>f. f))] v []) of
        None \<Rightarrow> [] | Some i \<Rightarrow> i)"

definition uploaded_item ::
  "golib \<Rightarrow> exec_env \<Rightarrow> (string \<Rightarrow> duration option) \<Rightarrow> GraphClient \<Rightarrow> response
     \<Rightarrow> UploadedDriveItem graph_result" where
  "uploaded_item L E until c resp =
     (case read_all resp of
        (_, Some err) \<Rightarrow> (Inl err, [])
      | (raw, None) \<Rightarrow>
        (case parseUploadedDriveItem L resp of
           Inr item \<Rightarrow> (Inr item, [])
         | Inl parseErr \<Rightarrow>
             if trim_space (minimal_id L raw) \<noteq> [] then
               (case GetDriveItem L E until (Some c) (minimal_id L raw) of
                  (Inr fetched, log) \<Rightarrow> (Inr fetched, log)
                | (Inl _, log) \<Rightarrow> (Inl parseErr, log))
             else (Inl parseErr, [])))"

section \<open>Upload sessions\<close>

definition upload_base :: "GraphClient \<Rightarrow> string" where
  "upload_base c =
     (let base = trim_space (gc_UploadBaseURL c) in if base = [] then defaultUploadEndpoint else base)"

definition uploadURL :: "GraphClient \<Rightarrow> string \<Rightarrow> string" where
  "uploadURL c filename =
     trim_right_char (upload_base c) (CHR ''/'') @ ''/'' @ path_escape (trim_space filename) @ '':/content''
       @ ''?'' @ encode_values [(''@microsoft.graph.conflictBehavior'', ''rename''), item_select]"

definition createUploadSessionURL :: "GraphClient \<Rightarrow> string \<Rightarrow> string" where
  "createUploadSessionURL c filename =
     trim_right_char (upload_base c) (CHR ''/'') @ ''/'' @ path_escape (trim_space filename)
       @ '':/createUploadSession''"

definition CreateUploadSession ::
  "golib \<Rightarrow> exec_env \<Rightarrow> (string \<Rightarrow> duration option) \<Rightarrow> GraphClient option \<Rightarrow> string \<Rightarrow> string graph_result" where
  "CreateUploadSession L E until client filename =
     (case graph_ready client of
        Inl err \<Rightarrow> (Inl err, [])
      | Inr c \<Rightarrow>
          if trim_space filename = [] then (Inl (ErrNew ''upload filename is empty''), [])
          else
            (case new_request L ''POST'' (createUploadSessionURL c filename)
                    (Some (lib_marshal L (json_map [(''@microsoft.graph.conflictBehavior'', JString ''rename'')])))
                    [bearer c, (''Content-Type'', ''application/json'')] of
               Inl err \<Rightarrow> (Inl err, [])
             | Inr req \<Rightarrow>
               (case graph_do E c (classifyUploadSessionResponse until) req of
                  (Inl err, log) \<Rightarrow> (Inl err, log)
                | (Inr resp, log) \<Rightarrow>
                  (case decode_body L (\<lambda>v. decode_struct L [(''uploadUrl'', put_string (\<lambda>f. f))] v []) resp of
                     Inl err \<Rightarrow> (Inl err, log)
                   | Inr url \<Rightarrow>
                       (if trim_space url = []
                        then Inl (ErrNew ''upload session response missing uploadUrl'')
                        else Inr (trim_space url), log)))))"

section \<open>Chunked uploads\<close>

definition parseNextExpectedStart :: "string \<Rightarrow> int option" where
  "parseNextExpectedStart rangeValue =
     (let v = trim_space rangeValue
      in case index_byte v (CHR ''-'') of
           None \<Rightarrow> None
         | Some dash \<Rightarrow>
             if dash = 0 then None
             else (case parse_int (take dash v) of
                     Some start \<Rightarrow> if start < 0 then None else Some start
                   | None \<Rightarrow> None))"

definition chunk_end :: "int \<Rightarrow> int \<Rightarrow> int \<Rightarrow> int" where
  "chunk_end chunkSize size_all start =
     (let e = start + chunkSize - 1 in if size_all \<le> e then size_all - 1 else e)"

definition chunk_at :: "int \<Rightarrow> string \<Rightarrow> int \<Rightarrow> string" where
  "chunk_at chunkSize content start =
     take (nat (chunk_end chunkSize (int (length content)) start + 1 - start)) (drop (nat start) content)"

definition chunk_request :: "golib \<Rightarrow> string \<Rightarrow> int \<Rightarrow> string \<Rightarrow> int \<Rightarrow> go_error + request" where
  "chunk_request L url chunkSize content start =
     (let size_all = int (length content); e = chunk_end chunkSize size_all start;
          chunk = chunk_at chunkSize content start
      in new_request L ''PUT'' (trim_space url) (Some chunk)
           [(''Content-Type'', ''application/octet-stream''),
            (''Content-Range'', ''bytes '' @ format_int start @ ''-'' @ format_int e @ ''/'' @ format_int size_all),
            (''Content-Length'', format_int (int (length chunk)))])"

text \<open>The start of the next chunk, from the body of a 202 response.\<close>

definition next_start :: "golib \<Rightarrow> response \<Rightarrow> go_error + int" where
  "next_start L resp =
     (case decode_body L
             (\<lambda>v. decode_struct L [(''nextExpectedRanges'', put_list (decode_string []) (\<lambda>f. f))] v []) resp of
        Inl err \<Rightarrow> Inl err
      | Inr ranges \<Rightarrow>
          if ranges = [] \<or> trim_space (hd ranges) = []
          then Inl (ErrNew ''chunk response missing nextExpectedRanges'')
          else (case parseNextExpectedStart (hd ranges) of
                  None \<Rightarrow> Inl (ErrNew ''invalid nextExpectedRanges format'')
                | Some next \<Rightarrow> Inr next))"

text \<open>One round of the loop: a result, or the next start; with the logs.\<close>

definition chunk_round ::
  "golib \<Rightarrow> envs \<Rightarrow> (string \<Rightarrow> duration option) \<Rightarrow> GraphClient \<Rightarrow> string \<Rightarrow> int \<Rightarrow> string \<Rightarrow> int
     \<Rightarrow> ((go_error + UploadedDriveItem) + int) \<times> exec_event list list" where
  "chunk_round L G until c url chunkSize content start =
     (case chunk_request L url chunkSize content start of
        Inl err \<Rightarrow> (Inl (Inl err), [])
      | Inr req \<Rightarrow>
        (case graph_do (G 0) c (classifyChunkUploadResponse until) req of
           (Inl err, log) \<Rightarrow> (Inl (Inl err), log)
         | (Inr resp, log) \<Rightarrow>
             if resp_status resp = 202 then
               (case next_start L resp of
                  Inl err \<Rightarrow> (Inl (Inl err), log)
                | Inr next \<Rightarrow> (Inr next, log))
             else if 200 \<le> resp_status resp \<and> resp_status resp < 300 then
               (case uploaded_item L (G 1) until c resp of
                  (res, log') \<Rightarrow> (Inl res, log @ log'))
             else (Inl (Inl (StatusError GraphChunkUploadError (resp_status resp)
                     (fst (read_limited maxUploadErrorBytes resp)))), log)))"

partial_function (option) chunk_loop ::
  "golib \<Rightarrow> envs \<Rightarrow> (string \<Rightarrow> duration option) \<Rightarrow> GraphClient \<Rightarrow> string \<Rightarrow> int \<Rightarrow> string \<Rightarrow> int
     \<Rightarrow> exec_event list list \<Rightarrow> UploadedDriveItem graph_result option" where
  "chunk_loop L G until c url chunkSize content start logs =
     (if start < int (length content) then
        (case chunk_round L (\<lambda>i. G (length logs + i)) until c url chunkSize content start of
           (Inl res, log) \<Rightarrow> Some (res, logs @ log)
         | (Inr next, log) \<Rightarrow> chunk_loop L G until c url chunkSize content next (logs @ log))
      else Some (Inl (ErrNew ''chunked upload did not complete''), logs))"

definition effective_chunk_size :: "GraphClient \<Rightarrow> int" where
  "effective_chunk_size c = (if gc_ChunkSize c \<le> 0 then DefaultChunkSize else gc_ChunkSize c)"

definition UploadFileInChunks ::
  "golib \<Rightarrow> envs \<Rightarrow> (string \<Rightarrow> duration option) \<Rightarrow> GraphClient option \<Rightarrow> string \<Rightarrow> string
     \<Rightarrow> UploadedDriveItem graph_result option" where
  "UploadFileInChunks L G until client url content =
     (case client of
        None \<Rightarrow> Some (Inl errMissingGraphHTTP, [])
      | Some c \<Rightarrow>
          if \<not> gc_HTTP c then Some (Inl errMissingGraphHTTP, [])
          else if trim_space url = [] then Some (Inl (ErrNew ''upload url is empty''), [])
          else if content = [] then Some (Inl (ErrNew ''upload content is empty''), [])
          else if effective_chunk_size c mod chunkSizeAlign \<noteq> 0
            then Some (Inl (ErrNew ''invalid chunk size''), [])
          else chunk_loop L G until c url (effective_chunk_size c) content 0 [])"

section \<open>Uploading a file\<close>

definition max_upload :: "GraphClient \<Rightarrow> int" where
  "max_upload c = (if gc_MaxUploadSize c \<le> 0 then defaultMaxUploadBytes else gc_MaxUploadSize c)"

definition small_limit :: "GraphClient \<Rightarrow> int" where
  "small_limit c = (if gc_SmallFileLimit c \<le> 0 then DefaultSmallFileLimit else gc_SmallFileLimit c)"

definition UploadTeamsChatFile ::
  "golib \<Rightarrow> envs \<Rightarrow> (string \<Rightarrow> duration option) \<Rightarrow> GraphClient option \<Rightarrow> string \<Rightarrow> string
     \<Rightarrow> UploadedDriveItem graph_result option" where
  "UploadTeamsChatFile L G until client filename content =
     (case graph_ready client of
        Inl err \<Rightarrow> Some (Inl err, [])
      | Inr c \<Rightarrow>
          if trim_space filename = [] then Some (Inl (ErrNew ''upload filename is empty''), [])
          else if content = [] then Some (Inl (ErrNew ''upload content is empty''), [])
          else if max_upload c < int (length content)
            then Some (Inl (ErrNew ''upload content exceeds max size''), [])
          else if small_limit c < int (length content) then
            (case CreateUploadSession L (G 0) until (Some c) filename of
               (Inl err, logs) \<Rightarrow> Some (Inl err, logs)
             | (Inr url, logs) \<Rightarrow>
                 map_option (\<lambda>(res, logs'). (res, logs @ logs'))
                   (UploadFileInChunks L (\<lambda>i. G (length logs + i)) until (Some c) url content))
          else
            (case new_request L ''PUT'' (uploadURL c filename) (Some content)
                    [bearer c, (''Content-Type'', ''application/octet-stream'')] of
               Inl err \<Rightarrow> Some (Inl err, [])
             | Inr req \<Rightarrow>
               (case graph_do (G 0) c (classifyUploadResponse until) req of
                  (Inl err, log) \<Rightarrow> Some (Inl err, log)
                | (Inr resp, log) \<Rightarrow>
                    (case uploaded_item L (G 1) until c resp of
                       (res, log') \<Rightarrow> Some (res, log @ log')))))"

section \<open>Share links and content\<close>

record CreatedShareLink =
  sl_ShareID :: string
  sl_ShareURL :: string

definition CreateShareLink ::
  "golib \<Rightarrow> exec_env \<Rightarrow> (string \<Rightarrow> duration option) \<Rightarrow> GraphClient option \<Rightarrow> string
     \<Rightarrow> CreatedShareLink graph_result" where
  "CreateShareLink L E until client listItemUniqueID =
     (case graph_ready client of
        Inl err \<Rightarrow> (Inl err, [])
      | Inr c \<Rightarrow>
          if trim_space listItemUniqueID = [] then (Inl (ErrNew ''listItemUniqueID is empty''), [])
          else
            (case new_request L ''POST''
                    (''https://graph.microsoft.com/v1.0/drive/items/'' @ listItemUniqueID @ ''/createLink'')
                    (Some (lib_marshal L (json_map [(''type'', JString ''edit'')])))
                    [bearer c, (''Content-Type'', ''application/json'')] of
               Inl err \<Rightarrow> (Inl err, [])
             | Inr req \<Rightarrow>
               (case graph_do E c (classifyCreateLinkResponse until) req of
                  (Inl err, log) \<Rightarrow> (Inl err, log)
                | (Inr resp, log) \<Rightarrow>
                  (case decode_body L (\<lambda>v. decode_struct L
                           [(''shareId'', put_string sl_ShareID_update),
                            (''link'', put_struct L [(''webUrl'', put_string sl_ShareURL_update)] (\<lambda>p. p) (\<lambda>f. f))] v
                           \<lparr>sl_ShareID = [], sl_ShareURL = []\<rparr>) resp of
                     Inl err \<Rightarrow> (Inl err, log)
                   | Inr payload \<Rightarrow>
                       (if trim_space (sl_ShareID payload) = []
                        then Inl (ErrNew ''createLink response missing shareId'')
                        else if trim_space (sl_ShareURL payload) = []
                        then Inl (ErrNew ''createLink response missing link.webUrl'')
                        else Inr \<lparr>sl_ShareID = trim_space (sl_ShareID payload),
                                  sl_ShareURL = trim_space (sl_ShareURL payload)\<rparr>, log)))))"

record DriveItemContent =
  dc_Bytes :: string
  dc_ContentType :: string

definition DownloadDriveItemContent ::
  "golib \<Rightarrow> exec_env \<Rightarrow> (string \<Rightarrow> duration option) \<Rightarrow> GraphClient option \<Rightarrow> string
     \<Rightarrow> DriveItemContent graph_result" where
  "DownloadDriveItemContent L E until client driveItemID =
     (case graph_ready client of
        Inl err \<Rightarrow> (Inl err, [])
      | Inr c \<Rightarrow>
        (let driveItemID = trim_space driveItemID
         in if driveItemID = [] then (Inl (ErrNew ''drive item id is empty''), [])
            else
              (case new_request L ''GET'' (driveItemsEndpoint @ path_escape driveItemID @ ''/content'') None
                      [bearer c] of
                 Inl err \<Rightarrow> (Inl err, [])
               | Inr req \<Rightarrow>
                 (case graph_do E c (classifyDriveItemContentResponse until) req of
                    (Inl err, log) \<Rightarrow> (Inl err, log)
                  | (Inr resp, log) \<Rightarrow>
                    (let mx = max_upload c
                     in case read_limited (nat (mx + 1)) resp of
                          (_, Some err) \<Rightarrow> (Inl err, log)
                        | (bytes, None) \<Rightarrow>
                            (if mx < int (length bytes)
                             then Inl (ErrNew ''upload content exceeds max size'')
                             else Inr \<lparr>dc_Bytes = bytes, dc_ContentType = trim_space (resp_content_type resp)\<rparr>,
                             log))))))"

section \<open>One execution\<close>

lemma do_loop_source:
  "do_loop env cl req m b mx k log = (Some r, None, log') \<Longrightarrow>
     \<exists>i q. env_http env i q = Inr r \<and> q \<in> set (attempts log') \<and> cl (Some r) = None"
proof (induction env cl req m b mx k log rule: do_loop.induct)
  case (1 env cl req m b mx k log)
  show ?case
  proof (cases "do_round env cl req m b mx k log")
    case (Inl res)
    with "1.prems" have "do_round env cl req m b mx k log = Inl (Some r, None, log')"
      by (simp add: do_loop.simps)
    then obtain q where "env_http env (Suc k) q = Inr r" "log' = log @ [Attempt q]" "cl (Some r) = None"
      by (auto simp: do_round_def back_off_def Let_def split: option.splits sum.splits if_splits)
    then show ?thesis by auto
  next
    case (Inr log1)
    with 1 show ?thesis by (simp add: do_loop.simps)
  qed
qed

lemma Do_source:
  assumes "Do env (Some e) (Some req) (Some cl) = (Some r, None, log)"
  shows "\<exists>i q. env_http env i q = Inr r \<and> q \<in> set (attempts log) \<and> cl (Some r) = None"
proof -
  from assms have "ex_has_http e" by (auto simp: Do_def split: if_splits)
  with assms show ?thesis by (auto simp: Do_def Let_def dest!: do_loop_source)
qed

lemma graph_do_log:
  assumes "graph_do E c classify req = (res, logs)"
  obtains log where "logs = [log]" and "\<And>q. q \<in> set (attempts log) \<Longrightarrow> same_request req q"
    and "\<And>resp. res = Inr resp \<Longrightarrow> attempts log \<noteq> [] \<and> classify (Some resp) = None
           \<and> (\<exists>i q. env_http E i q = Inr resp)"
proof -
  obtain ro err log where d: "Do E (Some (graph_executor c)) (Some req) (Some classify) = (ro, err, log)"
    by (metis prod_cases3)
  have "same_request req q" if "q \<in> set (attempts log)" for q
    using Do_attempts [of E "graph_executor c" "Some req" "Some classify"] that by (auto simp: d)
  moreover have "attempts log \<noteq> [] \<and> classify (Some resp) = None \<and> (\<exists>i q. env_http E i q = Inr resp)"
    if "res = Inr resp" for resp
    using assms that Do_source [of E "graph_executor c" req classify resp log]
    by (auto simp: graph_do_def d split: option.splits)
  moreover have "logs = [log]" using assms by (auto simp: graph_do_def d split: option.splits)
  ultimately show thesis using that by blast
qed

section \<open>Chunks\<close>

lemma index_byte_digits: "index_byte (format_uint n @ CHR ''-'' # rest) (CHR ''-'') = Some (length (format_uint n))"
proof -
  have "\<forall>c \<in> set s. is_digit c \<Longrightarrow> index_byte (s @ CHR ''-'' # rest) (CHR ''-'') = Some (length s)" for s
    by (induction s) auto
  then show ?thesis using format_uint_digits by blast
qed

text \<open>A range that starts with the byte after the last one sent is read as such.\<close>

lemma parseNextExpectedStart_format:
  assumes "0 \<le> start" and "start < 2 ^ 63" and "list_all is_digit rest"
  shows "parseNextExpectedStart (format_int start @ CHR ''-'' # rest) = Some start"
proof -
  have dash: "solid (CHR ''-'')" by (auto simp: solid_def space_runes_def)
  have "is_digit (hd (format_uint (nat start)))" by (rule format_uint_digits [of _ "nat start"]) simp
  then have "trimmed (format_uint (nat start) @ CHR ''-'' # rest)"
    using assms(3) dash
    by (intro trimmed_solid_ends) (auto intro!: solid_digit simp: hd_append list_all_iff)
  then show ?thesis
    using assms parse_int_format_uint [of "nat start"]
    by (simp add: parseNextExpectedStart_def Let_def format_int_def index_byte_digits nat_less_iff trim_space_trimmed)
qed

lemma chunk_at_take:
  assumes "0 \<le> start" and "start < int (length content)" and "0 < chunkSize"
  shows "chunk_at chunkSize content start = take (nat chunkSize) (drop (nat start) content)"
proof -
  have "nat (chunk_end chunkSize (int (length content)) start + 1 - start)
      = min (nat chunkSize) (length content - nat start)"
    using assms by (auto simp: chunk_end_def Let_def min_def)
  then show ?thesis by (simp add: chunk_at_def take_eq_Nil min_def)
qed

text \<open>The bytes an execution of the loop sends: all its attempts have the same body.\<close>

definition sent :: "exec_event list \<Rightarrow> string" where
  "sent log = (case attempts log of [] \<Rightarrow> [] | q # _ \<Rightarrow> (case req_body q of None \<Rightarrow> [] | Some b \<Rightarrow> b))"

definition answers ::
  "envs \<Rightarrow> (string \<Rightarrow> duration option) \<Rightarrow> GraphClient \<Rightarrow> (nat \<Rightarrow> response) \<Rightarrow> bool" where
  "answers G until c ans \<longleftrightarrow>
     (\<forall>k req. req_get_body req = map_option Inr (req_body req) \<longrightarrow>
        fst (graph_do (G k) c (classifyChunkUploadResponse until) req) = Inr (ans k))"

lemma chunk_sent:
  assumes "answers G until c ans" and "chunk_request L url sz content start = Inr req"
  obtains log where "graph_do (G k) c (classifyChunkUploadResponse until) req = (Inr (ans k), [log])"
    and "sent log = chunk_at sz content start"
proof -
  obtain res logs where d: "graph_do (G k) c (classifyChunkUploadResponse until) req = (res, logs)"
    by (cases "graph_do (G k) c (classifyChunkUploadResponse until) req")
  have "req_get_body req = map_option Inr (req_body req)"
    using assms(2) by (auto simp: chunk_request_def new_request_def Let_def split: if_splits)
  with d assms(1) have res: "res = Inr (ans k)" by (metis answers_def fst_conv)
  from graph_do_log [OF d] res obtain log where log: "logs = [log]" "attempts log \<noteq> []"
    and same: "\<And>q. q \<in> set (attempts log) \<Longrightarrow> same_request req q" by metis
  from log obtain q qs where q: "attempts log = q # qs" by (cases "attempts log") auto
  with same [of q] assms(2) have "req_body q = Some (chunk_at sz content start)"
    by (auto simp: same_request_def chunk_request_def new_request_def Let_def split: if_splits)
  then have "sent log = chunk_at sz content start" by (simp add: sent_def q)
  with d res log show thesis using that by simp
qed

lemma chunk_loop_run:
  assumes ans: "answers G until c ans" and sz: "0 < sz" and url: "lib_url L (trim_space url) \<noteq> None"
    and len: "int m * sz < int (length content)" "int (length content) \<le> int (Suc m) * sz"
    and mid: "\<And>i. i < m \<Longrightarrow> resp_status (ans i) = 202 \<and> next_start L (ans i) = Inr (int (Suc i) * sz)"
    and fin: "200 \<le> resp_status (ans m)" "resp_status (ans m) < 300" "resp_status (ans m) \<noteq> 202"
      "resp_body_err (ans m) = None" "parseUploadedDriveItem L (ans m) = Inr item"
    and k: "k \<le> m" "length logs = k"
  shows "\<exists>logs'. chunk_loop L G until c url sz content (int k * sz) logs = Some (Inr item, logs @ logs')
    \<and> length logs' = Suc m - k \<and> concat (map sent logs') = drop (nat (int k * sz)) content"
  using k
proof (induction k arbitrary: logs rule: inc_induct)
  case base
  let ?start = "int m * sz"
  have pos: "0 \<le> ?start" using sz by simp
  obtain req where req: "chunk_request L url sz content ?start = Inr req"
    using url by (auto simp: chunk_request_def new_request_def Let_def)
  obtain log where d: "graph_do (G m) c (classifyChunkUploadResponse until) req = (Inr (ans m), [log])"
    and sent: "sent log = chunk_at sz content ?start"
    using chunk_sent [OF ans req] by blast
  have "chunk_loop L G until c url sz content ?start logs = Some (Inr item, logs @ [log])"
    using fin len base
    by (subst chunk_loop.simps) (simp add: chunk_round_def req d uploaded_item_def read_all_def)
  moreover have "length content \<le> nat ?start + nat sz"
    using len(2) sz pos by (simp add: algebra_simps)
  then have "sent log = drop (nat ?start) content"
    using sent chunk_at_take [OF pos len(1) sz] by simp
  ultimately show ?case by (intro exI [of _ "[log]"]) simp
next
  case (step k)
  let ?start = "int k * sz"
  have pos: "0 \<le> ?start" using sz by simp
  have "int k * sz < int m * sz" using step.hyps sz by (simp add: mult_strict_right_mono)
  with len have small: "?start < int (length content)" by simp
  obtain req where req: "chunk_request L url sz content ?start = Inr req"
    using url by (auto simp: chunk_request_def new_request_def Let_def)
  obtain log where d: "graph_do (G k) c (classifyChunkUploadResponse until) req = (Inr (ans k), [log])"
    and sent: "sent log = chunk_at sz content ?start"
    using chunk_sent [OF ans req] by blast
  have round: "chunk_loop L G until c url sz content ?start logs
      = chunk_loop L G until c url sz content (int (Suc k) * sz) (logs @ [log])"
    using mid [of k] small step by (subst chunk_loop.simps) (simp add: chunk_round_def req d)
  obtain logs' where logs': "chunk_loop L G until c url sz content (int (Suc k) * sz) (logs @ [log])
        = Some (Inr item, (logs @ [log]) @ logs')"
    "length logs' = Suc m - Suc k" "concat (map sent logs') = drop (nat (int (Suc k) * sz)) content"
    using step by (metis length_append_singleton)
  have "nat (int (Suc k) * sz) = nat sz + nat ?start"
    using sz by (simp add: algebra_simps nat_add_distrib)
  then have "sent log @ concat (map sent logs') = drop (nat ?start) content"
    using sent chunk_at_take [OF pos small sz] logs'(3)
    by (simp flip: drop_drop)
  with round logs' step.hyps show ?case by (intro exI [of _ "log # logs'"]) simp
qed

text \<open>Progress bounds the number of rounds; without it there is none.\<close>

lemma chunk_loop_progress:
  assumes "\<And>k start next log. chunk_round L (\<lambda>i. G (k + i)) until c url sz content start = (Inr next, log)
      \<Longrightarrow> start < next"
  shows "chunk_loop L G until c url sz content start logs \<noteq> None"
proof (induction "nat (int (length content) - start)" arbitrary: start logs rule: less_induct)
  case less
  show ?case
  proof (cases "start < int (length content)")
    case True
    show ?thesis
    proof (cases "chunk_round L (\<lambda>i. G (length logs + i)) until c url sz content start")
      case (Pair res log)
      show ?thesis
      proof (cases res)
        case (Inr nx)
        from assms [OF Pair [unfolded Inr]] True
        have "chunk_loop L G until c url sz content nx (logs @ log) \<noteq> None" by (intro less) simp
        then show ?thesis by (subst chunk_loop.simps) (simp add: True Pair Inr)
      qed (subst chunk_loop.simps, simp add: True Pair)
    qed
  qed (subst chunk_loop.simps, simp)
qed

definition stuck_at ::
  "golib \<Rightarrow> envs \<Rightarrow> (string \<Rightarrow> duration option) \<Rightarrow> GraphClient \<Rightarrow> string \<Rightarrow> int \<Rightarrow> string \<Rightarrow> int \<Rightarrow> bool" where
  "stuck_at L G until c url sz content start \<longleftrightarrow> start < int (length content)
     \<and> (\<forall>k. fst (chunk_round L (\<lambda>i. G (k + i)) until c url sz content start) = Inr start)"

lemma stuck_atD:
  "stuck_at L G until c url sz content start \<Longrightarrow> start < int (length content)"
  "stuck_at L G until c url sz content start \<Longrightarrow>
     \<exists>log. chunk_round L (\<lambda>i. G (k + i)) until c url sz content start = (Inr start, log)"
  by (auto simp: stuck_at_def) (metis prod.collapse)

lemma chunk_loop_stuck:
  "chunk_loop L G until c url sz content start logs = Some r \<Longrightarrow> \<not> stuck_at L G until c url sz content start"
proof (rule chunk_loop.raw_induct [where P = "\<lambda>L G until c url sz content start logs r.
      \<not> stuck_at L G until c url sz content start", rotated], assumption, rule notI)
  fix f L G until c url sz content start logs r
  assume IH: "\<And>L G until c url sz content start logs r.
      f L G until c url sz content start logs = Some r \<Longrightarrow> \<not> stuck_at L G until c url sz content start"
    and body: "(if start < int (length content) then
        (case chunk_round L (\<lambda>i. G (length logs + i)) until c url sz content start of
           (Inl res, log) \<Rightarrow> Some (res, logs @ log)
         | (Inr next, log) \<Rightarrow> f L G until c url sz content next (logs @ log))
      else Some (Inl (ErrNew ''chunked upload did not complete''), logs)) = Some r"
    and s: "stuck_at L G until c url sz content start"
  from stuck_atD(2) [OF s, of "length logs"] obtain log where
    "chunk_round L (\<lambda>i. G (length logs + i)) until c url sz content start = (Inr start, log)" ..
  with body stuck_atD(1) [OF s] have "f L G until c url sz content start (logs @ log) = Some r" by simp
  from IH [OF this] s show False ..
qed

section \<open>Properties\<close>

text \<open>A client, a library and a server for the examples: two chunks, the first one acknowledged.\<close>

definition item_tree :: json where
  "item_tree = JObject [(''id'', [], JString ''i''), (''name'', [], JString ''f''),
     (''sharepointIds'', [], JObject [(''listItemUniqueId'', [], JString ''u'')]),
     (''parentReference'', [], JObject [(''sharepointIds'', [], JObject [(''siteUrl'', [], JString ''s'')])])]"

definition ranges_tree :: "int \<Rightarrow> json" where
  "ranges_tree n = JObject [(''nextExpectedRanges'', [], JArray [([], JString (format_int n @ ''-''))])]"

definition graph_lib :: "int \<Rightarrow> golib" where
  "graph_lib n = plain_lib\<lparr>lib_url := \<lambda>_. Some \<lparr>url_scheme = ''https'', url_host = ''h'', url_path = [],
       url_string = []\<rparr>,
     lib_json_first := \<lambda>s. Some (if s = ''item'' then item_tree
       else if s = ''session'' then JObject [(''uploadUrl'', [], JString ''https://u'')] else ranges_tree n)\<rparr>"

definition graph_client :: GraphClient where
  "graph_client = (NewGraphClient True)\<lparr>gc_AccessToken := ''T'', gc_ChunkSize := 327680, gc_SmallFileLimit := 5\<rparr>"

definition body_reply :: "int \<Rightarrow> string \<Rightarrow> response" where
  "body_reply st b = (reply st [])\<lparr>resp_body := b\<rparr>"

definition replying :: "response \<Rightarrow> exec_env" where
  "replying r = (scripted (\<lambda>_. 200))\<lparr>env_http := \<lambda>_ _. Inr r\<rparr>"

lemma replying_do:
  assumes "req_get_body req = map_option Inr (req_body req)" and "classify (Some r) = None"
  shows "\<exists>log. graph_do (replying r) graph_client classify req = (Inr r, [log])"
proof -
  have ex: "graph_executor graph_client = defaultExecutor"
    by (simp add: graph_executor_def graph_client_def NewGraphClient_def defaultExecutor_def)
  obtain q where q: "requestForAttempt req (Suc 0) = Inr q"
    using assms(1) by (cases "req_body req") (auto simp: requestForAttempt_def)
  have "Do (replying r) (Some defaultExecutor) (Some req) (Some classify) = (Some r, None, [Attempt q])"
    using assms(2) q
    by (simp add: Do_def defaultExecutor_def do_loop.simps do_round_def replying_def scripted_def Let_def)
  then show ?thesis by (simp add: graph_do_def ex)
qed

lemma replying_answers:
  assumes "\<And>k. 200 \<le> resp_status (ans k) \<and> resp_status (ans k) < 300"
  shows "answers (\<lambda>k. replying (ans k)) until graph_client ans"
  unfolding answers_def
proof (intro allI impI)
  fix k and req :: request
  assume "req_get_body req = map_option Inr (req_body req)"
  moreover have "classifyChunkUploadResponse until (Some (ans k)) = None"
    using assms [of k] by (simp add: classifyChunkUploadResponse_eq classify_response_def classify_status_def)
  ultimately obtain log where "graph_do (replying (ans k)) graph_client (classifyChunkUploadResponse until) req
      = (Inr (ans k), [log])"
    using replying_do [of req "classifyChunkUploadResponse until" "ans k"] by blast
  then show "fst (graph_do (replying (ans k)) graph_client (classifyChunkUploadResponse until) req) = Inr (ans k)"
    by simp
qed

lemma graph_client_size: "effective_chunk_size graph_client = 327680"
  by (simp add: effective_chunk_size_def graph_client_def)

lemma graph_lib_next: "0 \<le> n \<Longrightarrow> n < 2 ^ 63 \<Longrightarrow> next_start (graph_lib n) (body_reply 202 ''next'') = Inr n"
  using parseNextExpectedStart_format [of n "[]"]
  by (auto simp: next_start_def decode_body_def graph_lib_def body_reply_def ranges_tree_def field_is_def
      parseNextExpectedStart_def Let_def split: option.splits)

lemma graph_lib_item:
  "parseUploadedDriveItem (graph_lib n) (body_reply 201 ''item'') =
     Inr \<lparr>di_DriveItemID = ''i'', di_ListItemUniqueID = ''u'', di_SiteURL = ''s'', di_FileName = ''f'', di_Size = 0\<rparr>"
  by code_simp

text \<open>
  C16: a chunked upload delivers the file. If the server acknowledges every chunk but the last by asking
  for the byte after it and answers the last one with the item, the call returns that item after as
  many chunks as the size of the file demands, and the chunks, in the order they were sent, are the
  file, byte for byte.
\<close>

theorem chunks_reassemble:
  assumes "answers G until c ans" and "gc_HTTP c" and "trim_space url \<noteq> []"
    and "lib_url L (trim_space url) \<noteq> None"
    and "0 < sz" and "sz = effective_chunk_size c" and "sz mod chunkSizeAlign = 0"
    and "int m * sz < int (length content)" and "int (length content) \<le> int (Suc m) * sz"
    and "\<And>i. i < m \<Longrightarrow> resp_status (ans i) = 202 \<and> next_start L (ans i) = Inr (int (Suc i) * sz)"
    and "resp_status (ans m) = 200 \<or> resp_status (ans m) = 201" and "resp_body_err (ans m) = None"
    and "parseUploadedDriveItem L (ans m) = Inr item"
  shows "\<exists>logs. UploadFileInChunks L G until (Some c) url content = Some (Inr item, logs)
    \<and> length logs = Suc m \<and> concat (map sent logs) = content"
proof -
  have "0 \<le> int m * sz" using assms(5) by simp
  with assms(8) have "content \<noteq> []" by auto
  with chunk_loop_run [OF assms(1,5,4,8,9,10) _ _ _ assms(12,13), of 0 "[]"] assms show ?thesis
    by (auto simp: UploadFileInChunks_def)
qed

theorem chunks_reassemble_witness:
  "\<exists>content logs. length content = 400000 \<and> length logs = 2 \<and> concat (map sent logs) = content"
proof -
  let ?ans = "\<lambda>k::nat. if k = 0 then body_reply 202 ''next'' else body_reply 201 ''item''"
  obtain content :: string where len: "length content = 400000" using Ex_list_of_length by blast
  have a: "answers (\<lambda>k. replying (?ans k)) (\<lambda>_. None) graph_client ?ans"
    by (rule replying_answers) (simp add: body_reply_def reply_def)
  have u: "trim_space ''https://u'' = ''https://u''" by code_simp
  obtain logs where "UploadFileInChunks (graph_lib 327680) (\<lambda>k. replying (?ans k)) (\<lambda>_. None) (Some graph_client)
        ''https://u'' content = Some (Inr \<lparr>di_DriveItemID = ''i'', di_ListItemUniqueID = ''u'',
          di_SiteURL = ''s'', di_FileName = ''f'', di_Size = 0\<rparr>, logs)"
    and "length logs = Suc 1" and "concat (map sent logs) = content"
  proof (atomize_elim, rule chunks_reassemble [OF a])
    show "gc_HTTP graph_client" by (simp add: graph_client_def NewGraphClient_def)
    show "(327680::int) = effective_chunk_size graph_client" by (simp add: graph_client_size)
    show "resp_status (?ans i) = 202 \<and> next_start (graph_lib 327680) (?ans i) = Inr (int (Suc i) * 327680)"
      if "i < 1" for i
      using that graph_lib_next [of 327680] by (simp add: body_reply_def reply_def)
    show "parseUploadedDriveItem (graph_lib 327680) (?ans 1) = Inr \<lparr>di_DriveItemID = ''i'',
          di_ListItemUniqueID = ''u'', di_SiteURL = ''s'', di_FileName = ''f'', di_Size = 0\<rparr>"
      by (simp add: graph_lib_item)
  qed (simp_all add: u len chunkSizeAlign_def graph_lib_def body_reply_def reply_def)
  with len show ?thesis by (intro exI [of _ content] exI [of _ logs]) simp
qed



text \<open>
  Without progress it does not end. Against a server that answers every chunk by asking for the
  first byte again, the call never returns: nothing bounds the number of rounds.
\<close>

theorem upload_may_not_return:
  assumes "gc_HTTP c" and "trim_space url \<noteq> []" and "content \<noteq> []"
    and "effective_chunk_size c mod chunkSizeAlign = 0"
    and "\<And>k. fst (chunk_round L (\<lambda>i. G (k + i)) until c url (effective_chunk_size c) content 0) = Inr 0"
  shows "UploadFileInChunks L G until (Some c) url content = None"
proof -
  have "stuck_at L G until c url (effective_chunk_size c) content 0"
    using assms(3,5) by (simp add: stuck_at_def)
  then have "chunk_loop L G until c url (effective_chunk_size c) content 0 [] = None"
    using chunk_loop_stuck by fastforce
  with assms show ?thesis by (simp add: UploadFileInChunks_def)
qed

theorem upload_may_not_return_witness:
  "UploadFileInChunks (graph_lib 0) (\<lambda>_. replying (body_reply 202 ''next'')) (\<lambda>_. None) (Some graph_client)
     ''u'' ''x'' = None"
proof (rule upload_may_not_return)
  fix k :: nat
  have u: "trim_space ''u'' = ''u''" by code_simp
  let ?q = "\<lparr>req_method = ''PUT'', req_url = ''u'', req_headers = [(''Content-Type'', ''application/octet-stream''),
        (''Content-Range'', ''bytes '' @ format_int 0 @ ''-'' @ format_int 0 @ ''/'' @ format_int 1),
        (''Content-Length'', format_int 1)], req_body = Some ''x'', req_get_body = Some (Inr ''x'')\<rparr>"
  have "chunk_request (graph_lib 0) ''u'' (effective_chunk_size graph_client) ''x'' 0 = Inr ?q"
    by (simp add: chunk_request_def new_request_def graph_lib_def Let_def u chunk_end_def chunk_at_def graph_client_size)
  moreover obtain log where "graph_do (replying (body_reply 202 ''next'')) graph_client
      (classifyChunkUploadResponse (\<lambda>_. None)) ?q = (Inr (body_reply 202 ''next''), [log])"
    using replying_do [of ?q "classifyChunkUploadResponse (\<lambda>_. None)" "body_reply 202 ''next''"]
    by (auto simp: classifyChunkUploadResponse_eq classify_response_def classify_status_def body_reply_def reply_def)
  ultimately show "fst (chunk_round (graph_lib 0) (\<lambda>i. replying (body_reply 202 ''next'')) (\<lambda>_. None) graph_client
      ''u'' (effective_chunk_size graph_client) ''x'' 0) = Inr 0"
    using graph_lib_next [of 0] by (simp add: chunk_round_def) (simp add: body_reply_def reply_def)
next
  show "trim_space ''u'' \<noteq> []" by code_simp
qed (simp_all add: graph_client_def NewGraphClient_def effective_chunk_size_def chunkSizeAlign_def)

text \<open>Where the access token may go: to Graph, or below the configured upload folder.\<close>

definition graph_home :: "GraphClient \<Rightarrow> string \<Rightarrow> bool" where
  "graph_home c url \<longleftrightarrow> prefix ''https://graph.microsoft.com/v1.0/'' url
     \<or> prefix (trim_right_char (upload_base c) (CHR ''/'') @ ''/'') url"

definition confined :: "GraphClient \<Rightarrow> request \<Rightarrow> bool" where
  "confined c q \<longleftrightarrow> (''Authorization'' \<in> fst ` set (req_headers q) \<longrightarrow> graph_home c (req_url q))"

definition all_confined :: "GraphClient \<Rightarrow> exec_event list list \<Rightarrow> bool" where
  "all_confined c logs \<longleftrightarrow> list_all (\<lambda>log. list_all (confined c) (attempts log)) logs"

lemma all_confined_simps [simp]:
  "all_confined c []" "all_confined c (l @ m) \<longleftrightarrow> all_confined c l \<and> all_confined c m"
  by (simp_all add: all_confined_def)

lemma same_request_target: "same_request req q \<Longrightarrow> req_url q = req_url req \<and> req_headers q = req_headers req"
  by (simp add: same_request_def)

lemma graph_do_confined:
  assumes "graph_do E c classify req = (res, logs)" and "confined c' req"
  shows "all_confined c' logs"
proof -
  from graph_do_log [OF assms(1)] obtain log where log: "logs = [log]"
    and same: "\<And>q. q \<in> set (attempts log) \<Longrightarrow> same_request req q" by metis
  have "confined c' q" if "q \<in> set (attempts log)" for q
    using same_request_target [OF same [OF that]] assms(2) by (simp add: confined_def)
  with log show ?thesis by (simp add: all_confined_def list_all_iff)
qed

lemma send_confined:
  "graph_do E c classify req = (res, logs) \<Longrightarrow> new_request L meth url body headers = Inr req \<Longrightarrow>
     ''Authorization'' \<notin> fst ` set headers \<or> graph_home c' url \<Longrightarrow> all_confined c' logs"
  by (erule graph_do_confined) (auto simp: new_request_Inr confined_def)

lemma graph_homes [simp]:
  "graph_home c (driveItemsEndpoint @ x)" "graph_home c (uploadURL c f)" "graph_home c (createUploadSessionURL c f)"
  "graph_home c (''https://graph.microsoft.com/v1.0/drive/items/'' @ x)"
  by (simp_all add: graph_home_def driveItemsEndpoint_def uploadURL_def createUploadSessionURL_def prefix_def)

lemma graph_ready_Inr: "graph_ready client = Inr c \<Longrightarrow> client = Some c"
  by (auto simp: graph_ready_def split: option.splits if_splits)

lemma GetDriveItem_confined: "GetDriveItem L E until (Some c) i = (res, logs) \<Longrightarrow> all_confined c logs"
  by (auto simp: GetDriveItem_def Let_def split: sum.splits if_splits prod.splits
      dest!: graph_ready_Inr send_confined [where c' = c])

lemma uploaded_item_confined: "uploaded_item L E until c resp = (res, logs) \<Longrightarrow> all_confined c logs"
  by (auto simp: uploaded_item_def split: sum.splits if_splits prod.splits option.splits
      dest: GetDriveItem_confined)

lemma CreateUploadSession_confined:
  "CreateUploadSession L E until (Some c) f = (res, logs) \<Longrightarrow> all_confined c logs"
  by (auto simp: CreateUploadSession_def Let_def split: sum.splits if_splits prod.splits
      dest!: graph_ready_Inr send_confined [where c' = c])

lemma chunk_round_confined:
  "chunk_round L G until c url sz content start = (res, logs) \<Longrightarrow> all_confined c logs"
  by (auto simp: chunk_round_def chunk_request_def Let_def split: sum.splits if_splits prod.splits
      dest!: uploaded_item_confined send_confined [where c' = c])

lemma chunk_loop_confined:
  "chunk_loop L G until c url sz content start logs = Some r \<Longrightarrow> all_confined c logs \<longrightarrow> all_confined c (snd r)"
proof (rule chunk_loop.raw_induct [where P = "\<lambda>L G until c url sz content start logs r.
      all_confined c logs \<longrightarrow> all_confined c (snd r)", rotated], assumption, rule impI)
  fix f L G until c url sz content start logs r
  assume IH: "\<And>L G until c url sz content start logs r.
      f L G until c url sz content start logs = Some r \<Longrightarrow> all_confined c logs \<longrightarrow> all_confined c (snd r)"
    and body: "(if start < int (length content) then
        (case chunk_round L (\<lambda>i. G (length logs + i)) until c url sz content start of
           (Inl res, log) \<Rightarrow> Some (res, logs @ log)
         | (Inr nxt, log) \<Rightarrow> f L G until c url sz content nxt (logs @ log))
      else Some (Inl (ErrNew ''chunked upload did not complete''), logs)) = Some r"
    and ok: "all_confined c logs"
  show "all_confined c (snd r)"
    using body ok chunk_round_confined [of L _ until c url sz content start]
    by (auto split: if_splits prod.splits sum.splits dest: IH)
qed

lemma UploadFileInChunks_confined:
  "UploadFileInChunks L G until (Some c) url content = Some (res, logs) \<Longrightarrow> all_confined c logs"
  by (auto simp: UploadFileInChunks_def split: if_splits dest!: chunk_loop_confined)



text \<open>
  A download is whole or an error. What it returns is the complete body of a 2xx answer to one of its
  requests, never a part of one, and not longer than the configured maximum.
\<close>

theorem download_whole:
  assumes "DownloadDriveItemContent L E until (Some c) i = (Inr d, logs)"
  shows "int (length (dc_Bytes d)) \<le> max_upload c
    \<and> (\<exists>k q resp. env_http E k q = Inr resp \<and> 200 \<le> resp_status resp \<and> resp_status resp < 300
         \<and> resp_body resp = dc_Bytes d \<and> resp_body_err resp = None)"
proof -
  obtain req resp logs' where
    d: "graph_do E c (classifyDriveItemContentResponse until) req = (Inr resp, logs')"
    and r: "read_limited (nat (max_upload c + 1)) resp = (dc_Bytes d, None)"
      "int (length (dc_Bytes d)) \<le> max_upload c"
    using assms
    by (auto simp: DownloadDriveItemContent_def Let_def split: sum.splits if_splits prod.splits option.splits
        dest!: graph_ready_Inr)
  have max: "0 < max_upload c" by (simp add: max_upload_def defaultMaxUploadBytes_def)
  from graph_do_log [OF d] obtain k q where "env_http E k q = Inr resp"
    and "classifyDriveItemContentResponse until (Some resp) = None" by metis
  moreover from this(2) have "200 \<le> resp_status resp \<and> resp_status resp < 300"
    by (simp add: content_classifier.accepts)
  moreover have "resp_body resp = dc_Bytes d \<and> resp_body_err resp = None"
  proof -
    have t: "take (nat (max_upload c + 1)) (resp_body resp) = dc_Bytes d" using r(1) by (simp add: read_limited_def)
    have "length (dc_Bytes d) < nat (max_upload c + 1)" using r(2) max by linarith
    then have "length (resp_body resp) < nat (max_upload c + 1)" by (simp flip: t add: min_def split: if_splits)
    with r(1) show ?thesis by (simp add: read_limited_def)
  qed
  ultimately show ?thesis using r(2) by blast
qed

theorem download_whole_witness:
  "\<exists>d :: DriveItemContent. dc_Bytes d = ''item'' \<and> int (length (dc_Bytes d)) \<le> max_upload graph_client"
proof -
  have r: "graph_ready (Some graph_client) = Inr graph_client" by code_simp
  have f: "trim_space ''i'' = ''i''" "path_escape ''i'' = ''i''" by code_simp+
  obtain req where req: "new_request (graph_lib 0) ''GET'' (driveItemsEndpoint @ ''i/content'')
      None [bearer graph_client] = Inr req" "req_get_body req = map_option Inr (req_body req)"
    by (simp add: new_request_def graph_lib_def)
  have "classifyDriveItemContentResponse (\<lambda>_. None) (Some (body_reply 200 ''item'')) = None"
    by (simp add: content_classifier.accepts) (simp add: body_reply_def reply_def)
  with replying_do [OF req(2)] obtain log where
    "graph_do (replying (body_reply 200 ''item'')) graph_client (classifyDriveItemContentResponse (\<lambda>_. None)) req
       = (Inr (body_reply 200 ''item''), [log])" by blast
  moreover have "max_upload graph_client = 104857600" by code_simp
  ultimately have "DownloadDriveItemContent (graph_lib 0) (replying (body_reply 200 ''item'')) (\<lambda>_. None)
      (Some graph_client) ''i'' = (Inr \<lparr>dc_Bytes = ''item'', dc_ContentType = []\<rparr>, [log])"
    by (simp add: DownloadDriveItemContent_def r f req read_limited_def del: path_escape_simps)
      (simp add: body_reply_def reply_def)
  from download_whole [OF this] show ?thesis by (intro exI [of _ "\<lparr>dc_Bytes = ''item'', dc_ContentType = []\<rparr>"]) simp
qed

end
