(* ===== verification/Attachments.thy ===== *)
theory Attachments
  imports ConsumerClient Graph
begin

text \<open>
  Outbound attachments: the files property of \<open>internal/teams/attachments/files_builder.go\<close>, the
  orchestrator of \<open>internal/bridge/send_attachment.go\<close> (upload, share link, message) and the handling of
  Matrix file messages in \<open>internal/bridge/matrix_file_handler.go\<close>.

  The orchestrator calls two Go interfaces, \<open>GraphAPI\<close> and \<open>TeamsSendAPI\<close>. Here they are functions on a
  state \<open>'s\<close>; an upload may run forever, so it returns an option. The locale \<open>attachment_apis\<close> states what
  the orchestrator relies on; it is interpreted for the Graph client of theory \<open>Graph\<close> and the consumer
  client of theory \<open>ConsumerClient\<close>, where the state is the log of all executions.
\<close>

section \<open>The files property\<close>

definition servedPath :: string where
  "servedPath = ''/Documents/Microsoft Teams Chat Files/''"

definition file_url :: "string \<Rightarrow> string \<Rightarrow> string" where
  "file_url siteURL filename = trim_right_char siteURL (CHR ''/'') @ servedPath @ path_escape filename"

definition file_descriptor ::
  "string \<Rightarrow> string \<Rightarrow> string \<Rightarrow> string \<Rightarrow> string \<Rightarrow> string \<Rightarrow> string \<Rightarrow> json" where
  "file_descriptor listItemID driveItemID siteURL filename ext shareURL shareID =
     json_map
       [(''itemid'', JString listItemID), (''fileName'', JString filename), (''fileType'', JString ext),
        (''fileInfo'', json_map
           [(''itemId'', JString driveItemID), (''fileUrl'', JString (file_url siteURL filename)),
            (''siteUrl'', JString siteURL), (''serverRelativeUrl'', JString []),
            (''shareUrl'', JString shareURL), (''shareId'', JString shareID)]),
        (''fileChicletState'', json_map [(''serviceName'', JString ''p2p''), (''state'', JString ''active'')]),
        (''@type'', JString ''http://schema.skype.com/File''), (''version'', JNumber ''2''),
        (''id'', JString listItemID), (''baseUrl'', JString siteURL),
        (''objectUrl'', JString (file_url siteURL filename)), (''type'', JString ext),
        (''title'', JString filename), (''state'', JString ''active'')]"

definition files_tree :: "UploadedDriveItem \<Rightarrow> CreatedShareLink \<Rightarrow> string \<Rightarrow> string \<Rightarrow> json" where
  "files_tree uploaded share filename fileExt =
     JArray [([], file_descriptor (trim_space (di_ListItemUniqueID uploaded))
       (trim_space (di_DriveItemID uploaded)) (trim_space (di_SiteURL uploaded)) (trim_space filename)
       (trim_prefix (trim_space fileExt) ''.'') (trim_space (sl_ShareURL share)) (trim_space (sl_ShareID share)))]"

definition BuildTeamsAttachmentFilesProperty ::
  "golib \<Rightarrow> UploadedDriveItem option \<Rightarrow> CreatedShareLink option \<Rightarrow> string \<Rightarrow> string \<Rightarrow> go_error + string" where
  "BuildTeamsAttachmentFilesProperty L uploaded share filename fileExt =
     (case uploaded of
        None \<Rightarrow> Inl (ErrNew ''uploaded drive item is nil'')
      | Some up \<Rightarrow>
        (case share of
           None \<Rightarrow> Inl (ErrNew ''created share link is nil'')
         | Some sh \<Rightarrow>
             if trim_space filename = [] then Inl (ErrNew ''filename is empty'')
             else if trim_space (di_ListItemUniqueID up) = []
               then Inl (ErrNew ''uploaded list item unique id is empty'')
             else if trim_space (di_DriveItemID up) = []
               then Inl (ErrNew ''uploaded drive item id is empty'')
             else Inr (lib_marshal L (files_tree up sh filename fileExt))))"

section \<open>The orchestrator\<close>

definition MaxAttachmentBytesV0 :: int where "MaxAttachmentBytesV0 = 100 * 1024 * 1024"

text \<open>\<open>filepath.Ext\<close>: from the last dot of the last path element.\<close>

fun last_ext :: "string \<Rightarrow> string \<Rightarrow> string" where
  "last_ext found [] = found"
| "last_ext found (c # cs) =
     (if c = CHR ''/'' then last_ext [] cs
      else if c = CHR ''.'' then last_ext (c # takeWhile (\<lambda>x. x \<noteq> CHR ''/'') cs) cs
      else last_ext found cs)"

definition path_ext :: "string \<Rightarrow> string" where "path_ext filename = last_ext [] filename"

definition formatCaptionHTML :: "string \<Rightarrow> string" where
  "formatCaptionHTML txt =
     (let normalized = replace_all txt [CHR 0x0D, CHR 0x0A] [CHR 0x0A];
          normalized = replace_all normalized [CHR 0x0D] [CHR 0x0A];
          escaped = escape_string normalized;
          escaped = replace_all escaped [CHR 0x0A] ''<br>''
      in ''<p>'' @ escaped @ ''</p>'')"

text \<open>The interfaces; and the orchestrator with its optional fields.\<close>

record 's apis =
  ap_upload :: "string \<Rightarrow> string \<Rightarrow> 's \<Rightarrow> ((go_error + UploadedDriveItem) \<times> 's) option"
  ap_share :: "string \<Rightarrow> 's \<Rightarrow> (go_error + CreatedShareLink) \<times> 's"
  ap_send :: "string \<Rightarrow> string \<Rightarrow> string \<Rightarrow> string \<Rightarrow> string \<Rightarrow> 's \<Rightarrow> go_error option \<times> 's"

record AttachmentOrchestrator =
  ao_has_graph :: bool
  ao_has_teams :: bool
  ao_FromUserID :: string
  ao_MaxBytes :: int
  ao_GenerateMessageID :: string \<comment> \<open>what the generator returns\<close>
  ao_FormatCaption :: "(string \<Rightarrow> string) option"

definition orchestrator_guard ::
  "AttachmentOrchestrator \<Rightarrow> string \<Rightarrow> string \<Rightarrow> string \<Rightarrow> go_error option" where
  "orchestrator_guard o' threadID filename content =
     (if trim_space threadID = [] then Some (ErrNew ''missing thread id'')
      else if trim_space filename = [] then Some (ErrNew ''missing filename'')
      else if content = [] then Some (ErrNew ''missing content'')
      else if (if ao_MaxBytes o' \<le> 0 then MaxAttachmentBytesV0 else ao_MaxBytes o') < int (length content)
        then Some (ErrNew ''attachment exceeds max size'')
      else if \<not> ao_has_graph o' then Some (ErrNew ''missing graph client'')
      else if \<not> ao_has_teams o' then Some (ErrNew ''missing teams client'')
      else if trim_space (ao_FromUserID o') = [] then Some (ErrNew ''missing from user id'')
      else None)"

definition caption_html :: "AttachmentOrchestrator \<Rightarrow> string \<Rightarrow> string" where
  "caption_html o' caption =
     (if trim_space caption = [] then []
      else (case ao_FormatCaption o' of None \<Rightarrow> formatCaptionHTML | Some f \<Rightarrow> f) caption)"

definition Orchestrator_SendAttachmentMessage ::
  "golib \<Rightarrow> 's apis \<Rightarrow> AttachmentOrchestrator \<Rightarrow> string \<Rightarrow> string \<Rightarrow> string \<Rightarrow> string \<Rightarrow> 's
     \<Rightarrow> ((go_error + string) \<times> 's) option" where
  "Orchestrator_SendAttachmentMessage L A o' threadID filename content caption s =
     (case orchestrator_guard o' threadID filename content of
        Some err \<Rightarrow> Some (Inl err, s)
      | None \<Rightarrow>
        (case ap_upload A filename content s of
           None \<Rightarrow> None
         | Some (Inl err, s) \<Rightarrow> Some (Inl err, s)
         | Some (Inr uploaded, s) \<Rightarrow>
           (case ap_share A (di_ListItemUniqueID uploaded) s of
              (Inl err, s) \<Rightarrow> Some (Inl err, s)
            | (Inr share, s) \<Rightarrow>
              (case BuildTeamsAttachmentFilesProperty L (Some uploaded) (Some share) filename
                      (path_ext filename) of
                 Inl err \<Rightarrow> Some (Inl err, s)
               | Inr filesStr \<Rightarrow>
                 (case ap_send A threadID (caption_html o' caption) filesStr (trim_space (ao_FromUserID o'))
                         (ao_GenerateMessageID o') s of
                    (Some err, s) \<Rightarrow> Some (Inl err, s)
                  | (None, s) \<Rightarrow> Some (Inr (ao_GenerateMessageID o'), s))))))"

section \<open>Matrix files\<close>

text \<open>
  What is read of a Matrix event: \<open>mx_name\<close> and \<open>mx_caption\<close> are \<open>GetFileName\<close> and \<open>GetCaption\<close>, which
  the event library derives from the other fields; \<open>mx_file\<close> is the URL of an encrypted file.
\<close>

datatype MsgType = MsgText | MsgImage | MsgFile | MsgVideo | MsgAudio | MsgOther string

record MatrixContent =
  mx_MsgType :: MsgType
  mx_Body :: string
  mx_FileName :: string
  mx_URL :: string
  mx_File :: "string option"
  mx_MimeType :: "string option"
  mx_name :: string
  mx_caption :: string

record MatrixFileInfo =
  mf_MXCURL :: string
  mf_FileName :: string
  mf_MimeType :: string
  mf_Caption :: string
  mf_Encrypted :: bool

text \<open>\<open>mxc\<close> parses an MXC URI and gives its file ID.\<close>

definition ExtractMatrixFileInfo ::
  "(string \<Rightarrow> string option) \<Rightarrow> MatrixContent option \<Rightarrow> go_error + MatrixFileInfo" where
  "ExtractMatrixFileInfo mxc content =
     (case content of None \<Rightarrow> Inl (ErrNew ''missing message content'')
      | Some m \<Rightarrow>
          if mx_MsgType m \<notin> {MsgFile, MsgImage, MsgVideo, MsgAudio} then Inl (ErrNew ''not a file message'')
          else
            (let mxcURL = trim_space (case mx_File m of Some u \<Rightarrow> u | None \<Rightarrow> mx_URL m)
             in if mxcURL = [] then Inl (ErrNew ''missing mxc url'')
                else
                  (let fileName = trim_space (mx_name m);
                       fileName = (if fileName = []
                                   then (case mxc mxcURL of Some i \<Rightarrow> trim_space i | None \<Rightarrow> [])
                                   else fileName);
                       fileName = (if fileName = [] then ''file'' else fileName)
                   in Inr \<lparr>mf_MXCURL = mxcURL, mf_FileName = fileName,
                           mf_MimeType = (case mx_MimeType m of Some t \<Rightarrow> trim_space t | None \<Rightarrow> []),
                           mf_Caption = trim_space (mx_caption m), mf_Encrypted = (mx_File m \<noteq> None)\<rparr>)))"

text \<open>\<open>download\<close> and \<open>send\<close> as state transformers; an error is \<open>Some\<close>.\<close>

definition HandleOutboundMatrixFile ::
  "(string \<Rightarrow> string option) \<Rightarrow> string \<Rightarrow> MatrixContent option
     \<Rightarrow> (string \<Rightarrow> bool \<Rightarrow> go_error + string)
     \<Rightarrow> (string \<Rightarrow> string \<Rightarrow> string \<Rightarrow> string \<Rightarrow> 's \<Rightarrow> (go_error option \<times> 's) option)
     \<Rightarrow> 's \<Rightarrow> (go_error option \<times> 's) option" where
  "HandleOutboundMatrixFile mxc threadID content download send s =
     (case ExtractMatrixFileInfo mxc content of
        Inl err \<Rightarrow> Some (Some err, s)
      | Inr info \<Rightarrow>
        (case download (mf_MXCURL info) (mf_Encrypted info) of
           Inl err \<Rightarrow> Some (Some err, s)
         | Inr b \<Rightarrow>
             if MaxAttachmentBytesV0 < int (length b)
             then Some (Some (ErrNew (''attachment exceeds max size: '' @ format_int (int (length b)) @ '' > ''
                    @ format_int MaxAttachmentBytesV0)), s)
             else send (trim_space threadID) (mf_FileName info) b (mf_Caption info) s))"

section \<open>What an upload returns\<close>

definition item_ok :: "UploadedDriveItem \<Rightarrow> bool" where
  "item_ok item \<longleftrightarrow> list_all (\<lambda>s. s \<noteq> [] \<and> trimmed s)
     [di_DriveItemID item, di_ListItemUniqueID item, di_SiteURL item]"

lemma parsed_item_ok: "parseUploadedDriveItem L r = Inr item \<Longrightarrow> item_ok item"
  by (auto simp: parseUploadedDriveItem_def item_ok_def split: sum.splits if_splits)

lemma GetDriveItem_ok: "GetDriveItem L E until c i = (Inr item, logs) \<Longrightarrow> item_ok item"
  by (auto simp: GetDriveItem_def Let_def split: sum.splits if_splits prod.splits intro: parsed_item_ok)

lemma uploaded_item_ok: "uploaded_item L E until c resp = (Inr item, logs) \<Longrightarrow> item_ok item"
  by (auto simp: uploaded_item_def split: sum.splits if_splits prod.splits option.splits
      intro: parsed_item_ok GetDriveItem_ok)

lemma chunk_round_ok: "chunk_round L G until c url sz content start = (Inl (Inr item), logs) \<Longrightarrow> item_ok item"
  by (auto simp: chunk_round_def split: sum.splits if_splits prod.splits intro: uploaded_item_ok)

lemma chunk_loop_ok:
  "chunk_loop L G until c url sz content start logs = Some r \<Longrightarrow> \<forall>item. fst r = Inr item \<longrightarrow> item_ok item"
  by (rule chunk_loop.raw_induct [where P = "\<lambda>L G until c url sz content start logs r.
        \<forall>item. fst r = Inr item \<longrightarrow> item_ok item", rotated], assumption)
    (auto split: if_splits prod.splits sum.splits dest: chunk_round_ok)

lemma UploadTeamsChatFile_ok:
  "UploadTeamsChatFile L G until c filename content = Some (Inr item, logs) \<Longrightarrow> item_ok item"
  by (auto simp: UploadTeamsChatFile_def UploadFileInChunks_def
      split: sum.splits if_splits prod.splits option.splits dest!: chunk_loop_ok intro: uploaded_item_ok)

lemma CreateShareLink_ok:
  "CreateShareLink L E until c i = (Inr share, logs) \<Longrightarrow>
     sl_ShareURL share \<noteq> [] \<and> trimmed (sl_ShareURL share) \<and> sl_ShareID share \<noteq> [] \<and> trimmed (sl_ShareID share)"
  by (auto simp: CreateShareLink_def Let_def split: sum.splits if_splits prod.splits)

section \<open>The contract of the interfaces\<close>

text \<open>
  The orchestrator relies on this: an uploaded item has its IDs, and only the send call touches what
  has been sent (\<open>outbox\<close>).
\<close>

locale attachment_apis =
  fixes A :: "'s apis"
    and outbox :: "'s \<Rightarrow> 'm"
    and described :: "UploadedDriveItem \<Rightarrow> CreatedShareLink \<Rightarrow> bool"
  assumes upload_keeps: "ap_upload A f content s = Some (res, s') \<Longrightarrow> outbox s' = outbox s"
    and share_keeps: "ap_share A i s = (res', s') \<Longrightarrow> outbox s' = outbox s"
    and upload_item: "ap_upload A f content s = Some (Inr item, s') \<Longrightarrow> item_ok item"
    and described: "ap_upload A f content s0 = Some (Inr item, s1)
      \<Longrightarrow> ap_share A (di_ListItemUniqueID item) s1 = (Inr share, s2) \<Longrightarrow> described item share"
begin

text \<open>
  A result either comes with an untouched outbox and an error, or is that of a send call made after a
  successful upload and a successful share link.
\<close>

lemma send_last:
  assumes "Orchestrator_SendAttachmentMessage L A o' threadID filename content caption s = Some (res, s')"
  shows "outbox s' = outbox s \<and> (\<exists>err. res = Inl err)
    \<or> (\<exists>item share s2 err. outbox s2 = outbox s \<and> item_ok item \<and> described item share
        \<and> ap_send A threadID (caption_html o' caption)
            (lib_marshal L (files_tree item share filename (path_ext filename)))
            (trim_space (ao_FromUserID o')) (ao_GenerateMessageID o') s2 = (err, s')
        \<and> res = (case err of None \<Rightarrow> Inr (ao_GenerateMessageID o') | Some e \<Rightarrow> Inl e))"
proof (cases "orchestrator_guard o' threadID filename content")
  case None
  then have name: "trim_space filename \<noteq> []" by (auto simp: orchestrator_guard_def split: if_splits)
  obtain r s1 where up: "ap_upload A filename content s = Some (r, s1)"
    using assms None by (auto simp: Orchestrator_SendAttachmentMessage_def split: option.splits)
  note keeps1 = upload_keeps [OF up]
  show ?thesis
  proof (cases r)
    case (Inl e)
    with assms None up keeps1 show ?thesis by (auto simp: Orchestrator_SendAttachmentMessage_def)
  next
    case (Inr item)
    obtain r2 s2 where sh: "ap_share A (di_ListItemUniqueID item) s1 = (r2, s2)"
      by (cases "ap_share A (di_ListItemUniqueID item) s1")
    note keeps2 = share_keeps [OF sh]
    show ?thesis
    proof (cases r2)
      case (Inl e)
      with assms None up keeps1 keeps2 sh \<open>r = Inr item\<close> show ?thesis
        by (auto simp: Orchestrator_SendAttachmentMessage_def)
    next
      case (Inr share)
      have ok: "item_ok item" using upload_item up \<open>r = Inr item\<close> by simp
      then have "BuildTeamsAttachmentFilesProperty L (Some item) (Some share) filename (path_ext filename)
          = Inr (lib_marshal L (files_tree item share filename (path_ext filename)))"
        using name by (simp add: BuildTeamsAttachmentFilesProperty_def item_ok_def trim_space_trimmed)
      moreover have "described item share" using described up sh \<open>r = Inr item\<close> Inr by blast
      ultimately show ?thesis
        using assms None up sh keeps1 keeps2 ok \<open>r = Inr item\<close> Inr
        by (cases "ap_send A threadID (caption_html o' caption)
            (lib_marshal L (files_tree item share filename (path_ext filename)))
            (trim_space (ao_FromUserID o')) (ao_GenerateMessageID o') s2")
          (force simp: Orchestrator_SendAttachmentMessage_def split: option.splits)
    qed
  qed
qed (use assms in \<open>auto simp: Orchestrator_SendAttachmentMessage_def\<close>)

end

text \<open>The clients of the bridge as these interfaces; the state is the logs of both.\<close>

type_synonym net_log = "exec_event list list \<times> exec_event list list"

definition client_apis ::
  "golib \<Rightarrow> envs \<Rightarrow> envs \<Rightarrow> (string \<Rightarrow> duration option) \<Rightarrow> string \<Rightarrow> GraphClient \<Rightarrow> Client \<Rightarrow> net_log apis" where
  "client_apis L G E until now gc tc =
     \<lparr>ap_upload = \<lambda>f content (g, t).
        map_option (\<lambda>(r, l). (r, (g @ l, t))) (UploadTeamsChatFile L (\<lambda>i. G (length g + i)) until (Some gc) f content),
      ap_share = \<lambda>i (g, t).
        (case CreateShareLink L (G (length g)) until (Some gc) i of (r, l) \<Rightarrow> (r, (g @ l, t))),
      ap_send = \<lambda>threadID html files from cid (g, t).
        (case SendAttachmentMessageWithID L (E (length t)) until now (Some tc) threadID html files from cid of
           (_, _, err, log) \<Rightarrow> (err, (g, t @ [log])))\<rparr>"

definition link_ok :: "UploadedDriveItem \<Rightarrow> CreatedShareLink \<Rightarrow> bool" where
  "link_ok item share \<longleftrightarrow> sl_ShareURL share \<noteq> [] \<and> trimmed (sl_ShareURL share)"

interpretation client: attachment_apis "client_apis L G E until now gc tc" snd link_ok
  for L G E until now gc tc
  by unfold_locales
    (auto simp: client_apis_def link_ok_def split: prod.splits
       dest: UploadTeamsChatFile_ok CreateShareLink_ok)

lemma client_send:
  "ap_send (client_apis L G E until now gc tc) threadID html files from cid s2 = (err, s') \<Longrightarrow>
     \<exists>tc' st log. SendAttachmentMessageWithID L (E (length (snd s2))) until now (Some tc) threadID html files from cid
         = (tc', st, err, log) \<and> snd s' = snd s2 @ [log]"
  by (cases s2; cases "SendAttachmentMessageWithID L (E (length (snd s2))) until now (Some tc) threadID html files from cid")
    (auto simp: client_apis_def)

section \<open>Reading the files property back\<close>

text \<open>A tree without the source texts its nodes carry.\<close>

fun bare :: "json \<Rightarrow> json" where
  "bare (JArray es) = JArray (map (\<lambda>(_, v). ([], bare v)) es)"
| "bare (JObject ms) = JObject (map (\<lambda>(k, _, v). (k, [], bare v)) ms)"
| "bare v = v"

lemma decode_string_bare [simp]: "decode_string old (bare v) = decode_string old v"
  by (cases v) simp_all

lemma bare_JNull [simp]: "bare v = JNull \<longleftrightarrow> v = JNull"
  by (cases v) simp_all

lemma string_field_bare [simp]:
  "string_field L name old (map (\<lambda>(k, _, v). (k, [], bare v)) ms) = string_field L name old ms"
proof (induction L name old ms rule: string_field.induct)
  case (2 L name old key raw v ms)
  then show ?case by (cases "decode_string old v") simp_all
qed simp

lemma tree_field_bare [simp]:
  "tree_field L name (bare old) (map (\<lambda>(k, _, v). (k, [], bare v)) ms) = bare (tree_field L name old ms)"
  by (induction L name old ms rule: tree_field.induct) auto

lemma members_bare: "members (bare v) = map_option (map (\<lambda>(k, _, v). (k, [], bare v))) (members v)"
  by (cases v) simp_all

lemma decode_file_bare: "decode_file L (bare v) = decode_file L v"
  using tree_field_bare [of L "''fileInfo''" JNull]
  by (cases "members v") (simp_all add: decode_file_def members_bare option.map_comp comp_def
      Option.bind_map_option)

lemma file_entry:
  "decode_file L (file_descriptor u d site f e link i) = Some (f, d, link, file_url site f, e)"
proof -
  have f: "field_is L a b \<longleftrightarrow> (list_all is_ascii a \<and> list_all is_ascii b \<and> map ascii_lower b = map ascii_lower a)"
    if "list_all is_ascii a" "list_all is_ascii b" for a b
    using that by (auto simp: field_is_def equal_fold_def)
  show ?thesis
    by (simp add: decode_file_def file_descriptor_def json_map_def f is_ascii_def ascii_lower_def Let_def)
qed

section \<open>Properties\<close>


definition attachment_lib :: golib where
  "attachment_lib = (graph_lib 0)\<lparr>lib_json_first := \<lambda>s. Some (if s = ''item'' then item_tree
     else JObject [(''shareId'', [], JString ''u!1''), (''link'', [], JObject [(''webUrl'', [], JString ''https://1drv'')])]),
     lib_marshal := \<lambda>_. ''[x]''\<rparr>"

definition attachment_envs :: envs where
  "attachment_envs k = replying (body_reply 201 (if k = 0 then ''item'' else ''link''))"

definition teams_client :: Client where
  "teams_client = (NewClient True)\<lparr>cl_Token := ''T''\<rparr>"

definition sample_orchestrator :: AttachmentOrchestrator where
  "sample_orchestrator = \<lparr>ao_has_graph = True, ao_has_teams = True, ao_FromUserID = ''8:me'', ao_MaxBytes = 0,
     ao_GenerateMessageID = ''77'', ao_FormatCaption = None\<rparr>"

lemma sample_sent:
  "map_option fst (Orchestrator_SendAttachmentMessage attachment_lib
      (client_apis attachment_lib attachment_envs attachment_envs (\<lambda>_. None) ''now'' graph_client teams_client)
      sample_orchestrator ''t'' ''a.txt'' ''abc'' [] ([], [])) = Some (Inr ''77'')"
  by code_simp

lemma orchestrator_Inr:
  "map_option fst x = Some r \<Longrightarrow> \<exists>g' t'. x = Some (r, (g', t'))"
  by (cases x) auto


text \<open>
  C38: what the bridge attaches is what it reads. If the JSON library reads the text it has written for the
  files property of an uploaded item and its link back to the same tree, parsing that property as that
  of an incoming message gives exactly one attachment, with the name, the drive item, the share URL and
  the type of the file that was sent.
\<close>

theorem files_property_roundtrip:
  assumes "item_ok item" and "link_ok item share" and "trim_space filename \<noteq> []"
    and "BuildTeamsAttachmentFilesProperty L (Some item) (Some share) filename ext = Inr files"
    and "trimmed files" and "files \<notin> {[], ''[]''}" and "\<not> has_prefix files [CHR 0x22]"
    and "lib_json L files = Some v" and "bare v = bare (files_tree item share filename ext)"
  shows "ParseAttachments L files = Some [\<lparr>ta_Filename = trim_space filename,
      ta_DriveItemID = di_DriveItemID item, ta_ShareURL = sl_ShareURL share,
      ta_DownloadURL = trim_space (file_url (di_SiteURL item) (trim_space filename)),
      ta_FileType = trim_space (trim_prefix (trim_space ext) ''.'')\<rparr>]"
proof -
  obtain raw w where v: "v = JArray [(raw, w)]"
    and w: "bare w = bare (file_descriptor (di_ListItemUniqueID item) (di_DriveItemID item) (di_SiteURL item)
        (trim_space filename) (trim_prefix (trim_space ext) ''.'') (sl_ShareURL share) (trim_space (sl_ShareID share)))"
    using assms(1,2,9)
    by (cases v) (auto simp: files_tree_def item_ok_def link_ok_def trim_space_trimmed)
  have "decode_file L w = Some (trim_space filename, di_DriveItemID item, sl_ShareURL share,
      file_url (di_SiteURL item) (trim_space filename), trim_prefix (trim_space ext) ''.'')"
    using decode_file_bare [of L w] decode_file_bare [of L "file_descriptor (di_ListItemUniqueID item)
        (di_DriveItemID item) (di_SiteURL item) (trim_space filename) (trim_prefix (trim_space ext) ''.'')
        (sl_ShareURL share) (trim_space (sl_ShareID share))"] w
    by (simp add: file_entry)
  with assms v show ?thesis
    by (simp add: ParseAttachments_def Let_def trim_space_trimmed item_ok_def link_ok_def)
qed

definition roundtrip_item :: UploadedDriveItem where
  "roundtrip_item = \<lparr>di_DriveItemID = ''d'', di_ListItemUniqueID = ''u'', di_SiteURL = ''https://s'',
     di_FileName = ''f'', di_Size = 3\<rparr>"

definition roundtrip_link :: CreatedShareLink where
  "roundtrip_link = \<lparr>sl_ShareID = ''u!'', sl_ShareURL = ''https://1drv''\<rparr>"

definition roundtrip_lib :: golib where
  "roundtrip_lib = plain_lib\<lparr>lib_marshal := \<lambda>_. ''[x]'',
     lib_json := \<lambda>_. Some (files_tree roundtrip_item roundtrip_link ''a.txt'' ''.txt'')\<rparr>"

theorem files_property_roundtrip_witness:
  "\<exists>a. ParseAttachments roundtrip_lib ''[x]'' = Some [a] \<and> ta_Filename a = ''a.txt'' \<and> ta_ShareURL a = ''https://1drv''"
proof -
  have t: "trim_space ''a.txt'' = ''a.txt''" "trim_space ''d'' = ''d''" "trim_space ''u'' = ''u''"
    "trim_space ''https://s'' = ''https://s''" "trim_space ''https://1drv'' = ''https://1drv''"
    "trim_space ''[x]'' = ''[x]''" by code_simp+
  have "item_ok roundtrip_item" "link_ok roundtrip_item roundtrip_link"
    using t by (simp_all add: item_ok_def link_ok_def roundtrip_item_def roundtrip_link_def flip: trim_space_id_iff)
  moreover from this have "BuildTeamsAttachmentFilesProperty roundtrip_lib (Some roundtrip_item) (Some roundtrip_link)
      ''a.txt'' ''.txt'' = Inr ''[x]''"
    by (simp add: BuildTeamsAttachmentFilesProperty_def t item_ok_def trim_space_trimmed roundtrip_lib_def)
  ultimately have "ParseAttachments roundtrip_lib ''[x]'' = Some [\<lparr>ta_Filename = trim_space ''a.txt'',
      ta_DriveItemID = di_DriveItemID roundtrip_item, ta_ShareURL = sl_ShareURL roundtrip_link,
      ta_DownloadURL = trim_space (file_url (di_SiteURL roundtrip_item) (trim_space ''a.txt'')),
      ta_FileType = trim_space (trim_prefix (trim_space ''.txt'') ''.'')\<rparr>]"
    using files_property_roundtrip [of roundtrip_item roundtrip_link "''a.txt''" roundtrip_lib "''.txt''" "''[x]''"]
    by (simp add: t roundtrip_lib_def flip: trim_space_id_iff)
  then show ?thesis by (simp add: t roundtrip_link_def)
qed

end
