(* ===== verification/TeamsDB.thy ===== *)
theory TeamsDB
  imports Executor GoLib "HOL-Library.AList"
begin

text \<open>
  \<open>pkg/teamsdb\<close>: the three tables of the bridge (thread state, profiles, read horizons) and their
  queries. A table is the list of its rows by primary key, in the order of their insertion; the SQL
  statements are updates of such lists. The argument \<open>fault\<close> of a query is the error with which the
  database answers, if it does. A query object that is nil, or has no database, is \<open>None\<close>.
\<close>

section \<open>Keyed tables\<close>

text \<open>\<open>INSERT ... ON CONFLICT DO UPDATE\<close>: \<open>merge old new\<close> is the row after a conflict.\<close>

definition upsert :: "('r \<Rightarrow> 'r \<Rightarrow> 'r) \<Rightarrow> 'k \<Rightarrow> 'r \<Rightarrow> ('k \<times> 'r) list \<Rightarrow> ('k \<times> 'r) list" where
  "upsert merge k r t =
     AList.update k (case map_of t k of None \<Rightarrow> r | Some old \<Rightarrow> merge old r) t"

text \<open>\<open>UPDATE ... WHERE\<close> the whole key.\<close>

definition modify :: "('r \<Rightarrow> 'r) \<Rightarrow> 'k \<Rightarrow> ('k \<times> 'r) list \<Rightarrow> ('k \<times> 'r) list" where
  "modify f k t = (case map_of t k of None \<Rightarrow> t | Some old \<Rightarrow> AList.update k (f old) t)"

text \<open>What the queries rely on: a row is found under its key, and other rows are left alone.\<close>

locale keyed_table =
  fixes find_row :: "'t \<Rightarrow> 'k \<Rightarrow> 'r option"
    and put_row :: "('r \<Rightarrow> 'r \<Rightarrow> 'r) \<Rightarrow> 'k \<Rightarrow> 'r \<Rightarrow> 't \<Rightarrow> 't"
    and change_row :: "('r \<Rightarrow> 'r) \<Rightarrow> 'k \<Rightarrow> 't \<Rightarrow> 't"
  assumes find_put: "find_row (put_row merge k r t) k' =
      (if k' = k then Some (case find_row t k of None \<Rightarrow> r | Some old \<Rightarrow> merge old r)
       else find_row t k')"
    and find_change: "find_row (change_row f k t) k' =
      (if k' = k then map_option f (find_row t k) else find_row t k')"
begin

text \<open>Repeating an upsert whose merge keeps what it has written changes nothing.\<close>

lemma put_put:
  assumes "\<And>old. merge (merge old r) r = merge old r" and "merge r r = r"
  shows "find_row (put_row merge k r (put_row merge k r t)) = find_row (put_row merge k r t)"
  using assms by (auto simp: find_put split: option.split)

text \<open>A part of the row that neither the merge nor the change touches survives.\<close>

lemma kept_by_put:
  assumes "find_row t k = Some old" and "\<And>new. proj (merge old new) = proj old"
  shows "\<exists>row. find_row (put_row merge k r t) k = Some row \<and> proj row = proj old"
  using assms by (auto simp: find_put)

lemma find_put_other: "k' \<noteq> k \<Longrightarrow> find_row (put_row merge k r t) k' = find_row t k'"
  by (simp add: find_put)

lemma find_change_other: "k' \<noteq> k \<Longrightarrow> find_row (change_row f k t) k' = find_row t k'"
  by (simp add: find_change)

end

interpretation rows: keyed_table map_of upsert modify
  by unfold_locales (auto simp: upsert_def modify_def update_conv' split: option.split)

definition table_ok :: "('k \<times> 'r) list \<Rightarrow> bool" where
  "table_ok t \<longleftrightarrow> distinct (map fst t)"

lemma table_ok_upsert: "table_ok t \<Longrightarrow> table_ok (upsert merge k r t)"
  by (simp add: table_ok_def upsert_def distinct_update)

lemma table_ok_modify: "table_ok t \<Longrightarrow> table_ok (modify f k t)"
  by (simp add: table_ok_def modify_def distinct_update split: option.split)

section \<open>Thread state\<close>

record ThreadState =
  ts_BridgeID :: string
  ts_UserLoginID :: string
  ts_ThreadID :: string
  ts_Conversation :: string
  ts_IsOneToOne :: bool
  ts_Name :: string
  ts_LastSequenceID :: string
  ts_LastMessageTS :: int

text \<open>A row below its key: conversation, kind, name, and the cursor.\<close>

record thread_row =
  tr_conversation_id :: string
  tr_is_one_to_one :: bool
  tr_name :: string
  tr_last_sequence_id :: string
  tr_last_message_ts :: int

type_synonym thread_table = "((string \<times> string \<times> string) \<times> thread_row) list"

definition errMissingDB :: go_error where
  "errMissingDB = ErrNew ''teamsdb missing database''"

definition keep_cursor :: "thread_row \<Rightarrow> thread_row \<Rightarrow> thread_row" where
  "keep_cursor old new =
     old\<lparr>tr_conversation_id := tr_conversation_id new, tr_is_one_to_one := tr_is_one_to_one new,
         tr_name := tr_name new\<rparr>"

definition thread_state_of :: "string \<Rightarrow> string \<Rightarrow> string \<Rightarrow> thread_row \<Rightarrow> ThreadState" where
  "thread_state_of bridge login tid r =
     \<lparr>ts_BridgeID = bridge, ts_UserLoginID = login, ts_ThreadID = tid,
      ts_Conversation = tr_conversation_id r, ts_IsOneToOne = tr_is_one_to_one r,
      ts_Name = tr_name r, ts_LastSequenceID = tr_last_sequence_id r,
      ts_LastMessageTS = tr_last_message_ts r\<rparr>"

text \<open>The caller's state is trimmed in place, so it is returned too.\<close>

definition ThreadState_Upsert ::
  "string option \<Rightarrow> go_error option \<Rightarrow> ThreadState option \<Rightarrow> thread_table
     \<Rightarrow> go_error option \<times> ThreadState option \<times> thread_table"
where
  "ThreadState_Upsert q fault state t =
     (case q of None \<Rightarrow> (Some errMissingDB, state, t)
      | Some bridge \<Rightarrow>
        (case state of None \<Rightarrow> (Some (ErrNew ''thread state is nil''), None, t)
         | Some st \<Rightarrow>
           (let st = st\<lparr>ts_ThreadID := trim_space (ts_ThreadID st),
                        ts_Conversation := trim_space (ts_Conversation st)\<rparr>
            in if ts_ThreadID st = [] \<or> ts_Conversation st = []
               then (Some (ErrNew ''missing thread_id or conversation_id''), Some st, t)
               else case fault of Some e \<Rightarrow> (Some e, Some st, t)
               | None \<Rightarrow> (None, Some st,
                   upsert keep_cursor (bridge, ts_UserLoginID st, ts_ThreadID st)
                     \<lparr>tr_conversation_id = ts_Conversation st, tr_is_one_to_one = ts_IsOneToOne st,
                      tr_name = ts_Name st, tr_last_sequence_id = ts_LastSequenceID st,
                      tr_last_message_ts = ts_LastMessageTS st\<rparr> t))))"

definition ThreadState_UpdateCursor ::
  "string option \<Rightarrow> go_error option \<Rightarrow> string \<Rightarrow> string \<Rightarrow> string \<Rightarrow> int \<Rightarrow> thread_table
     \<Rightarrow> go_error option \<times> thread_table"
where
  "ThreadState_UpdateCursor q fault login threadID lastSequenceID lastMessageTS t =
     (case q of None \<Rightarrow> (Some errMissingDB, t)
      | Some bridge \<Rightarrow>
        (let threadID = trim_space threadID
         in if threadID = [] then (Some (ErrNew ''missing thread id''), t)
            else case fault of Some e \<Rightarrow> (Some e, t)
            | None \<Rightarrow> (None,
                modify (\<lambda>r. r\<lparr>tr_last_sequence_id := lastSequenceID, tr_last_message_ts := lastMessageTS\<rparr>)
                  (bridge, login, threadID) t)))"

definition ThreadState_ListForLogin ::
  "string option \<Rightarrow> go_error option \<Rightarrow> string \<Rightarrow> thread_table \<Rightarrow> go_error + ThreadState list"
where
  "ThreadState_ListForLogin q fault login t =
     (case q of None \<Rightarrow> Inl errMissingDB
      | Some bridge \<Rightarrow>
        (case fault of Some e \<Rightarrow> Inl e
         | None \<Rightarrow> Inr (map (\<lambda>((b, l, tid), r). thread_state_of b l tid r)
             (filter (\<lambda>((b, l, tid), r). b = bridge \<and> l = login) t))))"

definition ThreadState_Get ::
  "string option \<Rightarrow> go_error option \<Rightarrow> string \<Rightarrow> string \<Rightarrow> thread_table
     \<Rightarrow> go_error + ThreadState option"
where
  "ThreadState_Get q fault login threadID t =
     (case q of None \<Rightarrow> Inl errMissingDB
      | Some bridge \<Rightarrow>
        (let threadID = trim_space threadID
         in if threadID = [] then Inr None
            else case fault of Some e \<Rightarrow> Inl e
            | None \<Rightarrow> Inr (map_option (thread_state_of bridge login threadID)
                (map_of t (bridge, login, threadID)))))"

section \<open>Profiles\<close>

record Profile =
  pr_BridgeID :: string
  pr_TeamsUserID :: string
  pr_DisplayName :: string
  pr_LastSeenTS :: instant

type_synonym profile_table = "((string \<times> string) \<times> string \<times> int) list"

definition ErrNoRows :: go_error where "ErrNoRows = ErrNew ''sql: no rows in result set''"

text \<open>The columns are never null, so \<open>scan\<close> fills every field; a missing row is the error.\<close>

definition Profile_GetByTeamsUserID ::
  "string option \<Rightarrow> go_error option \<Rightarrow> string \<Rightarrow> profile_table \<Rightarrow> go_error + Profile option"
where
  "Profile_GetByTeamsUserID q fault teamsUserID t =
     (case q of None \<Rightarrow> Inl errMissingDB
      | Some bridge \<Rightarrow>
        (let teamsUserID = trim_space teamsUserID
         in if teamsUserID = [] then Inr None
            else case fault of Some e \<Rightarrow> Inl e
            | None \<Rightarrow>
              (case map_of t (bridge, teamsUserID) of
                 None \<Rightarrow> Inl ErrNoRows
               | Some (displayName, lastSeenMS) \<Rightarrow>
                   Inr (Some \<lparr>pr_BridgeID = bridge, pr_TeamsUserID = teamsUserID,
                     pr_DisplayName = displayName, pr_LastSeenTS = lastSeenMS * 1000000\<rparr>))))"

definition Profile_Upsert ::
  "string option \<Rightarrow> go_error option \<Rightarrow> string \<Rightarrow> string \<Rightarrow> instant \<Rightarrow> profile_table
     \<Rightarrow> go_error option \<times> profile_table"
where
  "Profile_Upsert q fault teamsUserID displayName lastSeen t =
     (case q of None \<Rightarrow> (Some errMissingDB, t)
      | Some bridge \<Rightarrow>
        (let teamsUserID = trim_space teamsUserID; displayName = trim_space displayName
         in if teamsUserID = [] \<or> displayName = [] then (None, t)
            else case fault of Some e \<Rightarrow> (Some e, t)
            | None \<Rightarrow> (None, upsert (\<lambda>_ new. new) (bridge, teamsUserID)
                (displayName, unix_milli lastSeen) t)))"

section \<open>Read horizons\<close>

record ConsumptionHorizonState =
  hs_BridgeID :: string
  hs_UserLoginID :: string
  hs_ThreadID :: string
  hs_TeamsUserID :: string
  hs_LastReadTS :: int

type_synonym horizon_table = "((string \<times> string \<times> string \<times> string) \<times> int) list"

definition ConsumptionHorizon_Get ::
  "string option \<Rightarrow> go_error option \<Rightarrow> string \<Rightarrow> string \<Rightarrow> string \<Rightarrow> horizon_table
     \<Rightarrow> go_error + ConsumptionHorizonState option"
where
  "ConsumptionHorizon_Get q fault login threadID teamsUserID t =
     (case q of None \<Rightarrow> Inl errMissingDB
      | Some bridge \<Rightarrow>
        (let threadID = trim_space threadID; teamsUserID = trim_space teamsUserID
         in if threadID = [] \<or> teamsUserID = [] then Inr None
            else case fault of Some e \<Rightarrow> Inl e
            | None \<Rightarrow> Inr (map_option (\<lambda>ts. \<lparr>hs_BridgeID = bridge, hs_UserLoginID = login,
                hs_ThreadID = threadID, hs_TeamsUserID = teamsUserID, hs_LastReadTS = ts\<rparr>)
                (map_of t (bridge, login, threadID, teamsUserID)))))"

definition ConsumptionHorizon_UpsertLastRead ::
  "string option \<Rightarrow> go_error option \<Rightarrow> string \<Rightarrow> string \<Rightarrow> string \<Rightarrow> int \<Rightarrow> horizon_table
     \<Rightarrow> go_error option \<times> horizon_table"
where
  "ConsumptionHorizon_UpsertLastRead q fault login threadID teamsUserID lastReadTS t =
     (case q of None \<Rightarrow> (Some errMissingDB, t)
      | Some bridge \<Rightarrow>
        (let threadID = trim_space threadID; teamsUserID = trim_space teamsUserID
         in if threadID = [] \<or> teamsUserID = []
            then (Some (ErrNew ''missing thread id or teams user id''), t)
            else case fault of Some e \<Rightarrow> (Some e, t)
            | None \<Rightarrow> (None, upsert (\<lambda>_ new. new) (bridge, login, threadID, teamsUserID) lastReadTS t)))"

section \<open>Properties\<close>

lemmas thread_query_defs = ThreadState_Upsert_def ThreadState_UpdateCursor_def ThreadState_Get_def
  ThreadState_ListForLogin_def thread_state_of_def Let_def

text \<open>
  Discovery never rewinds a cursor. When the state of a known thread is upserted, reading it back
  gives the new conversation, kind and name with the old sequence ID and time of the last
  message; a new thread gets the cursor of the upserted state; the rows of all other threads and
  logins stay as they are, and keys stay unique.
\<close>

theorem Upsert_keeps_cursor:
  assumes "trim_space (ts_ThreadID st) \<noteq> []" and "trim_space (ts_Conversation st) \<noteq> []"
    and "table_ok t"
    and "ThreadState_Upsert (Some bridge) None (Some st) t = (err, st', t')"
  shows "err = None \<and> table_ok t'
    \<and> (\<exists>row. ThreadState_Get (Some bridge) None (ts_UserLoginID st) (ts_ThreadID st) t' = Inr (Some row)
        \<and> ts_Conversation row = trim_space (ts_Conversation st) \<and> ts_Name row = ts_Name st
        \<and> ts_IsOneToOne row = ts_IsOneToOne st
        \<and> (ts_LastSequenceID row, ts_LastMessageTS row) =
          (case ThreadState_Get (Some bridge) None (ts_UserLoginID st) (ts_ThreadID st) t of
             Inr (Some old) \<Rightarrow> (ts_LastSequenceID old, ts_LastMessageTS old)
           | _ \<Rightarrow> (ts_LastSequenceID st, ts_LastMessageTS st)))
    \<and> (\<forall>k. k \<noteq> (bridge, ts_UserLoginID st, trim_space (ts_ThreadID st)) \<longrightarrow> map_of t' k = map_of t k)"
  using assms
  by (auto simp: thread_query_defs rows.find_put keep_cursor_def table_ok_upsert split: option.split)

definition sample_state :: ThreadState where
  "sample_state = \<lparr>ts_BridgeID = ''b'', ts_UserLoginID = ''me'', ts_ThreadID = '' 19:x@thread.v2'',
     ts_Conversation = ''19:x@thread.v2'', ts_IsOneToOne = False, ts_Name = ''New'',
     ts_LastSequenceID = [], ts_LastMessageTS = 0\<rparr>"

definition sample_table :: thread_table where
  "sample_table = [((''b'', ''me'', ''19:x@thread.v2''), \<lparr>tr_conversation_id = ''old'',
     tr_is_one_to_one = True, tr_name = ''Old'', tr_last_sequence_id = ''41'', tr_last_message_ts = 7\<rparr>)]"

theorem Upsert_keeps_cursor_witness:
  "\<exists>row. ThreadState_Get (Some ''b'') None ''me'' '' 19:x@thread.v2''
      (snd (snd (ThreadState_Upsert (Some ''b'') None (Some sample_state) sample_table))) = Inr (Some row)
    \<and> ts_Name row = ''New'' \<and> ts_LastSequenceID row = ''41''"
proof -
  have t: "trim_space '' 19:x@thread.v2'' = ''19:x@thread.v2''"
    "trim_space ''19:x@thread.v2'' = ''19:x@thread.v2''" by code_simp+
  obtain err st' t' where r: "ThreadState_Upsert (Some ''b'') None (Some sample_state) sample_table = (err, st', t')"
    by (cases "ThreadState_Upsert (Some ''b'') None (Some sample_state) sample_table")
  have "ThreadState_Get (Some ''b'') None ''me'' '' 19:x@thread.v2'' sample_table
      = Inr (Some (thread_state_of ''b'' ''me'' ''19:x@thread.v2'' (snd (hd sample_table))))"
    by (simp add: ThreadState_Get_def t sample_table_def)
  with Upsert_keeps_cursor [OF _ _ _ r] show ?thesis unfolding r snd_conv
    by (auto simp: sample_state_def t sample_table_def table_ok_def thread_state_of_def)
qed

lemma keys_modify: "map fst (modify f k t) = map fst t"
  by (auto simp: modify_def update_keys map_of_eq_None_iff split: option.split
      dest: map_of_SomeD intro: rev_image_eqI)

lemma listed_threads:
  "map_option (map ts_ThreadID) (case ThreadState_ListForLogin (Some bridge) None login t of
      Inr l \<Rightarrow> Some l | Inl _ \<Rightarrow> None)
    = Some (map (snd \<circ> snd) (filter (\<lambda>(b, l, tid). b = bridge \<and> l = login) (map fst t)))"
  by (induction t) (auto simp: thread_query_defs)

text \<open>The thread IDs of a list that was read, if it was.\<close>

definition listed_ids :: "go_error + ThreadState list \<Rightarrow> string list option" where
  "listed_ids res = (case res of Inr l \<Rightarrow> Some (map ts_ThreadID l) | Inl _ \<Rightarrow> None)"

text \<open>
  A cursor that is written is the cursor that is read. After \<open>UpdateCursor\<close> of a thread that has
  a row, \<open>Get\<close> returns the new sequence ID and time with the old name, kind and conversation, and
  \<open>ListForLogin\<close> of every login lists exactly the threads it listed before.
\<close>

theorem UpdateCursor_Get:
  assumes "ThreadState_Get (Some bridge) None login tid t = Inr (Some old)"
    and "ThreadState_UpdateCursor (Some bridge) None login tid seq ts t = (err, t')"
  shows "err = None
    \<and> ThreadState_Get (Some bridge) None login tid t'
        = Inr (Some (old\<lparr>ts_LastSequenceID := seq, ts_LastMessageTS := ts\<rparr>))
    \<and> listed_ids (ThreadState_ListForLogin (Some bridge) None other t')
        = listed_ids (ThreadState_ListForLogin (Some bridge) None other t)"
proof -
  from assms have t': "err = None" "t' = modify (\<lambda>r. r\<lparr>tr_last_sequence_id := seq,
      tr_last_message_ts := ts\<rparr>) (bridge, login, trim_space tid) t"
    by (auto simp: ThreadState_Get_def ThreadState_UpdateCursor_def Let_def split: if_splits)
  have "listed_ids (ThreadState_ListForLogin (Some bridge) None other u) =
      Some (map (snd \<circ> snd) (filter (\<lambda>(b, l, tid). b = bridge \<and> l = other) (map fst u)))" for u
    using listed_threads [of bridge other u]
    by (simp add: listed_ids_def ThreadState_ListForLogin_def)
  moreover have "ThreadState_Get (Some bridge) None login tid t'
      = Inr (Some (old\<lparr>ts_LastSequenceID := seq, ts_LastMessageTS := ts\<rparr>))"
    using assms(1) by (auto simp: t' ThreadState_Get_def rows.find_change thread_state_of_def Let_def
        split: if_splits)
  ultimately show ?thesis by (simp add: t' keys_modify)
qed

theorem UpdateCursor_Get_witness:
  "ThreadState_Get (Some ''b'') None ''me'' ''19:x@thread.v2''
     (snd (ThreadState_UpdateCursor (Some ''b'') None ''me'' ''19:x@thread.v2'' ''42'' 9 sample_table))
   = Inr (Some ((thread_state_of ''b'' ''me'' ''19:x@thread.v2'' (snd (hd sample_table)))
       \<lparr>ts_LastSequenceID := ''42'', ts_LastMessageTS := 9\<rparr>))"
proof -
  have t: "trim_space ''19:x@thread.v2'' = ''19:x@thread.v2''" by code_simp
  have "ThreadState_Get (Some ''b'') None ''me'' ''19:x@thread.v2'' sample_table
      = Inr (Some (thread_state_of ''b'' ''me'' ''19:x@thread.v2'' (snd (hd sample_table))))"
    by (simp add: ThreadState_Get_def t sample_table_def)
  from UpdateCursor_Get [OF this surjective_pairing] show ?thesis by simp
qed

text \<open>
  The two key-value tables return what was stored last: a profile comes back with the trimmed
  name and the time cut to milliseconds, a read horizon with the stored time, whatever was in the
  table before.
\<close>

theorem profile_horizon_roundtrip:
  assumes "trim_space user \<noteq> []" and "trim_space name \<noteq> []" and "trim_space thread \<noteq> []"
  shows "Profile_GetByTeamsUserID (Some bridge) None user
      (snd (Profile_Upsert (Some bridge) None user name seen profiles))
      = Inr (Some \<lparr>pr_BridgeID = bridge, pr_TeamsUserID = trim_space user,
          pr_DisplayName = trim_space name, pr_LastSeenTS = seen - seen mod 1000000\<rparr>)
    \<and> ConsumptionHorizon_Get (Some bridge) None login thread user
      (snd (ConsumptionHorizon_UpsertLastRead (Some bridge) None login thread user ts horizons))
      = Inr (Some \<lparr>hs_BridgeID = bridge, hs_UserLoginID = login, hs_ThreadID = trim_space thread,
          hs_TeamsUserID = trim_space user, hs_LastReadTS = ts\<rparr>)"
  using assms
  by (auto simp: Profile_GetByTeamsUserID_def Profile_Upsert_def ConsumptionHorizon_Get_def
      ConsumptionHorizon_UpsertLastRead_def Let_def rows.find_put unix_milli_def
      minus_mod_eq_div_mult split: option.split)

theorem profile_horizon_roundtrip_witness:
  "Profile_GetByTeamsUserID (Some ''b'') None ''8:ann''
     (snd (Profile_Upsert (Some ''b'') None ''8:ann'' ''Ann'' 1234567 [])) =
   Inr (Some \<lparr>pr_BridgeID = ''b'', pr_TeamsUserID = ''8:ann'', pr_DisplayName = ''Ann'',
     pr_LastSeenTS = 1000000\<rparr>)"
proof -
  have t: "trim_space ''8:ann'' = ''8:ann''" "trim_space ''Ann'' = ''Ann''" by code_simp+
  from profile_horizon_roundtrip [of "''8:ann''" "''Ann''" "''8:ann''" "''b''" 1234567 "[]" "[]" 0 "[]"]
  show ?thesis by (simp add: t)
qed

end
