(* ===== verification/Reactions.thy ===== *)
theory Reactions
  imports Message "HOL-Library.Multiset" "HOL-Library.AList"
begin

text \<open>
  \<open>pkg/connector/reactions.go\<close> and \<open>id.go\<close>, and the part of \<open>handleteams.go\<close> that turns the
  reactions of a Teams message into a reaction sync: the emoji tables, message IDs of reaction
  targets, \<open>buildReactionSyncData\<close> and the record of messages whose reactions were seen.

  \<open>fq\<close> is \<open>variationselector.FullyQualify\<close>, which adds the variation selectors an emoji needs. An
  emoji is its UTF-8 bytes.
\<close>

section \<open>IDs\<close>

definition isLikelyThreadID :: "golib \<Rightarrow> string \<Rightarrow> bool" where
  "isLikelyThreadID L value =
     (let normalized = lower L (trim_space value)
      in if normalized = [] then False
         else contains normalized ''@thread.v2'' \<or> contains normalized ''@thread.skype''
              \<or> contains normalized ''@unq.gbl.spaces'')"

definition teamsUserIDToNetworkUserID :: "string \<Rightarrow> string" where
  "teamsUserIDToNetworkUserID teamsUserID = trim_space teamsUserID"

record PortalKey =
  pk_ID :: string
  pk_Receiver :: string

definition portalKey :: "string \<Rightarrow> string \<Rightarrow> PortalKey" where
  "portalKey login threadID = \<lparr>pk_ID = trim_space threadID, pk_Receiver = login\<rparr>"

definition NormalizeTeamsReactionMessageID :: "string \<Rightarrow> string" where
  "NormalizeTeamsReactionMessageID value =
     (let value = trim_space value
      in if value = [] then []
         else if has_prefix value ''msg/'' then trim_prefix value ''msg/'' else value)"

definition NormalizeTeamsReactionTargetMessageID :: "string \<Rightarrow> string" where
  "NormalizeTeamsReactionTargetMessageID value = NormalizeTeamsReactionMessageID value"

definition effectiveRemoteMessageID :: "RemoteMessage \<Rightarrow> string" where
  "effectiveRemoteMessageID msg =
     (let effectiveMessageID = NormalizeTeamsReactionMessageID (rm_MessageID msg)
      in if effectiveMessageID = [] then NormalizeTeamsReactionMessageID (rm_SequenceID msg)
         else effectiveMessageID)"

section \<open>The emoji tables\<close>

text \<open>The literal of \<open>emojiToEmotionKey\<close>, in its order; of equal keys the last one stays.\<close>

definition emoji_literal :: "(string \<times> string) list" where
  "emoji_literal =
   [([CHR 0xF0, CHR 0x9F, CHR 0x91, CHR 0x8D, CHR 0xF0, CHR 0x9F, CHR 0x8F, CHR 0xBB], ''like''),
    ([CHR 0xF0, CHR 0x9F, CHR 0x91, CHR 0x8C, CHR 0xF0, CHR 0x9F, CHR 0x8F, CHR 0xBB], ''ok''),
    ([CHR 0xF0, CHR 0x9F, CHR 0x94, CHR 0xA5], ''fire''),
    ([CHR 0xF0, CHR 0x9F, CHR 0x92, CHR 0x99], ''heartblue''),
    ([CHR 0xF0, CHR 0x9F, CHR 0x99, CHR 0x82], ''smile''),
    ([CHR 0xF0, CHR 0x9F, CHR 0x98, CHR 0x84], ''laugh''),
    ([CHR 0xE2, CHR 0x9D, CHR 0xA4, CHR 0xEF, CHR 0xB8, CHR 0x8F], ''heart''),
    ([CHR 0xF0, CHR 0x9F, CHR 0x98, CHR 0x98], ''kiss''),
    ([CHR 0xE2, CHR 0x98, CHR 0xB9, CHR 0xEF, CHR 0xB8, CHR 0x8F], ''sad''),
    ([CHR 0xF0, CHR 0x9F, CHR 0x98, CHR 0x9B], ''tongueout''),
    ([CHR 0xF0, CHR 0x9F, CHR 0x98, CHR 0x89], ''wink''),
    ([CHR 0xF0, CHR 0x9F, CHR 0x98, CHR 0xA2], ''cry''),
    ([CHR 0xF0, CHR 0x9F, CHR 0x98, CHR 0x8D], ''inlove''),
    ([CHR 0xF0, CHR 0x9F, CHR 0xA4, CHR 0x97], ''hug''),
    ([CHR 0xF0, CHR 0x9F, CHR 0x98, CHR 0x82], ''cwl''),
    ([CHR 0xF0, CHR 0x9F, CHR 0x92, CHR 0x8B], ''lips''),
    ([CHR 0xF0, CHR 0x9F, CHR 0x98, CHR 0x8A], ''blush''),
    ([CHR 0xF0, CHR 0x9F, CHR 0x98, CHR 0xAE], ''surprised''),
    ([CHR 0xF0, CHR 0x9F, CHR 0x90, CHR 0xA7], ''penguin''),
    ([CHR 0xF0, CHR 0x9F, CHR 0x91, CHR 0x8D], ''like''),
    ([CHR 0xF0, CHR 0x9F, CHR 0x98, CHR 0x8E], ''cool''),
    ([CHR 0xF0, CHR 0x9F, CHR 0xA4, CHR 0xA3], ''rofl''),
    ([CHR 0xF0, CHR 0x9F, CHR 0x90, CHR 0xB1], ''cat''),
    ([CHR 0xF0, CHR 0x9F, CHR 0x90, CHR 0xB5], ''monkey''),
    ([CHR 0xF0, CHR 0x9F, CHR 0x91, CHR 0x8B], ''hi''),
    ([CHR 0xE2, CHR 0x9D, CHR 0x84, CHR 0xEF, CHR 0xB8, CHR 0x8F], ''snowangel''),
    ([CHR 0xF0, CHR 0x9F, CHR 0x8C, CHR 0xB8], ''flower''),
    ([CHR 0xF0, CHR 0x9F, CHR 0x98, CHR 0x81], ''giggle''),
    ([CHR 0xF0, CHR 0x9F, CHR 0x98, CHR 0x88], ''devil''),
    ([CHR 0xF0, CHR 0x9F, CHR 0xA5, CHR 0xB3], ''party''),
    ([CHR 0xF0, CHR 0x9F, CHR 0x98, CHR 0x9F], ''worry''),
    ([CHR 0xF0, CHR 0x9F, CHR 0x8D, CHR 0xBE], ''champagne''),
    ([CHR 0xE2, CHR 0x98, CHR 0x80, CHR 0xEF, CHR 0xB8, CHR 0x8F], ''sun''),
    ([CHR 0xE2, CHR 0xAD, CHR 0x90], ''star''),
    ([CHR 0xF0, CHR 0x9F, CHR 0x90, CHR 0xBB, CHR 0xE2, CHR 0x80, CHR 0x8D, CHR 0xE2, CHR 0x9D, CHR 0x84, CHR 0xEF, CHR 0xB8, CHR 0x8F], ''polarbear''),
    ([CHR 0xF0, CHR 0x9F, CHR 0x99, CHR 0x84], ''eyeroll''),
    ([CHR 0xF0, CHR 0x9F, CHR 0x98, CHR 0xB6], ''speechless''),
    ([CHR 0xF0, CHR 0x9F, CHR 0xA4, CHR 0x94], ''wonder''),
    ([CHR 0xF0, CHR 0x9F, CHR 0x98, CHR 0xA0], ''angry''),
    ([CHR 0xF0, CHR 0x9F, CHR 0xA4, CHR 0xAE], ''puke''),
    ([CHR 0xF0, CHR 0x9F, CHR 0xA4, CHR 0xA6], ''facepalm''),
    ([CHR 0xF0, CHR 0x9F, CHR 0x98, CHR 0x93], ''sweat''),
    ([CHR 0xF0, CHR 0x9F, CHR 0xA4, CHR 0xA1], ''holidayspirit''),
    ([CHR 0xF0, CHR 0x9F, CHR 0x98, CHR 0xB4], ''sleepy''),
    ([CHR 0xF0, CHR 0x9F, CHR 0x99, CHR 0x87], ''bow''),
    ([CHR 0xF0, CHR 0x9F, CHR 0x92, CHR 0x84], ''makeup''),
    ([CHR 0xF0, CHR 0x9F, CHR 0x92, CHR 0xB5], ''cash''),
    ([CHR 0xF0, CHR 0x9F, CHR 0xA4, CHR 0x90], ''lipssealed''),
    ([CHR 0xF0, CHR 0x9F, CHR 0xA5, CHR 0xB6], ''shivering''),
    ([CHR 0xF0, CHR 0x9F, CHR 0x8E, CHR 0x82], ''cake''),
    ([CHR 0xF0, CHR 0x9F, CHR 0xA4, CHR 0x95], ''headbang''),
    ([CHR 0xF0, CHR 0x9F, CHR 0x92, CHR 0x83], ''dance''),
    ([CHR 0xF0, CHR 0x9F, CHR 0x98, CHR 0xB3], ''wasntme''),
    ([CHR 0xF0, CHR 0x9F, CHR 0xA4, CHR 0xA2], ''hungover''),
    ([CHR 0xF0, CHR 0x9F, CHR 0xA5, CHR 0xB1], ''yawn''),
    ([CHR 0xF0, CHR 0x9F, CHR 0x8E, CHR 0x81], ''gift''),
    ([CHR 0xF0, CHR 0x9F, CHR 0x98, CHR 0x87], ''angel''),
    ([CHR 0xF0, CHR 0x9F, CHR 0x8E, CHR 0x84], ''xmastree''),
    ([CHR 0xF0, CHR 0x9F, CHR 0x92, CHR 0x94], ''brokenheart''),
    ([CHR 0xF0, CHR 0x9F, CHR 0xA4, CHR 0x94], ''think''),
    ([CHR 0xF0, CHR 0x9F, CHR 0x91, CHR 0x8F], ''clap''),
    ([CHR 0xF0, CHR 0x9F, CHR 0x91, CHR 0x8A], ''punch''),
    ([CHR 0xF0, CHR 0x9F, CHR 0x98, CHR 0x92], ''envy''),
    ([CHR 0xF0, CHR 0x9F, CHR 0xA4, CHR 0x9D], ''handshake''),
    ([CHR 0xF0, CHR 0x9F, CHR 0x99, CHR 0x82], ''nod''),
    ([CHR 0xF0, CHR 0x9F, CHR 0xA4, CHR 0x93], ''nerdy''),
    ([CHR 0xF0, CHR 0x9F, CHR 0x96, CHR 0xA4], ''emo''),
    ([CHR 0xF0, CHR 0x9F, CHR 0x92, CHR 0xAA], ''muscle''),
    ([CHR 0xF0, CHR 0x9F, CHR 0x98, CHR 0x8B], ''mmm''),
    ([CHR 0xF0, CHR 0x9F, CHR 0x99, CHR 0x8C], ''highfive''),
    ([CHR 0xF0, CHR 0x9F, CHR 0xA6, CHR 0x83], ''turkey''),
    ([CHR 0xF0, CHR 0x9F, CHR 0x93, CHR 0x9E], ''call''),
    ([CHR 0xF0, CHR 0x9F, CHR 0xA7, CHR 0x94], ''movember''),
    ([CHR 0xF0, CHR 0x9F, CHR 0x90, CHR 0xB6], ''dog''),
    ([CHR 0xE2, CHR 0x98, CHR 0x95], ''coffee''),
    ([CHR 0xF0, CHR 0x9F, CHR 0x91, CHR 0x89], ''poke''),
    ([CHR 0xF0, CHR 0x9F, CHR 0xA4, CHR 0xAC], ''swear''),
    ([CHR 0xF0, CHR 0x9F, CHR 0x98, CHR 0x91], ''donttalktome''),
    ([CHR 0xF0, CHR 0x9F, CHR 0xA4, CHR 0x9E], ''fingerscrossed''),
    ([CHR 0xF0, CHR 0x9F, CHR 0x8C, CHR 0x88], ''rainbow''),
    ([CHR 0xF0, CHR 0x9F, CHR 0x8E, CHR 0xA7], ''headphones''),
    ([CHR 0xE2, CHR 0x8F, CHR 0xB3], ''waiting''),
    ([CHR 0xF0, CHR 0x9F, CHR 0x8E, CHR 0x89], ''festiveparty''),
    ([CHR 0xF0, CHR 0x9F, CHR 0xA5, CHR 0xB7], ''bandit''),
    ([CHR 0xF0, CHR 0x9F, CHR 0x90, CHR 0xBF, CHR 0xEF, CHR 0xB8, CHR 0x8F], ''heidy''),
    ([CHR 0xF0, CHR 0x9F, CHR 0x8D, CHR 0xBA], ''beer''),
    ([CHR 0xF0, CHR 0x9F, CHR 0xA4, CHR 0xA6, CHR 0xE2, CHR 0x80, CHR 0x8D, CHR 0xE2, CHR 0x99, CHR 0x82, CHR 0xEF, CHR 0xB8, CHR 0x8F], ''doh''),
    ([CHR 0xF0, CHR 0x9F, CHR 0x92, CHR 0xA3], ''bomb''),
    ([CHR 0xF0, CHR 0x9F, CHR 0x98, CHR 0x80], ''happy''),
    ([CHR 0xF0, CHR 0x9F, CHR 0xA5, CHR 0xB7], ''ninja'')]"

definition emojiToEmotionKey :: "(string \<Rightarrow> string) \<Rightarrow> string \<Rightarrow> string option" where
  "emojiToEmotionKey fq = map_of (rev (map (\<lambda>(e, k). (fq e, k)) emoji_literal))"

text \<open>
  The inverse is built by a \<open>range\<close> over the map, whose order Go leaves open: \<open>order\<close> is the list
  of entries as the iteration gives them, and the first emoji of a key stays.
\<close>

definition emotionKeyToEmoji :: "(string \<times> string) list \<Rightarrow> string \<Rightarrow> string option" where
  "emotionKeyToEmoji order = map_of (map (\<lambda>(emoji, key). (key, emoji)) order)"

definition iterates :: "(string \<times> string) list \<Rightarrow> (string \<Rightarrow> string option) \<Rightarrow> bool" where
  "iterates order m \<longleftrightarrow> distinct (map fst order) \<and> map_of order = m"

definition MapEmojiToEmotionKey :: "(string \<Rightarrow> string) \<Rightarrow> string \<Rightarrow> string option" where
  "MapEmojiToEmotionKey fq emoji =
     (if trim_space emoji = [] then None else emojiToEmotionKey fq (fq emoji))"

definition MapEmotionKeyToEmoji :: "(string \<times> string) list \<Rightarrow> string \<Rightarrow> string option" where
  "MapEmotionKeyToEmoji order emotionKey =
     (let emotionKey = trim_space emotionKey
      in if emotionKey = [] then None else emotionKeyToEmoji order emotionKey)"

section \<open>Reaction targets\<close>

definition addCandidate :: "string \<Rightarrow> string list \<Rightarrow> string list" where
  "addCandidate value candidates =
     (let value = trim_space value
      in if value = [] \<or> value \<in> set candidates then candidates else candidates @ [value])"

definition addCanonicalAndLegacy :: "string \<Rightarrow> string list \<Rightarrow> string list" where
  "addCanonicalAndLegacy value candidates =
     (let value = trim_space value
      in if value = [] then candidates
         else
           (let normalized = NormalizeTeamsReactionMessageID value;
                candidates = addCandidate normalized candidates
            in if normalized \<noteq> [] then addCandidate (''msg/'' @ normalized) candidates
               else candidates))"

definition buildReactionTargetMessageIDCandidates :: "string \<Rightarrow> RemoteMessage \<Rightarrow> string list" where
  "buildReactionTargetMessageIDCandidates messageID msg =
     addCanonicalAndLegacy (rm_ClientMessageID msg)
       (addCanonicalAndLegacy (rm_SequenceID msg)
         (addCanonicalAndLegacy (rm_MessageID msg)
           (addCanonicalAndLegacy messageID [])))"

text \<open>
  \<open>stored\<close> tells whether the bridge database has a message part of an ID; \<open>None\<close> is the case of a
  client without a bridge database.
\<close>

definition resolveReactionSyncTargetMessageID ::
  "(string \<Rightarrow> bool) option \<Rightarrow> string \<Rightarrow> RemoteMessage \<Rightarrow> string" where
  "resolveReactionSyncTargetMessageID stored messageID msg =
     (case buildReactionTargetMessageIDCandidates messageID msg of
        [] \<Rightarrow> []
      | c # cs \<Rightarrow>
        (case stored of None \<Rightarrow> c
         | Some known \<Rightarrow> (case find known (c # cs) of Some candidate \<Rightarrow> candidate | None \<Rightarrow> c)))"

section \<open>Reaction syncs\<close>

record EventSender =
  es_Sender :: string
  es_IsFromMe :: bool
  es_SenderLogin :: string

record BackfillReaction =
  br_Sender :: EventSender
  br_EmojiID :: string
  br_Emoji :: string
  br_Timestamp :: "instant option"

type_synonym sync_users = "(string \<times> BackfillReaction list) list" \<comment> \<open>by user, in order of appearance\<close>

definition add_reaction :: "string \<Rightarrow> BackfillReaction \<Rightarrow> sync_users \<Rightarrow> sync_users" where
  "add_reaction user br users =
     (if user \<in> set (map fst users)
      then map (\<lambda>(u, rs). (u, if u = user then rs @ [br] else rs)) users
      else users @ [(user, [br])])"

fun sync_reaction_users ::
  "golib \<Rightarrow> string \<Rightarrow> string \<Rightarrow> string \<Rightarrow> string \<Rightarrow> MessageReactionUser list \<Rightarrow> sync_users \<Rightarrow> sync_users"
where
  "sync_reaction_users L login selfID emotionKey emoji [] users = users"
| "sync_reaction_users L login selfID emotionKey emoji (u # us) users =
     (let userID = NormalizeTeamsUserID (ru_MRI u)
      in if userID = [] \<or> isLikelyThreadID L userID
         then sync_reaction_users L login selfID emotionKey emoji us users
         else
           (let fromMe = selfID \<noteq> [] \<and> userID = selfID;
                sender = \<lparr>es_Sender = teamsUserIDToNetworkUserID userID, es_IsFromMe = fromMe,
                          es_SenderLogin = (if fromMe then login else [])\<rparr>;
                br = \<lparr>br_Sender = sender, br_EmojiID = emotionKey, br_Emoji = emoji,
                      br_Timestamp = (if ru_TimeMS u \<noteq> 0 then Some (ru_TimeMS u * 1000000) else None)\<rparr>
            in sync_reaction_users L login selfID emotionKey emoji us
                 (add_reaction (es_Sender sender) br users)))"

fun sync_reactions ::
  "golib \<Rightarrow> (string \<times> string) list \<Rightarrow> string \<Rightarrow> string \<Rightarrow> MessageReaction list \<Rightarrow> sync_users
     \<Rightarrow> sync_users"
where
  "sync_reactions L order login selfID [] users = users"
| "sync_reactions L order login selfID (r # rs) users =
     (let emotionKey = trim_space (mr_EmotionKey r)
      in if emotionKey = [] then sync_reactions L order login selfID rs users
         else case MapEmotionKeyToEmoji order emotionKey of
           None \<Rightarrow> sync_reactions L order login selfID rs users
         | Some emoji \<Rightarrow>
             sync_reactions L order login selfID rs
               (sync_reaction_users L login selfID emotionKey emoji (mr_Users r) users))"

text \<open>\<open>None\<close> is the pair \<open>(nil, false)\<close>; a result always claims to hold all users and reactions.\<close>

definition buildReactionSyncData ::
  "golib \<Rightarrow> (string \<times> string) list \<Rightarrow> string \<Rightarrow> string \<Rightarrow> MessageReaction list \<Rightarrow> sync_users option"
where
  "buildReactionSyncData L order login teamsUserID reactions =
     (if reactions = [] then None
      else
        (let users = sync_reactions L order login (NormalizeTeamsUserID teamsUserID) reactions []
         in if users = [] then None else Some users))"

definition markReactionSeen :: "string \<Rightarrow> bool \<Rightarrow> string set \<Rightarrow> bool \<times> string set" where
  "markReactionSeen messageID seen reactionSeen =
     (messageID \<in> reactionSeen,
      if seen then insert messageID reactionSeen
      else if messageID \<in> reactionSeen then reactionSeen - {messageID} else reactionSeen)"

text \<open>\<open>existing\<close> is the number of stored reactions to a message, \<open>None\<close> if it cannot be read.\<close>

definition shouldSendEmptyReactionSync ::
  "(string \<Rightarrow> nat option) \<Rightarrow> string \<Rightarrow> string set \<Rightarrow> bool \<times> string set" where
  "shouldSendEmptyReactionSync existing messageID reactionSeen =
     (let (was_seen, reactionSeen') = markReactionSeen messageID False reactionSeen
      in if was_seen then (True, reactionSeen')
         else (case existing messageID of None \<Rightarrow> False | Some n \<Rightarrow> 0 < n, reactionSeen'))"

record ReactionSync =
  rs_PortalKey :: PortalKey
  rs_Timestamp :: instant
  rs_TargetMessage :: string
  rs_Users :: sync_users

definition queueReactionSyncForMessage ::
  "golib \<Rightarrow> (string \<times> string) list \<Rightarrow> (string \<Rightarrow> bool) option \<Rightarrow> (string \<Rightarrow> nat option) \<Rightarrow> string
     \<Rightarrow> string \<Rightarrow> string \<Rightarrow> RemoteMessage \<Rightarrow> string \<Rightarrow> string set \<Rightarrow> ReactionSync option \<times> string set"
where
  "queueReactionSyncForMessage L order stored existing login teamsUserID threadID msg messageID
       reactionSeen =
     (let messageID = trim_space messageID;
          messageID = (if messageID = [] then effectiveRemoteMessageID msg else messageID)
      in if messageID = [] then (None, reactionSeen)
         else
           (let messageID = resolveReactionSyncTargetMessageID stored messageID msg;
                sync = (\<lambda>users. \<lparr>rs_PortalKey = portalKey login threadID, rs_Timestamp = rm_Timestamp msg,
                          rs_TargetMessage = messageID, rs_Users = users\<rparr>)
            in case buildReactionSyncData L order login teamsUserID (rm_Reactions msg) of
                 Some users \<Rightarrow> (Some (sync users), reactionSeen)
               | None \<Rightarrow>
                   (let (send, reactionSeen') = shouldSendEmptyReactionSync existing messageID reactionSeen
                    in (if send then Some (sync []) else None, reactionSeen'))))"

section \<open>Lemmas\<close>

lemma in_table_order:
  "iterates order m \<Longrightarrow> emotionKeyToEmoji order k = Some e \<Longrightarrow> m e = Some k"
  by (auto simp: iterates_def emotionKeyToEmoji_def dest!: map_of_SomeD)

lemma in_table_fq: "emojiToEmotionKey fq e = Some k \<Longrightarrow> \<exists>raw. e = fq raw \<and> (raw, k) \<in> set emoji_literal"
  by (auto simp: emojiToEmotionKey_def dest!: map_of_SomeD)

text \<open>A key whose only emoji comes again later in the literal, under another key, is overwritten.\<close>

lemma overwritten:
  assumes "t = xs @ (e, k) # ys" and "k \<notin> snd ` set xs" and "k \<notin> snd ` set ys" and "e \<in> fst ` set ys"
  shows "map_of (rev (map (\<lambda>(e, k). (fq e, k)) t)) x \<noteq> Some k"
proof
  let ?q = "map (\<lambda>(e, k). (fq e, k))"
  assume "map_of (rev (?q t)) x = Some k"
  moreover have "map_of (rev (?q t)) x = (case map_of (rev (?q ys)) x of Some v \<Rightarrow> Some v
      | None \<Rightarrow> if x = fq e then Some k else map_of (rev (?q xs)) x)"
    by (simp add: assms(1) map_add_def split: option.split)
  moreover have no: "map_of (rev (?q zs)) x \<noteq> Some k" if "k \<notin> snd ` set zs" for zs
    using that by (force dest!: map_of_SomeD)
  moreover have "map_of (rev (?q ys)) (fq e) \<noteq> None"
    using assms(4) by (auto simp: map_of_eq_None_iff image_image case_prod_beta)
  ultimately show False using no [OF assms(2)] no [OF assms(3)]
    by (auto split: option.splits if_splits)
qed

definition lost_at :: "(string \<times> string) list \<Rightarrow> nat \<Rightarrow> string \<Rightarrow> bool" where
  "lost_at t i k \<longleftrightarrow> i < length t \<and> snd (t ! i) = k \<and> k \<notin> snd ` set (take i t)
     \<and> k \<notin> snd ` set (drop (Suc i) t) \<and> fst (t ! i) \<in> fst ` set (drop (Suc i) t)"

lemma lost_at_overwritten: "lost_at emoji_literal i k \<Longrightarrow> emojiToEmotionKey fq x \<noteq> Some k"
  unfolding emojiToEmotionKey_def lost_at_def
  by (rule overwritten [where e = "fst (emoji_literal ! i)" and xs = "take i emoji_literal"
        and ys = "drop (Suc i) emoji_literal"]) (auto simp: id_take_nth_drop [symmetric])

lemma lost_keys:
  "lost_at emoji_literal 4 ''smile'' \<and> lost_at emoji_literal 37 ''wonder''
   \<and> lost_at emoji_literal 83 ''bandit''"
  by code_simp

text \<open>The reactions in a sync, and those of a message that can be synced.\<close>

definition synced :: "sync_users \<Rightarrow> (string \<times> string \<times> instant option) list" where
  "synced users =
     concat (map (\<lambda>(u, bs). map (\<lambda>b. (u, br_EmojiID b, br_Timestamp b)) bs) users)"

definition user_reactions ::
  "golib \<Rightarrow> string \<Rightarrow> MessageReactionUser list \<Rightarrow> (string \<times> string \<times> instant option) list" where
  "user_reactions L key us =
     map (\<lambda>u. (trim_space (ru_MRI u), key, if ru_TimeMS u \<noteq> 0 then Some (ru_TimeMS u * 1000000) else None))
       (filter (\<lambda>u. trim_space (ru_MRI u) \<noteq> [] \<and> \<not> isLikelyThreadID L (trim_space (ru_MRI u))) us)"

definition syncable ::
  "golib \<Rightarrow> (string \<times> string) list \<Rightarrow> MessageReaction list \<Rightarrow> (string \<times> string \<times> instant option) list"
where
  "syncable L order rs =
     concat (map (\<lambda>r. user_reactions L (trim_space (mr_EmotionKey r)) (mr_Users r))
       (filter (\<lambda>r. MapEmotionKeyToEmoji order (mr_EmotionKey r) \<noteq> None) rs))"

fun entry_ok :: "(string \<times> string) list \<Rightarrow> string \<Rightarrow> string \<times> BackfillReaction list \<Rightarrow> bool" where
  "entry_ok order selfID (u, bs) \<longleftrightarrow> bs \<noteq> []
     \<and> list_all (\<lambda>b. es_Sender (br_Sender b) = u
          \<and> (es_IsFromMe (br_Sender b) \<longleftrightarrow> selfID \<noteq> [] \<and> u = selfID)
          \<and> MapEmotionKeyToEmoji order (br_EmojiID b) = Some (br_Emoji b)) bs"

definition sync_ok :: "(string \<times> string) list \<Rightarrow> string \<Rightarrow> sync_users \<Rightarrow> bool" where
  "sync_ok order selfID users \<longleftrightarrow> distinct (map fst users) \<and> list_all (entry_ok order selfID) users"

lemma keys_add_reaction:
  "map fst (add_reaction u b users) = (if u \<in> set (map fst users) then map fst users else map fst users @ [u])"
  by (auto simp: add_reaction_def)

lemma synced_map_other:
  "u \<notin> set (map fst users) \<Longrightarrow> synced (map (\<lambda>(v, rs). (v, if v = u then rs @ [b] else rs)) users) = synced users"
  by (induction users) (auto simp: synced_def)

lemma synced_map:
  "distinct (map fst users) \<Longrightarrow> u \<in> set (map fst users) \<Longrightarrow>
     mset (synced (map (\<lambda>(v, rs). (v, if v = u then rs @ [b] else rs)) users))
       = add_mset (u, br_EmojiID b, br_Timestamp b) (mset (synced users))"
proof (induction users)
  case (Cons p users)
  obtain v rs where p: "p = (v, rs)" by (cases p)
  show ?case
  proof (cases "v = u")
    case True
    with Cons.prems p have "u \<notin> set (map fst users)" by simp
    from synced_map_other [OF this, of b] True show ?thesis by (simp add: p synced_def)
  next
    case False
    with Cons p show ?thesis by (simp add: synced_def)
  qed
qed simp

lemma synced_add_reaction:
  "distinct (map fst users) \<Longrightarrow>
     mset (synced (add_reaction u b users)) = add_mset (u, br_EmojiID b, br_Timestamp b) (mset (synced users))"
  using synced_map [of users u b] by (auto simp: add_reaction_def synced_def)

lemma sync_ok_add_reaction:
  assumes "sync_ok order selfID users" and "entry_ok order selfID (u, [b])"
  shows "sync_ok order selfID (add_reaction u b users)"
proof -
  have "entry_ok order selfID (v, if v = u then rs @ [b] else rs)" if "entry_ok order selfID (v, rs)" for v rs
    using that assms(2) by (auto simp: list_all_iff)
  with assms show ?thesis unfolding sync_ok_def keys_add_reaction
    by (auto simp: add_reaction_def list_all_iff simp del: entry_ok.simps)
qed

lemma sync_reaction_users_spec:
  assumes "sync_ok order selfID users" and "MapEmotionKeyToEmoji order key = Some emoji"
  shows "sync_ok order selfID (sync_reaction_users L login selfID key emoji us users)
    \<and> mset (synced (sync_reaction_users L login selfID key emoji us users))
      = mset (synced users) + mset (user_reactions L key us)"
  using assms(1)
proof (induction us arbitrary: users)
  case (Cons u us)
  show ?case
  proof (cases "trim_space (ru_MRI u) = [] \<or> isLikelyThreadID L (trim_space (ru_MRI u))")
    case True
    with Cons show ?thesis by (auto simp: NormalizeTeamsUserID_def user_reactions_def Let_def)
  next
    case False
    let ?u = "trim_space (ru_MRI u)"
    let ?b = "\<lparr>br_Sender = \<lparr>es_Sender = ?u, es_IsFromMe = (selfID \<noteq> [] \<and> ?u = selfID),
        es_SenderLogin = (if selfID \<noteq> [] \<and> ?u = selfID then login else [])\<rparr>, br_EmojiID = key,
        br_Emoji = emoji, br_Timestamp = (if ru_TimeMS u \<noteq> 0 then Some (ru_TimeMS u * 1000000) else None)\<rparr>"
    have "sync_ok order selfID (add_reaction ?u ?b users)"
      by (rule sync_ok_add_reaction [OF Cons.prems]) (simp_all add: assms(2))
    moreover have "distinct (map fst users)" using Cons.prems by (simp add: sync_ok_def)
    ultimately show ?thesis
      using False Cons.IH [of "add_reaction ?u ?b users"] synced_add_reaction [of users ?u ?b]
      by (simp add: NormalizeTeamsUserID_def teamsUserIDToNetworkUserID_def user_reactions_def Let_def)
  qed
qed (simp add: user_reactions_def)

lemma MapEmotionKeyToEmoji_trim [simp]:
  "MapEmotionKeyToEmoji order (trim_space k) = MapEmotionKeyToEmoji order k"
  by (simp add: MapEmotionKeyToEmoji_def)

lemma sync_reactions_spec:
  "sync_ok order selfID users \<Longrightarrow>
     sync_ok order selfID (sync_reactions L order login selfID rs users)
     \<and> mset (synced (sync_reactions L order login selfID rs users))
       = mset (synced users) + mset (syncable L order rs)"
proof (induction rs arbitrary: users)
  case (Cons r rs)
  show ?case
  proof (cases "MapEmotionKeyToEmoji order (mr_EmotionKey r)")
    case None
    with Cons show ?thesis by (simp add: syncable_def Let_def)
  next
    case (Some emoji)
    then have "trim_space (mr_EmotionKey r) \<noteq> []" by (auto simp: MapEmotionKeyToEmoji_def)
    with Some Cons.IH sync_reaction_users_spec [OF Cons.prems, of "trim_space (mr_EmotionKey r)" emoji L
        login "mr_Users r"]
    show ?thesis by (simp add: syncable_def Let_def)
  qed
qed (simp add: syncable_def)

lemma synced_Nil_iff: "sync_ok order selfID users \<Longrightarrow> synced users = [] \<longleftrightarrow> users = []"
  by (cases users) (auto simp: synced_def sync_ok_def)

section \<open>Properties\<close>

text \<open>
  C33: the reactions of a message become one sync without loss or invention. Every reaction whose
  emotion has an emoji, by every user with an ID that is neither blank nor a thread's, appears in
  it exactly once with its key and time, and nothing else does; each user has one entry; the sender
  is marked as oneself exactly for the own user ID; and a result is given exactly if there is
  something to sync.
\<close>

theorem buildReactionSyncData_exact:
  "(case buildReactionSyncData L order login teamsUserID rs of
      None \<Rightarrow> syncable L order rs = []
    | Some users \<Rightarrow> syncable L order rs \<noteq> []
        \<and> mset (synced users) = mset (syncable L order rs)
        \<and> sync_ok order (trim_space teamsUserID) users)"
proof -
  let ?u = "sync_reactions L order login (trim_space teamsUserID) rs []"
  have ok: "sync_ok order (trim_space teamsUserID) ?u"
    and m: "mset (synced ?u) = mset (syncable L order rs)"
    using sync_reactions_spec [of order "trim_space teamsUserID" "[]" L login rs]
    by (simp_all add: sync_ok_def synced_def)
  from m have "syncable L order rs = [] \<longleftrightarrow> ?u = []"
    using synced_Nil_iff [OF ok] by (metis mset_zero_iff)
  with ok m show ?thesis
    by (auto simp: buildReactionSyncData_def NormalizeTeamsUserID_def Let_def syncable_def)
qed

text \<open>
  The two emoji tables agree. If \<open>FullyQualify\<close> leaves a qualified emoji alone, every emoji that
  is shown for a Teams emotion is sent back to Teams as that same emotion, in whatever order the
  map is iterated when the inverse is built.
\<close>

theorem emoji_roundtrip:
  assumes "iterates order (emojiToEmotionKey fq)" and "\<And>s. fq (fq s) = fq s"
    and "MapEmotionKeyToEmoji order key = Some emoji" and "trim_space emoji \<noteq> []"
  shows "MapEmojiToEmotionKey fq emoji = Some (trim_space key)"
proof -
  from assms(3) have "emotionKeyToEmoji order (trim_space key) = Some emoji"
    by (auto simp: MapEmotionKeyToEmoji_def Let_def split: if_splits)
  with assms(1) have e: "emojiToEmotionKey fq emoji = Some (trim_space key)" by (rule in_table_order)
  then obtain raw where "emoji = fq raw" by (blast dest: in_table_fq)
  with assms(2,4) e show ?thesis by (simp add: MapEmojiToEmotionKey_def)
qed

definition sample_order :: "(string \<times> string) list" where
  "sample_order = AList.clearjunk (rev emoji_literal)"

lemma sample_order_iterates: "iterates sample_order (emojiToEmotionKey (\<lambda>s. s))"
  by (simp add: iterates_def sample_order_def distinct_clearjunk map_of_clearjunk
      emojiToEmotionKey_def case_prod_unfold)

lemma sample_order_fire: "MapEmotionKeyToEmoji sample_order '' fire'' = Some [CHR 0xF0, CHR 0x9F, CHR 0x94, CHR 0xA5]"
  by code_simp

theorem emoji_roundtrip_witness:
  "MapEmojiToEmotionKey (\<lambda>s. s) [CHR 0xF0, CHR 0x9F, CHR 0x94, CHR 0xA5] = Some ''fire''"
proof -
  have "trim_space [CHR 0xF0, CHR 0x9F, CHR 0x94, CHR 0xA5] \<noteq> []" "trim_space '' fire'' = ''fire''"
    by code_simp+
  with emoji_roundtrip [OF sample_order_iterates refl sample_order_fire] show ?thesis by simp
qed

text \<open>
  Three emotions of the literal are lost. Their emojis occur again further down under another key,
  which overwrites the entry, so that "smile", "wonder" and "bandit" reactions from Teams
  have no emoji and are dropped, whatever the order of iteration.
\<close>

theorem emotions_without_emoji:
  assumes "iterates order (emojiToEmotionKey fq)"
  shows "list_all (\<lambda>k. k \<in> snd ` set emoji_literal \<and> MapEmotionKeyToEmoji order k = None)
     [''smile'', ''wonder'', ''bandit'']"
proof -
  have lost: "emotionKeyToEmoji order k = None" if "lost_at emoji_literal i k" for i k
    using in_table_order [OF assms] lost_at_overwritten [OF that]
    by (cases "emotionKeyToEmoji order k") auto
  have "trim_space ''smile'' = ''smile''" "trim_space ''wonder'' = ''wonder''"
    "trim_space ''bandit'' = ''bandit''" by code_simp+
  moreover have "k \<in> snd ` set emoji_literal" if "lost_at emoji_literal i k" for i k
    using that by (auto simp: lost_at_def)
  moreover note lost_keys
  ultimately show ?thesis
    using lost [of 4 "''smile''"] lost [of 37 "''wonder''"] lost [of 83 "''bandit''"]
    by (simp add: MapEmotionKeyToEmoji_def) blast
qed

theorem emotions_without_emoji_witness: "MapEmotionKeyToEmoji sample_order ''wonder'' = None"
  using emotions_without_emoji [OF sample_order_iterates] by simp

lemma addCandidate_ok:
  "distinct cs \<and> list_all (\<lambda>c. c \<noteq> [] \<and> trimmed c) cs \<Longrightarrow>
     distinct (addCandidate v cs) \<and> list_all (\<lambda>c. c \<noteq> [] \<and> trimmed c) (addCandidate v cs)"
  by (auto simp: addCandidate_def Let_def)

lemma addCanonicalAndLegacy_ok:
  "distinct cs \<and> list_all (\<lambda>c. c \<noteq> [] \<and> trimmed c) cs \<Longrightarrow>
     distinct (addCanonicalAndLegacy v cs)
     \<and> list_all (\<lambda>c. c \<noteq> [] \<and> trimmed c) (addCanonicalAndLegacy v cs)"
  by (simp add: addCanonicalAndLegacy_def Let_def addCandidate_ok)

lemma find_Some_first: "find P xs = Some x \<Longrightarrow> P x \<and> x \<in> set xs"
  by (induction xs) (auto split: if_splits)

text \<open>
  The message a reaction sync is aimed at. The candidates are pairwise different, trimmed and not
  blank, and if any of them is stored in the bridge, the chosen target is a stored candidate; if
  none is, it is the first one.
\<close>

theorem reaction_target_stored:
  "distinct (buildReactionTargetMessageIDCandidates i msg)
   \<and> list_all (\<lambda>c. c \<noteq> [] \<and> trimmed c) (buildReactionTargetMessageIDCandidates i msg)
   \<and> (let t = resolveReactionSyncTargetMessageID (Some known) i msg;
          cs = buildReactionTargetMessageIDCandidates i msg
      in if list_ex known cs then known t \<and> t \<in> set cs
         else t = (case cs of [] \<Rightarrow> [] | c # _ \<Rightarrow> c))"
proof -
  have "distinct (buildReactionTargetMessageIDCandidates i msg)
   \<and> list_all (\<lambda>c. c \<noteq> [] \<and> trimmed c) (buildReactionTargetMessageIDCandidates i msg)"
    unfolding buildReactionTargetMessageIDCandidates_def
    by (intro addCanonicalAndLegacy_ok) simp
  then show ?thesis
    by (auto simp: resolveReactionSyncTargetMessageID_def list_ex_iff Let_def
        split: list.split option.split dest: find_Some_first simp: find_None_iff)
qed

text \<open>
  Reactions that were all removed are cleared once. For a message without reactions whose target
  is in the record of seen messages, the next poll queues one empty sync for it; the poll after
  that queues nothing, if the bridge has no stored reactions to it by then.
\<close>

theorem removed_reactions_cleared_once:
  assumes "rm_Reactions msg = []" and "trim_space i \<noteq> []"
    and "resolveReactionSyncTargetMessageID stored (trim_space i) msg = target"
    and "target \<in> seen" and "existing target = Some 0"
  shows "case queueReactionSyncForMessage L order stored ex login user thread msg i seen of
      (ev, seen') \<Rightarrow> (\<exists>s. ev = Some s \<and> rs_Users s = [] \<and> rs_TargetMessage s = target)
        \<and> queueReactionSyncForMessage L order stored existing login user thread msg i seen' = (None, seen')"
  using assms
  by (auto simp: queueReactionSyncForMessage_def buildReactionSyncData_def
      shouldSendEmptyReactionSync_def markReactionSeen_def Let_def)

definition bare_message :: RemoteMessage where
  "bare_message = \<lparr>rm_MessageID = ''5'', rm_ClientMessageID = [], rm_SequenceID = ''9'',
     rm_SenderID = ''8:ann'', rm_SenderName = [], rm_IMDisplayName = ''Ann'', rm_TokenDisplayName = [],
     rm_Timestamp = 0, rm_Body = ''hi'', rm_FormattedBody = [], rm_GIFs = [], rm_PropertiesFiles = [],
     rm_Reactions = []\<rparr>"

theorem removed_reactions_cleared_once_witness:
  "\<exists>s seen'. queueReactionSyncForMessage plain_lib sample_order None (\<lambda>_. None) ''me'' ''8:me'' ''19:t''
      bare_message ''5'' {''5''} = (Some s, seen') \<and> rs_Users s = []"
proof -
  have "trim_space ''5'' \<noteq> []"
    and "resolveReactionSyncTargetMessageID None (trim_space ''5'') bare_message = ''5''"
    by code_simp+
  from removed_reactions_cleared_once [OF _ this, where seen = "{''5''}" and existing = "\<lambda>_. Some 0"
      and L = plain_lib and order = sample_order and ex = "\<lambda>_. None" and login = "''me''"
      and user = "''8:me''" and thread = "''19:t''"]
  show ?thesis by (auto simp: bare_message_def split: prod.splits)
qed

end
