(* ===== verification/Auth.thy ===== *)
theory Auth
  imports Http
begin

text \<open>
  \<open>internal/teams/auth\<close>: tokens. \<open>AuthState\<close>, the OAuth token endpoint (\<open>token.go\<close>), the exchange
  for a Skype token (\<open>skype_token.go\<close>), the device-code flow (\<open>device_code.go\<close>), and the login
  metadata of \<open>pkg/teamsid/dbmeta.go\<close> with the validity of the stored Graph token.

  \<open>now\<close> is the clock of a call; \<open>http\<close> its exchange. Expiry times are Unix seconds.
\<close>

section \<open>State and metadata\<close>

record AuthState =
  as_AccessToken :: string
  as_RefreshToken :: string
  as_ExpiresAtUnix :: int
  as_IDToken :: string
  as_SkypeToken :: string
  as_SkypeTokenExpiresAt :: int
  as_GraphAccessToken :: string
  as_GraphExpiresAt :: int
  as_TeamsUserID :: string

definition no_auth :: AuthState where
  "no_auth = \<lparr>as_AccessToken = [], as_RefreshToken = [], as_ExpiresAtUnix = 0, as_IDToken = [],
     as_SkypeToken = [], as_SkypeTokenExpiresAt = 0, as_GraphAccessToken = [], as_GraphExpiresAt = 0,
     as_TeamsUserID = []\<rparr>"

record UserLoginMetadata =
  um_RefreshToken :: string
  um_AccessTokenExpiresAt :: int
  um_OAuthClientID :: string
  um_SkypeToken :: string
  um_SkypeTokenExpiresAt :: int
  um_GraphAccessToken :: string
  um_GraphExpiresAt :: int
  um_TeamsUserID :: string

definition no_metadata :: UserLoginMetadata where
  "no_metadata = \<lparr>um_RefreshToken = [], um_AccessTokenExpiresAt = 0, um_OAuthClientID = [],
     um_SkypeToken = [], um_SkypeTokenExpiresAt = 0, um_GraphAccessToken = [], um_GraphExpiresAt = 0,
     um_TeamsUserID = []\<rparr>"

text \<open>\<open>time.Unix(s, 0)\<close> and \<open>Time.Unix()\<close>.\<close>

definition from_unix :: "int \<Rightarrow> instant" where "from_unix s = s * 1000000000"

definition to_unix :: "instant \<Rightarrow> int" where "to_unix t = t div 1000000000"

text \<open>\<open>now.Add(time.Duration(n) * time.Second)\<close> as Unix seconds; the product wraps in 64 bits.\<close>

definition expiry_after :: "instant \<Rightarrow> int \<Rightarrow> int" where
  "expiry_after now n = to_unix (now + sint (word_of_int n * second))"

definition Expiry :: "AuthState option \<Rightarrow> instant" where
  "Expiry a =
     (case a of None \<Rightarrow> zero_time
      | Some st \<Rightarrow> if as_ExpiresAtUnix st = 0 then zero_time else from_unix (as_ExpiresAtUnix st))"

definition hasAnyToken :: "AuthState option \<Rightarrow> bool" where
  "hasAnyToken a =
     (case a of None \<Rightarrow> False
      | Some st \<Rightarrow> as_AccessToken st \<noteq> [] \<or> as_RefreshToken st \<noteq> [] \<or> as_IDToken st \<noteq> []
          \<or> as_SkypeToken st \<noteq> [] \<or> as_GraphAccessToken st \<noteq> [])"

text \<open>The \<open>auth\<close> package's own normalisation, which adds the \<open>8:\<close> of a personal account.\<close>

definition auth_NormalizeTeamsUserID :: "string \<Rightarrow> string" where
  "auth_NormalizeTeamsUserID value =
     (let trimmed = trim_space value
      in if trimmed = [] then [] else if has_prefix trimmed ''8:'' then trimmed else ''8:'' @ trimmed)"

definition SkypeTokenExpirySkew :: int where "SkypeTokenExpirySkew = 60000000000"

definition graphTokenExpirySkew :: int where "graphTokenExpirySkew = 60000000000"

definition HasValidSkypeToken :: "AuthState option \<Rightarrow> instant \<Rightarrow> bool" where
  "HasValidSkypeToken a now =
     (case a of None \<Rightarrow> False
      | Some st \<Rightarrow>
          if as_SkypeToken st = [] \<or> as_SkypeTokenExpiresAt st = 0 then False
          else now + SkypeTokenExpirySkew < from_unix (as_SkypeTokenExpiresAt st))"

definition GraphTokenValid :: "UserLoginMetadata option \<Rightarrow> instant \<Rightarrow> bool" where
  "GraphTokenValid m now =
     (case m of None \<Rightarrow> False
      | Some meta \<Rightarrow>
          if trim_space (um_GraphAccessToken meta) = [] \<or> um_GraphExpiresAt meta = 0 then False
          else now + graphTokenExpirySkew < from_unix (um_GraphExpiresAt meta))"

definition ErrGraphAccessTokenMissing :: go_error where
  "ErrGraphAccessTokenMissing = ErrNew ''missing graph access token''"

definition ErrGraphAccessTokenExpired :: go_error where
  "ErrGraphAccessTokenExpired = ErrNew ''graph access token expired''"

definition GetGraphAccessToken :: "UserLoginMetadata option \<Rightarrow> instant \<Rightarrow> go_error + string" where
  "GetGraphAccessToken m now =
     (case m of None \<Rightarrow> Inl ErrGraphAccessTokenMissing
      | Some meta \<Rightarrow>
          if trim_space (um_GraphAccessToken meta) = [] then Inl ErrGraphAccessTokenMissing
          else if \<not> GraphTokenValid m now then Inl (ErrWrap ''expires_at'' ErrGraphAccessTokenExpired)
          else Inr (trim_space (um_GraphAccessToken meta)))"

section \<open>The OAuth client\<close>

record AuthClient =
  ac_TokenEndpoint :: string
  ac_SkypeTokenEndpoint :: string
  ac_ClientID :: string
  ac_RedirectURI :: string
  ac_Scopes :: "string list"

definition defaultScopes :: "string list" where
  "defaultScopes = [''openid'', ''profile'', ''offline_access'', ''https://graph.microsoft.com/Files.ReadWrite'']"

definition NewAuthClient :: AuthClient where
  "NewAuthClient = \<lparr>ac_TokenEndpoint = ''https://login.microsoftonline.com/consumers/oauth2/v2.0/token'',
     ac_SkypeTokenEndpoint = ''https://teams.live.com/api/auth/v1.0/authz/consumer'',
     ac_ClientID = ''4b3e8f46-56d3-427f-b1e2-d239b2ea6bca'',
     ac_RedirectURI = ''https://teams.live.com/v2'', ac_Scopes = defaultScopes\<rparr>"

definition mbiAccessTokenMarker :: string where
  "mbiAccessTokenMarker = ''service::api.fl.spaces.skype.com::mbi_ssl''"

text \<open>The first telling part of a scope decides whether its access token is a Graph token.\<close>

fun graph_scope_part :: "string list \<Rightarrow> bool" where
  "graph_scope_part [] = False"
| "graph_scope_part (part # parts) =
     (if contains part mbiAccessTokenMarker then False
      else if contains part ''graph.microsoft.com'' then True
      else if has_suffix part ''files.readwrite'' then True
      else graph_scope_part parts)"

definition shouldPersistGraphToken :: "golib \<Rightarrow> string \<Rightarrow> bool" where
  "shouldPersistGraphToken L scope =
     (let trimmed = trim_space scope
      in if trimmed = [] then True else graph_scope_part (string_fields (lower L trimmed)))"

definition redirectOrigin :: "golib \<Rightarrow> string \<Rightarrow> string" where
  "redirectOrigin L redirectURI =
     (if trim_space redirectURI = [] then []
      else case lib_url L redirectURI of
        None \<Rightarrow> []
      | Some u \<Rightarrow> if url_scheme u = [] \<or> url_host u = [] then []
                  else url_scheme u @ ''://'' @ url_host u)"

record tokenResponse =
  tk_AccessToken :: string
  tk_RefreshToken :: string
  tk_ExpiresIn :: int
  tk_IDToken :: string

definition decode_token :: "golib \<Rightarrow> json \<Rightarrow> tokenResponse option" where
  "decode_token L v =
     decode_struct L
       [(''access_token'', put_string tk_AccessToken_update),
        (''refresh_token'', put_string tk_RefreshToken_update),
        (''expires_in'', put_int64 tk_ExpiresIn_update), (''id_token'', put_string tk_IDToken_update)] v
       \<lparr>tk_AccessToken = [], tk_RefreshToken = [], tk_ExpiresIn = 0, tk_IDToken = []\<rparr>"

definition value_of :: "(string \<times> string) list \<Rightarrow> string \<Rightarrow> string" where
  "value_of values key = (case map_of values key of Some v \<Rightarrow> v | None \<Rightarrow> [])"

definition token_state :: "golib \<Rightarrow> instant \<Rightarrow> string \<Rightarrow> tokenResponse \<Rightarrow> AuthState" where
  "token_state L now scope payload =
     (let state = no_auth\<lparr>as_AccessToken := tk_AccessToken payload,
                          as_RefreshToken := tk_RefreshToken payload, as_IDToken := tk_IDToken payload\<rparr>
      in if 0 < tk_ExpiresIn payload then
           (let state = state\<lparr>as_ExpiresAtUnix := expiry_after now (tk_ExpiresIn payload)\<rparr>
            in if shouldPersistGraphToken L scope
               then state\<lparr>as_GraphAccessToken := tk_AccessToken payload,
                          as_GraphExpiresAt := as_ExpiresAtUnix state\<rparr>
               else state)
         else if shouldPersistGraphToken L scope
              then state\<lparr>as_GraphAccessToken := tk_AccessToken payload\<rparr>
              else state)"

definition tokenRequest ::
  "golib \<Rightarrow> exchange \<Rightarrow> instant \<Rightarrow> AuthClient \<Rightarrow> (string \<times> string) list \<Rightarrow> go_error + AuthState"
where
  "tokenRequest L http now c values =
     (let origin = redirectOrigin L (ac_RedirectURI c)
      in case new_request L ''POST'' (ac_TokenEndpoint c) (Some (encode_values values))
              ((''Content-Type'', ''application/x-www-form-urlencoded'')
                 # (if origin \<noteq> [] then [(''Origin'', origin)] else [])) of
           Inl err \<Rightarrow> Inl err
         | Inr req \<Rightarrow>
           (case http req of
              Inl err \<Rightarrow> Inl (NetErr err)
            | Inr resp \<Rightarrow>
                if resp_status resp < 200 \<or> 300 \<le> resp_status resp then
                  (let snippet = body_snippet (fst (read_all resp))
                   in Inl (ErrNew (''token endpoint returned non-2xx status: '' @ format_int (resp_status resp)
                        @ (if snippet = [] then [] else '' body='' @ snippet))))
                else
                  (case Option.bind (lib_json_first L (resp_body resp)) (decode_token L) of
                     None \<Rightarrow> Inl (ErrNew ''invalid json'')
                   | Some payload \<Rightarrow>
                       if tk_AccessToken payload = []
                       then Inl (ErrNew ''token response missing access_token'')
                       else Inr (token_state L now (value_of values ''scope'') payload))))"

definition ExchangeCode ::
  "golib \<Rightarrow> exchange \<Rightarrow> instant \<Rightarrow> AuthClient \<Rightarrow> string \<Rightarrow> string \<Rightarrow> go_error + AuthState" where
  "ExchangeCode L http now c code verifier =
     (if code = [] then Inl (ErrNew ''missing authorization code'')
      else tokenRequest L http now c
        [(''client_id'', ac_ClientID c), (''redirect_uri'', ac_RedirectURI c),
         (''grant_type'', ''authorization_code''), (''code'', code), (''code_verifier'', verifier)])"

definition RefreshAccessToken ::
  "golib \<Rightarrow> exchange \<Rightarrow> instant \<Rightarrow> AuthClient \<Rightarrow> string \<Rightarrow> go_error + AuthState" where
  "RefreshAccessToken L http now c refreshToken =
     (if refreshToken = [] then Inl (ErrNew ''missing refresh token'')
      else tokenRequest L http now c
        ([(''client_id'', ac_ClientID c), (''grant_type'', ''refresh_token''),
          (''refresh_token'', refreshToken)]
         @ (if ac_Scopes c \<noteq> [] then [(''scope'', join (ac_Scopes c) '' '')] else [])))"

section \<open>Skype tokens\<close>

record skypeToken =
  sk_SkypeToken :: string
  sk_ExpiresIn :: int
  sk_SkypeID :: string
  sk_SignInName :: string
  sk_IsBusiness :: bool

definition no_skype_token :: skypeToken where
  "no_skype_token = \<lparr>sk_SkypeToken = [], sk_ExpiresIn = 0, sk_SkypeID = [], sk_SignInName = [],
     sk_IsBusiness = False\<rparr>"

definition decode_skype_token :: "golib \<Rightarrow> json \<Rightarrow> skypeToken option" where
  "decode_skype_token L v =
     decode_struct L
       [(''skypeToken'', put_struct L
          [(''skypetoken'', put_string sk_SkypeToken_update), (''expiresIn'', put_int64 sk_ExpiresIn_update),
           (''skypeid'', put_string sk_SkypeID_update), (''signinname'', put_string sk_SignInName_update),
           (''isBusinessTenant'', put_bool sk_IsBusiness_update)] (\<lambda>t. t) (\<lambda>f. f))] v
       no_skype_token"

text \<open>The token, its expiry and the Skype ID.\<close>

definition AcquireSkypeToken ::
  "golib \<Rightarrow> exchange \<Rightarrow> instant \<Rightarrow> AuthClient \<Rightarrow> string \<Rightarrow> go_error + string \<times> int \<times> string" where
  "AcquireSkypeToken L http now c accessToken =
     (if ac_SkypeTokenEndpoint c = [] then Inl (ErrNew ''skype token endpoint not configured'')
      else if accessToken = [] then Inl (ErrNew ''missing access token for skypetoken acquisition'')
      else case new_request L ''POST'' (ac_SkypeTokenEndpoint c) None
                  [(''Authorization'', ''Bearer '' @ accessToken)] of
        Inl err \<Rightarrow> Inl err
      | Inr req \<Rightarrow>
        (case http req of
           Inl err \<Rightarrow> Inl (NetErr err)
         | Inr resp \<Rightarrow>
             if resp_status resp < 200 \<or> 300 \<le> resp_status resp then
               (let snippet = body_snippet (fst (read_limited 2048 resp))
                in Inl (ErrNew (''skypetoken endpoint returned non-2xx status: ''
                     @ format_int (resp_status resp)
                     @ (if snippet = [] then [] else '' body='' @ snippet))))
             else
               (case Option.bind (lib_json_first L (resp_body resp)) (decode_skype_token L) of
                  None \<Rightarrow> Inl (ErrNew ''invalid json'')
                | Some t \<Rightarrow>
                    if sk_SkypeToken t = [] then Inl (ErrNew ''skypetoken response missing token'')
                    else Inr (sk_SkypeToken t,
                      if 0 < sk_ExpiresIn t then expiry_after now (sk_ExpiresIn t) else 0,
                      sk_SkypeID t))))"

section \<open>The device-code flow\<close>

definition TeamsPersonalClientID :: string where
  "TeamsPersonalClientID = ''8ec6bc83-69c8-4392-8f08-b3c986009232''"

definition TeamsPersonalResource :: string where
  "TeamsPersonalResource = ''https://api.spaces.skype.com''"

definition TeamsPersonalScope :: string where
  "TeamsPersonalScope = ''service::api.fl.spaces.skype.com::MBI_SSL openid profile offline_access''"

definition TeamsPersonalTokenURL :: string where
  "TeamsPersonalTokenURL =
     ''https://login.microsoftonline.com/9188040d-6c67-4c5b-b112-36a304b66dad/oauth2/v2.0/token''"

record DeviceCodeResponse =
  dc_UserCode :: string
  dc_DeviceCode :: string
  dc_VerificationURL :: string
  dc_VerificationURI :: string
  dc_ExpiresIn :: int
  dc_Interval :: int
  dc_Message :: string

record deviceCodeTokenResponse =
  dt_AccessToken :: string
  dt_RefreshToken :: string
  dt_IDToken :: string
  dt_ExpiresIn :: int
  dt_Error :: string
  dt_ErrorDescription :: string

text \<open>\<open>flexibleInt64\<close>: a number, or a string holding one; \<open>strings.Trim\<close> drops quotes at both ends.\<close>

definition trim_quotes :: "string \<Rightarrow> string" where
  "trim_quotes s = rev (dropWhile (\<lambda>c. c = CHR 0x22) (rev (dropWhile (\<lambda>c. c = CHR 0x22) s)))"

definition flexibleInt64 :: "string \<Rightarrow> int option" where
  "flexibleInt64 data =
     (let trimmed = trim_quotes (trim_space data)
      in if trimmed = [] \<or> trimmed = ''null'' then Some 0 else parse_int trimmed)"

definition put_flexible :: "((int \<Rightarrow> int) \<Rightarrow> 'r \<Rightarrow> 'r) \<Rightarrow> 'r member" where
  "put_flexible upd raw v r = map_option (\<lambda>i. upd (\<lambda>_. i) r) (flexibleInt64 raw)"

definition decode_device_code :: "golib \<Rightarrow> json \<Rightarrow> DeviceCodeResponse option" where
  "decode_device_code L v =
     decode_struct L
       [(''user_code'', put_string dc_UserCode_update), (''device_code'', put_string dc_DeviceCode_update),
        (''verification_url'', put_string dc_VerificationURL_update),
        (''verification_uri'', put_string dc_VerificationURI_update),
        (''expires_in'', put_flexible dc_ExpiresIn_update), (''interval'', put_flexible dc_Interval_update),
        (''message'', put_string dc_Message_update)] v
       \<lparr>dc_UserCode = [], dc_DeviceCode = [], dc_VerificationURL = [], dc_VerificationURI = [],
        dc_ExpiresIn = 0, dc_Interval = 0, dc_Message = []\<rparr>"

definition decode_device_token :: "golib \<Rightarrow> json \<Rightarrow> deviceCodeTokenResponse option" where
  "decode_device_token L v =
     decode_struct L
       [(''access_token'', put_string dt_AccessToken_update),
        (''refresh_token'', put_string dt_RefreshToken_update), (''id_token'', put_string dt_IDToken_update),
        (''expires_in'', put_flexible dt_ExpiresIn_update), (''error'', put_string dt_Error_update),
        (''error_description'', put_string dt_ErrorDescription_update)] v
       \<lparr>dt_AccessToken = [], dt_RefreshToken = [], dt_IDToken = [], dt_ExpiresIn = 0, dt_Error = [],
        dt_ErrorDescription = []\<rparr>"

record DeviceCodeClient =
  dv_ClientID :: string
  dv_Resource :: string
  dv_Tenant :: string
  dv_DeviceCodeEndpoint :: string
  dv_TokenEndpoint :: string

definition NewDeviceCodeClient :: DeviceCodeClient where
  "NewDeviceCodeClient = \<lparr>dv_ClientID = TeamsPersonalClientID, dv_Resource = TeamsPersonalResource,
     dv_Tenant = ''common'', dv_DeviceCodeEndpoint = [], dv_TokenEndpoint = []\<rparr>"

definition non_blank :: "string \<Rightarrow> string \<Rightarrow> string" where
  "non_blank s fallback = (let t = trim_space s in if t = [] then fallback else t)"

definition dv_tenant :: "DeviceCodeClient \<Rightarrow> string" where
  "dv_tenant c = non_blank (dv_Tenant c) ''common''"

definition dv_clientID :: "DeviceCodeClient \<Rightarrow> string" where
  "dv_clientID c = non_blank (dv_ClientID c) TeamsPersonalClientID"

definition dv_resource :: "DeviceCodeClient \<Rightarrow> string" where
  "dv_resource c = non_blank (dv_Resource c) TeamsPersonalResource"

definition postForm ::
  "golib \<Rightarrow> exchange \<Rightarrow> string \<Rightarrow> (string \<times> string) list \<Rightarrow> go_error + string \<times> int" where
  "postForm L http endpoint values =
     (case new_request L ''POST'' endpoint (Some (encode_values values))
         [(''Content-Type'', ''application/x-www-form-urlencoded''), (''Accept'', ''application/json'')] of
        Inl err \<Rightarrow> Inl err
      | Inr req \<Rightarrow>
        (case http req of
           Inl err \<Rightarrow> Inl (NetErr err)
         | Inr resp \<Rightarrow>
           (case read_limited 8192 resp of
              (_, Some err) \<Rightarrow> Inl err
            | (body, None) \<Rightarrow> Inr (body, resp_status resp))))"

definition DeviceCode_Start ::
  "golib \<Rightarrow> exchange \<Rightarrow> DeviceCodeClient option \<Rightarrow> go_error + DeviceCodeResponse" where
  "DeviceCode_Start L http client =
     (case client of None \<Rightarrow> Inl (ErrNew ''device code client is nil'')
      | Some c \<Rightarrow>
        (let endpoint = (if dv_DeviceCodeEndpoint c = []
                         then ''https://login.microsoftonline.com/'' @ dv_tenant c @ ''/oauth2/devicecode''
                         else dv_DeviceCodeEndpoint c)
         in case postForm L http endpoint [(''client_id'', dv_clientID c), (''resource'', dv_resource c)] of
              Inl err \<Rightarrow> Inl err
            | Inr (body, status) \<Rightarrow>
                if status < 200 \<or> 300 \<le> status
                then Inl (ErrNew (''device code endpoint returned non-2xx status: '' @ format_int status
                       @ '' body='' @ body_snippet body))
                else
                  (case Option.bind (lib_json L body) (decode_device_code L) of
                     None \<Rightarrow> Inl (ErrWrap ''decode device code response'' (ErrNew ''invalid json''))
                   | Some out \<Rightarrow>
                     (let out = (if dc_VerificationURI out = []
                                 then out\<lparr>dc_VerificationURI := dc_VerificationURL out\<rparr> else out)
                      in if dc_DeviceCode out = [] \<or> dc_UserCode out = [] \<or> dc_VerificationURI out = []
                         then Inl (ErrNew ''device code response missing required fields'')
                         else Inr (if dc_Interval out \<le> 0 then out\<lparr>dc_Interval := 5\<rparr> else out)))))"

definition ErrDeviceCodeDeclined :: go_error where
  "ErrDeviceCodeDeclined = ErrNew ''device code login declined by user''"

text \<open>
  One round of the poll loop after its timer fired: a result, or the interval to wait next.
\<close>

definition poll_round ::
  "golib \<Rightarrow> exchange \<Rightarrow> instant \<Rightarrow> DeviceCodeClient \<Rightarrow> string \<Rightarrow> duration
     \<Rightarrow> (go_error + AuthState) + duration" where
  "poll_round L http now c deviceCode interval =
     (let endpoint = (if dv_TokenEndpoint c = []
                      then ''https://login.microsoftonline.com/'' @ dv_tenant c @ ''/oauth2/token''
                      else dv_TokenEndpoint c)
      in case postForm L http endpoint
              [(''client_id'', dv_clientID c),
               (''grant_type'', ''urn:ietf:params:oauth:grant-type:device_code''), (''code'', deviceCode)] of
           Inl err \<Rightarrow> Inl (Inl err)
         | Inr (body, _) \<Rightarrow>
           (case Option.bind (lib_json L body) (decode_device_token L) of
              None \<Rightarrow> Inl (Inl (ErrWrap ''decode device code token response'' (ErrNew ''invalid json'')))
            | Some out \<Rightarrow>
                if dt_AccessToken out \<noteq> [] then
                  Inl (Inr (no_auth\<lparr>as_AccessToken := dt_AccessToken out,
                    as_RefreshToken := dt_RefreshToken out, as_IDToken := dt_IDToken out,
                    as_ExpiresAtUnix :=
                      (if 0 < dt_ExpiresIn out then expiry_after now (dt_ExpiresIn out) else 0)\<rparr>))
                else if dt_Error out = ''authorization_pending'' then Inr interval
                else if dt_Error out = ''slow_down'' then Inr (interval + 5 * second)
                else if dt_Error out = ''expired_token'' \<or> dt_Error out = ''code_expired''
                  then Inl (Inl (ErrNew ''device code expired before login completed''))
                else if dt_Error out = ''authorization_declined'' \<or> dt_Error out = ''access_denied''
                  then Inl (Inl ErrDeviceCodeDeclined)
                else Inl (Inl (ErrNew (''device code token endpoint: '' @ dt_Error out @ '': ''
                       @ dt_ErrorDescription out)))))"

text \<open>
  The loop may run for ever: \<open>None\<close> is the call that does not return. By round number, the context
  as the \<open>select\<close> sees it, the exchange and the clock; \<open>waits\<close> are the timer settings so far.
\<close>

record poll_world =
  pw_ctx :: "nat \<Rightarrow> ctx_error option"
  pw_http :: "nat \<Rightarrow> exchange"
  pw_now :: "nat \<Rightarrow> instant"

partial_function (option) poll_loop ::
  "golib \<Rightarrow> poll_world \<Rightarrow> DeviceCodeClient \<Rightarrow> string \<Rightarrow> nat \<Rightarrow> duration \<Rightarrow> duration list
     \<Rightarrow> ((go_error + AuthState) \<times> duration list) option" where
  "poll_loop L W c deviceCode k interval waits =
     (case pw_ctx W k of
        Some err \<Rightarrow> Some (Inl (CtxErr err), waits @ [interval])
      | None \<Rightarrow>
        (case poll_round L (pw_http W k) (pw_now W k) c deviceCode interval of
           Inl res \<Rightarrow> Some (res, waits @ [interval])
         | Inr interval' \<Rightarrow> poll_loop L W c deviceCode (Suc k) interval' (waits @ [interval])))"

definition DeviceCode_Poll ::
  "golib \<Rightarrow> poll_world \<Rightarrow> DeviceCodeClient option \<Rightarrow> string \<Rightarrow> duration
     \<Rightarrow> ((go_error + AuthState) \<times> duration list) option" where
  "DeviceCode_Poll L W client deviceCode interval =
     (case client of None \<Rightarrow> Some (Inl (ErrNew ''device code client is nil''), [])
      | Some c \<Rightarrow>
          if trim_space deviceCode = [] then Some (Inl (ErrNew ''missing device code''), [])
          else poll_loop L W c deviceCode 0 (if interval \<le>s 0 then 5 * second else interval) [])"

section \<open>Properties\<close>

lemma auth_NormalizeTeamsUserID_prefix:
  "auth_NormalizeTeamsUserID v \<noteq> [] \<Longrightarrow> has_prefix (auth_NormalizeTeamsUserID v) ''8:''"
  by (auto simp: auth_NormalizeTeamsUserID_def Let_def split: if_splits)

lemma trimmed_prefixed: "trimmed s \<Longrightarrow> s \<noteq> [] \<Longrightarrow> trimmed (''8:'' @ s)"
  by (rule trimmed_solid_append) (simp_all add: solid_def space_runes_def)

text \<open>
  Normalising a Teams user ID is a projection: the result is trimmed, starts with \<open>8:\<close> unless it is
  empty, is not changed by normalising again, and is empty only for a blank ID.
\<close>

theorem user_id_normal_form:
  "auth_NormalizeTeamsUserID (auth_NormalizeTeamsUserID v) = auth_NormalizeTeamsUserID v
   \<and> trimmed (auth_NormalizeTeamsUserID v)
   \<and> (auth_NormalizeTeamsUserID v = [] \<longleftrightarrow> trim_space v = [])
   \<and> (has_prefix (auth_NormalizeTeamsUserID v) ''8:'' \<longleftrightarrow> trim_space v \<noteq> [])"
proof -
  have t: "trimmed (auth_NormalizeTeamsUserID v)"
    using trimmed_prefixed [of "trim_space v"] by (auto simp: auth_NormalizeTeamsUserID_def Let_def)
  have "trim_space (auth_NormalizeTeamsUserID v) = auth_NormalizeTeamsUserID v"
    using t by (rule trim_space_trimmed)
  with t show ?thesis
    by (auto simp: auth_NormalizeTeamsUserID_def Let_def split: if_splits)
qed

text \<open>
  A Graph token is handed out exactly while it is valid: it is stored and not blank, has an expiry
  time, and that time is more than sixty seconds away; what is handed out is the trimmed token.
\<close>

theorem graph_token_handed_out:
  "GetGraphAccessToken (Some m) now = Inr t \<longleftrightarrow>
     t = trim_space (um_GraphAccessToken m) \<and> t \<noteq> [] \<and> um_GraphExpiresAt m \<noteq> 0
     \<and> now + 60 * 1000000000 < um_GraphExpiresAt m * 1000000000"
  by (auto simp: GetGraphAccessToken_def GraphTokenValid_def graphTokenExpirySkew_def from_unix_def)

section \<open>The poll loop against its specification\<close>

text \<open>The interval with which round \<open>n\<close> waits when all rounds before it go on.\<close>

fun interval_at :: "(nat \<Rightarrow> duration \<Rightarrow> duration) \<Rightarrow> duration \<Rightarrow> nat \<Rightarrow> duration" where
  "interval_at next d 0 = d"
| "interval_at next d (Suc n) = next n (interval_at next d n)"

definition round_at ::
  "golib \<Rightarrow> poll_world \<Rightarrow> DeviceCodeClient \<Rightarrow> string \<Rightarrow> nat \<Rightarrow> duration
     \<Rightarrow> (go_error + AuthState) + duration" where
  "round_at L W c code k d = poll_round L (pw_http W k) (pw_now W k) c code d"

text \<open>A round goes on with the interval it had, or with five seconds more.\<close>

lemma poll_round_next: "poll_round L http now c code d = Inr d' \<Longrightarrow> d' = d \<or> d' = d + 5 * second"
  by (auto simp: poll_round_def Let_def split: sum.splits option.splits if_splits)

lemma poll_loop_prefix:
  assumes "\<And>k. k < n \<Longrightarrow> pw_ctx W (m + k) = None
      \<and> round_at L W c code (m + k) (ds (m + k)) = Inr (ds (Suc (m + k)))"
  shows "poll_loop L W c code m (ds m) ws
    = poll_loop L W c code (m + n) (ds (m + n)) (ws @ map (\<lambda>k. ds (m + k)) [0..<n])"
  using assms
proof (induction n)
  case (Suc n)
  then have "pw_ctx W (m + n) = None"
    and "round_at L W c code (m + n) (ds (m + n)) = Inr (ds (Suc (m + n)))" by auto
  then have "poll_loop L W c code (m + n) (ds (m + n)) (ws @ map (\<lambda>k. ds (m + k)) [0..<n])
      = poll_loop L W c code (Suc (m + n)) (ds (Suc (m + n)))
          (ws @ map (\<lambda>k. ds (m + k)) [0..<n] @ [ds (m + n)])"
    by (subst poll_loop.simps) (simp add: round_at_def)
  with Suc show ?case by simp
qed simp


text \<open>A server that says slow down once, then gives a token.\<close>

definition device_lib :: golib where
  "device_lib = plain_lib\<lparr>lib_url := \<lambda>_. Some \<lparr>url_scheme = ''https'', url_host = ''h'', url_path = [],
      url_string = []\<rparr>,
    lib_json := \<lambda>s. Some (JObject (if s = ''wait'' then [(''error'', [], JString ''slow_down'')]
      else [(''access_token'', [], JString s)]))\<rparr>"

definition device_world :: poll_world where
  "device_world = \<lparr>pw_ctx = \<lambda>_. None,
     pw_http = \<lambda>k _. Inr \<lparr>resp_status = 200, resp_retry_after = [], resp_content_type = [],
       resp_body = (if k = 0 then ''wait'' else ''tok''), resp_body_err = None\<rparr>, pw_now = \<lambda>_. 0\<rparr>"

lemma device_rounds:
  "round_at device_lib device_world NewDeviceCodeClient ''code'' 0 d = Inr (d + 5 * second)"
  "round_at device_lib device_world NewDeviceCodeClient ''code'' 1 d
     = Inl (Inr (no_auth\<lparr>as_AccessToken := ''tok''\<rparr>))"
  by code_simp+

lemma device_world_ctx: "pw_ctx device_world k = None"
  by (simp add: device_world_def)


definition always_pending :: "golib \<Rightarrow> poll_world \<Rightarrow> DeviceCodeClient \<Rightarrow> string \<Rightarrow> bool" where
  "always_pending L W c code \<longleftrightarrow>
     (\<forall>k. pw_ctx W k = None) \<and> (\<forall>k d. round_at L W c code k d = Inr d)"

lemma always_pendingD:
  "always_pending L W c code \<Longrightarrow> pw_ctx W k = None"
  "always_pending L W c code \<Longrightarrow> poll_round L (pw_http W k) (pw_now W k) c code d = Inr d"
  by (simp_all add: always_pending_def round_at_def)

lemma poll_loop_pending:
  "poll_loop L W c code k d ws = Some r \<Longrightarrow> \<not> always_pending L W c code"
  by (rule poll_loop.raw_induct [where P = "\<lambda>L W c code k d ws r. \<not> always_pending L W c code",
        rotated], assumption) (auto simp: always_pendingD)

text \<open>
  The poll has no deadline of its own. As long as the server answers "pending" and the context is
  not cancelled, the call does not return, whatever lifetime the device code had.
\<close>

theorem poll_waits_for_server:
  assumes "\<forall>k. pw_ctx W k = None" and "\<forall>k d. round_at L W c code k d = Inr d"
    and "trim_space code \<noteq> []"
  shows "DeviceCode_Poll L W (Some c) code d = None"
proof (cases "poll_loop L W c code 0 (if d \<le>s 0 then 5 * second else d) []")
  case None
  with assms(3) show ?thesis by (simp add: DeviceCode_Poll_def)
next
  case (Some r)
  from poll_loop_pending [OF this] assms(1,2) show ?thesis by (simp add: always_pending_def)
qed

definition pending_lib :: golib where
  "pending_lib = device_lib\<lparr>lib_json := \<lambda>_. Some (JObject [(''error'', [], JString ''authorization_pending'')])\<rparr>"

definition pending_world :: poll_world where
  "pending_world = \<lparr>pw_ctx = \<lambda>_. None, pw_http = \<lambda>_ _. Inr (reply 200 []), pw_now = \<lambda>_. 0\<rparr>"

lemma pending_round: "round_at pending_lib pending_world NewDeviceCodeClient ''code'' k d = Inr d"
  by code_simp

theorem poll_waits_for_server_witness:
  "DeviceCode_Poll pending_lib pending_world (Some NewDeviceCodeClient) ''code'' 0 = None"
proof -
  have "trim_space ''code'' \<noteq> []" by code_simp
  then show ?thesis
    by (intro poll_waits_for_server) (simp_all add: pending_world_def pending_round [unfolded pending_world_def])
qed

end
