(* ===== verification/Session.thy ===== *)
theory Session
  imports Auth
begin

text \<open>
  The login of a bridge user: \<open>pkg/connector\<close>'s \<open>client.go\<close> (connect, logged-in check, logout),
  \<open>ensureValidSkypeToken\<close> of \<open>handleteams.go\<close>, \<open>graph_token.go\<close>, \<open>oauth_refresh.go\<close>,
  \<open>token_refresh.go\<close> and \<open>device_code_login.go\<close>.

  A \<open>Session\<close> is the client with its login: the metadata in memory (\<open>c.Meta\<close>, which is the login's
  own metadata object), the copy in the bridge database as \<open>Login.Save\<close> last left it, and the flags
  of the client. \<open>fault\<close> is the error of \<open>Login.Save\<close>; \<open>clk\<close> gives the readings of the clock in the
  order in which one call takes them. Receivers and logins are not nil.
\<close>

section \<open>State\<close>

datatype bridge_state = StateConnecting | StateConnected | StateBadCredentials go_error

record Session =
  se_Meta :: "UserLoginMetadata option"
  se_RemoteName :: string
  se_Stored :: "UserLoginMetadata option"
  se_LoggedIn :: bool
  se_Syncing :: bool \<comment> \<open>\<open>syncCancel\<close> is set\<close>
  se_States :: "bridge_state list"

definition login_save :: "go_error option \<Rightarrow> Session \<Rightarrow> go_error option \<times> Session" where
  "login_save fault s = (fault, if fault = None then s\<lparr>se_Stored := se_Meta s\<rparr> else s)"

section \<open>Refreshing tokens\<close>

definition newRefreshAuthClient :: "string \<Rightarrow> UserLoginMetadata option \<Rightarrow> AuthClient" where
  "newRefreshAuthClient configClientID meta =
     (let client = NewAuthClient;
          clientID = (case meta of Some m \<Rightarrow> trim_space (um_OAuthClientID m) | None \<Rightarrow> [])
      in if clientID \<noteq> [] then
           (if clientID = TeamsPersonalClientID
            then client\<lparr>ac_ClientID := clientID, ac_RedirectURI := [],
                        ac_TokenEndpoint := TeamsPersonalTokenURL\<rparr>
            else client\<lparr>ac_ClientID := clientID\<rparr>)
         else if trim_space configClientID \<noteq> []
           then client\<lparr>ac_ClientID := trim_space configClientID\<rparr>
         else client)"

definition mbiRefreshScope :: string where
  "mbiRefreshScope = ''service::api.fl.spaces.skype.com::MBI_SSL''"

definition graphFilesReadWriteScope :: string where
  "graphFilesReadWriteScope = ''https://graph.microsoft.com/Files.ReadWrite''"

definition skypeRefreshScopes :: "UserLoginMetadata option \<Rightarrow> string list" where
  "skypeRefreshScopes meta =
     (case meta of
        Some m \<Rightarrow> if trim_space (um_OAuthClientID m) = TeamsPersonalClientID
                  then string_fields TeamsPersonalScope
                  else [mbiRefreshScope, ''offline_access'']
      | None \<Rightarrow> [mbiRefreshScope, ''offline_access''])"

definition refreshAccessTokenForGraphScope ::
  "golib \<Rightarrow> exchange \<Rightarrow> (nat \<Rightarrow> instant) \<Rightarrow> AuthClient \<Rightarrow> string \<Rightarrow> go_error + AuthState" where
  "refreshAccessTokenForGraphScope L http clk client refreshToken =
     (case RefreshAccessToken L http (clk 0)
             (client\<lparr>ac_Scopes := [graphFilesReadWriteScope, ''offline_access'']\<rparr>) refreshToken of
        Inr refreshed \<Rightarrow> Inr refreshed
      | Inl err \<Rightarrow>
        (case RefreshAccessToken L http (clk 1)
                (client\<lparr>ac_Scopes := [''openid'', ''profile'', ''offline_access'', graphFilesReadWriteScope]\<rparr>)
                refreshToken of
           Inr refreshed \<Rightarrow> Inr refreshed
         | Inl fallbackErr \<Rightarrow> Inl (ErrNew ''graph scope refresh failed; fallback scopes failed'')))"

definition skype_token_fresh :: "UserLoginMetadata \<Rightarrow> instant \<Rightarrow> bool" where
  "skype_token_fresh m now \<longleftrightarrow> um_SkypeToken m \<noteq> [] \<and> um_SkypeTokenExpiresAt m \<noteq> 0
     \<and> now + SkypeTokenExpirySkew < from_unix (um_SkypeTokenExpiresAt m)"

definition ensureValidSkypeToken ::
  "golib \<Rightarrow> exchange \<Rightarrow> (nat \<Rightarrow> instant) \<Rightarrow> go_error option \<Rightarrow> string \<Rightarrow> Session
     \<Rightarrow> go_error option \<times> Session"
where
  "ensureValidSkypeToken L http clk fault configClientID s =
     (case se_Meta s of
        None \<Rightarrow> (Some (ErrNew ''missing login metadata''), s)
      | Some meta \<Rightarrow>
        if skype_token_fresh meta (clk 0) then (None, s)
        else
          (let refresh = trim_space (um_RefreshToken meta)
           in if refresh = [] then (Some (ErrNew ''missing refresh token, re-login required''), s)
              else
                (let authClient = (newRefreshAuthClient configClientID (Some meta))
                       \<lparr>ac_Scopes := skypeRefreshScopes (Some meta)\<rparr>
                 in case RefreshAccessToken L http (clk 1) authClient refresh of
                      Inl err \<Rightarrow> (Some err, s)
                    | Inr state \<Rightarrow>
                      (let rt = trim_space (as_RefreshToken state);
                           meta = (if rt \<noteq> [] then meta\<lparr>um_RefreshToken := rt\<rparr> else meta);
                           refreshRotated = (rt \<noteq> [] \<and> rt \<noteq> refresh);
                           s = s\<lparr>se_Meta := Some meta\<rparr>
                       in case AcquireSkypeToken L http (clk 2) authClient (as_AccessToken state) of
                            Inl err \<Rightarrow> (Some err, if refreshRotated then snd (login_save fault s) else s)
                          | Inr (skypeToken, skypeExpiresAt, skypeID) \<Rightarrow>
                            (let meta = meta\<lparr>um_AccessTokenExpiresAt := as_ExpiresAtUnix state,
                                   um_SkypeToken := skypeToken, um_SkypeTokenExpiresAt := skypeExpiresAt\<rparr>;
                                 meta = (if trim_space (as_GraphAccessToken state) \<noteq> []
                                            \<and> as_GraphExpiresAt state \<noteq> 0
                                         then meta\<lparr>um_GraphAccessToken := trim_space (as_GraphAccessToken state),
                                                um_GraphExpiresAt := as_GraphExpiresAt state\<rparr>
                                         else meta);
                                 meta = meta\<lparr>um_TeamsUserID := auth_NormalizeTeamsUserID skypeID\<rparr>
                             in (None, snd (login_save fault
                                  (s\<lparr>se_Meta := Some meta, se_RemoteName := um_TeamsUserID meta\<rparr>))))))))"

definition ensureValidGraphToken ::
  "golib \<Rightarrow> exchange \<Rightarrow> (nat \<Rightarrow> instant) \<Rightarrow> go_error option \<Rightarrow> string \<Rightarrow> Session
     \<Rightarrow> go_error option \<times> Session"
where
  "ensureValidGraphToken L http clk fault configClientID s =
     (case se_Meta s of
        None \<Rightarrow> (Some (ErrNew ''missing client/login metadata''), s)
      | Some meta \<Rightarrow>
        if GraphTokenValid (Some meta) (clk 0) then (None, s)
        else
          (let refreshToken = trim_space (um_RefreshToken meta)
           in if refreshToken = [] then (Some (ErrNew ''missing refresh token for graph token refresh''), s)
              else case refreshAccessTokenForGraphScope L http (\<lambda>i. clk (Suc i))
                          (newRefreshAuthClient configClientID (Some meta)) refreshToken of
                Inl err \<Rightarrow> (Some err, s)
              | Inr refreshed \<Rightarrow>
                  if trim_space (as_GraphAccessToken refreshed) = [] \<or> as_GraphExpiresAt refreshed = 0
                  then (Some (ErrNew ''graph token refresh succeeded but did not return graph access token''), s)
                  else
                    (let rt = trim_space (as_RefreshToken refreshed);
                         meta = (if rt \<noteq> [] then meta\<lparr>um_RefreshToken := rt\<rparr> else meta);
                         meta = meta\<lparr>um_GraphAccessToken := trim_space (as_GraphAccessToken refreshed),
                                     um_GraphExpiresAt := as_GraphExpiresAt refreshed\<rparr>
                     in login_save fault (s\<lparr>se_Meta := Some meta\<rparr>))))"

section \<open>Connecting and logging out\<close>

definition startSyncLoop :: "Session \<Rightarrow> Session" where
  "startSyncLoop s = (if se_Syncing s then s else s\<lparr>se_Syncing := True\<rparr>)"

definition stopSyncLoop :: "Session \<Rightarrow> Session" where
  "stopSyncLoop s = s\<lparr>se_Syncing := False\<rparr>"

definition Connect ::
  "golib \<Rightarrow> exchange \<Rightarrow> (nat \<Rightarrow> instant) \<Rightarrow> go_error option \<Rightarrow> string \<Rightarrow> Session \<Rightarrow> Session" where
  "Connect L http clk fault configClientID s =
     (let s = (case se_Meta s of None \<Rightarrow> s\<lparr>se_Meta := Some no_metadata\<rparr> | Some _ \<Rightarrow> s);
          s = s\<lparr>se_States := se_States s @ [StateConnecting]\<rparr>
      in case ensureValidSkypeToken L http clk fault configClientID s of
           (Some err, s) \<Rightarrow>
             s\<lparr>se_LoggedIn := False, se_States := se_States s @ [StateBadCredentials err]\<rparr>
         | (None, s) \<Rightarrow>
             startSyncLoop (s\<lparr>se_LoggedIn := True, se_States := se_States s @ [StateConnected]\<rparr>))"

definition Disconnect :: "Session \<Rightarrow> Session" where
  "Disconnect s = stopSyncLoop s"

definition IsLoggedIn :: "Session \<Rightarrow> instant \<Rightarrow> bool" where
  "IsLoggedIn s now =
     (if se_LoggedIn s then True
      else case se_Meta s of
        None \<Rightarrow> False
      | Some m \<Rightarrow>
          if um_SkypeToken m = [] \<or> um_SkypeTokenExpiresAt m = 0 then False
          else now + SkypeTokenExpirySkew < from_unix (um_SkypeTokenExpiresAt m))"

definition LogoutRemote :: "go_error option \<Rightarrow> Session \<Rightarrow> Session" where
  "LogoutRemote fault s =
     (let s = stopSyncLoop s;
          s = (case se_Meta s of Some _ \<Rightarrow> s\<lparr>se_Meta := Some no_metadata\<rparr> | None \<Rightarrow> s)
      in (snd (login_save fault s))\<lparr>se_LoggedIn := False\<rparr>)"

definition IsThisUser :: "Session \<Rightarrow> string \<Rightarrow> bool" where
  "IsThisUser s userID =
     (case se_Meta s of None \<Rightarrow> False
      | Some m \<Rightarrow> trim_space userID \<noteq> [] \<and> trim_space (um_TeamsUserID m) = userID)"

section \<open>Logging in with a device code\<close>

record DeviceCodeLogin =
  dl_Client :: "DeviceCodeClient option"
  dl_DeviceCode :: string
  dl_Interval :: duration
  dl_Canceled :: bool

text \<open>Go's division by 60, which rounds towards zero.\<close>

definition minutes :: "int \<Rightarrow> int" where
  "minutes n = (if 0 \<le> n then n div 60 else - ((- n) div 60))"

text \<open>What \<open>Start\<close> shows: the address, the code, and its lifetime in minutes.\<close>

definition Login_Start ::
  "golib \<Rightarrow> exchange \<Rightarrow> DeviceCodeLogin \<Rightarrow> (go_error + string \<times> string \<times> int) \<times> DeviceCodeLogin" where
  "Login_Start L http l =
     (let l = l\<lparr>dl_Client := Some NewDeviceCodeClient\<rparr>
      in case DeviceCode_Start L http (Some NewDeviceCodeClient) of
           Inl err \<Rightarrow> (Inl (ErrWrap ''request device code'' err), l)
         | Inr challenge \<Rightarrow>
             (Inr (dc_VerificationURI challenge, dc_UserCode challenge, minutes (dc_ExpiresIn challenge)),
              l\<lparr>dl_DeviceCode := dc_DeviceCode challenge,
                dl_Interval := word_of_int (dc_Interval challenge) * second\<rparr>))"

definition Login_Cancel :: "DeviceCodeLogin \<Rightarrow> DeviceCodeLogin" where
  "Login_Cancel l = l\<lparr>dl_Canceled := True\<rparr>"

definition acquirePersonalTeamsSkypeToken ::
  "golib \<Rightarrow> exchange \<Rightarrow> (nat \<Rightarrow> instant) \<Rightarrow> AuthClient \<Rightarrow> string
     \<Rightarrow> go_error + AuthState \<times> string \<times> int \<times> string" where
  "acquirePersonalTeamsSkypeToken L http clk client refreshToken =
     (case RefreshAccessToken L http (clk 0) client (trim_space refreshToken) of
        Inl err \<Rightarrow> Inl (ErrWrap ''refresh personal Teams access token'' err)
      | Inr state \<Rightarrow>
        (case AcquireSkypeToken L http (clk 1) client (as_AccessToken state) of
           Inl err \<Rightarrow> Inl (ErrWrap ''exchange personal Teams access token for skypetoken'' err)
         | Inr tok \<Rightarrow> Inr (state, tok)))"

definition personal_client :: AuthClient where
  "personal_client = NewAuthClient\<lparr>ac_ClientID := TeamsPersonalClientID,
     ac_TokenEndpoint := TeamsPersonalTokenURL, ac_RedirectURI := [],
     ac_Scopes := string_fields TeamsPersonalScope\<rparr>"

text \<open>
  \<open>Wait\<close>: \<open>None\<close> is a poll that never returns. On success the metadata of the new login, whose ID is
  the Teams user ID; \<open>created\<close> is the error of \<open>NewLogin\<close>.
\<close>

definition Login_Wait ::
  "golib \<Rightarrow> poll_world \<Rightarrow> exchange \<Rightarrow> (nat \<Rightarrow> instant) \<Rightarrow> (UserLoginMetadata \<Rightarrow> go_error option)
     \<Rightarrow> DeviceCodeLogin \<Rightarrow> (go_error + string \<times> UserLoginMetadata) option"
where
  "Login_Wait L W http clk created l =
     (if dl_Client l = None \<or> dl_DeviceCode l = []
      then Some (Inl (ErrNew ''device code login not started''))
      else if dl_Canceled l then Some (Inl (CtxErr Canceled))
      else case DeviceCode_Poll L W (dl_Client l) (dl_DeviceCode l) (dl_Interval l) of
        None \<Rightarrow> None
      | Some (Inl err, _) \<Rightarrow> Some (Inl (ErrWrap ''poll device code'' err))
      | Some (Inr state, _) \<Rightarrow>
        Some
          (if trim_space (as_RefreshToken state) = []
           then Inl (ErrNew ''device code token response missing refresh token'')
           else case acquirePersonalTeamsSkypeToken L http clk personal_client (as_RefreshToken state) of
             Inl err \<Rightarrow> Inl err
           | Inr (personalState, skypeToken, skypeExpiresAt, skypeID) \<Rightarrow>
             (let teamsUserID = auth_NormalizeTeamsUserID skypeID
              in if teamsUserID = [] then Inl (ErrNew ''teams user ID missing from skypetoken response'')
                 else
                   (let refreshToken = trim_space (as_RefreshToken state);
                        rotated = trim_space (as_RefreshToken personalState);
                        refreshToken = (if rotated \<noteq> [] then rotated else refreshToken);
                        (graphAccessToken, graphExpiresAt, refreshToken) =
                          (case refreshAccessTokenForGraphScope L http (\<lambda>i. clk (Suc (Suc i)))
                                  personal_client refreshToken of
                             Inr graphState \<Rightarrow>
                               (trim_space (as_GraphAccessToken graphState), as_GraphExpiresAt graphState,
                                let r = trim_space (as_RefreshToken graphState)
                                in if r \<noteq> [] then r else refreshToken)
                           | Inl _ \<Rightarrow> ([], 0, refreshToken));
                        meta = \<lparr>um_RefreshToken = refreshToken,
                                um_AccessTokenExpiresAt = as_ExpiresAtUnix personalState,
                                um_OAuthClientID = TeamsPersonalClientID, um_SkypeToken = skypeToken,
                                um_SkypeTokenExpiresAt = skypeExpiresAt,
                                um_GraphAccessToken = graphAccessToken,
                                um_GraphExpiresAt = graphExpiresAt, um_TeamsUserID = teamsUserID\<rparr>
                    in case created meta of Some err \<Rightarrow> Inl err | None \<Rightarrow> Inr (teamsUserID, meta)))))"

section \<open>Scopes\<close>

lemma scope_ascii:
  "list_all is_ascii (trim_space scope) \<Longrightarrow> trim_space scope \<noteq> [] \<Longrightarrow>
     shouldPersistGraphToken L scope
       \<longleftrightarrow> graph_scope_part (string_fields (map ascii_lower (trim_space scope)))"
  by (simp add: shouldPersistGraphToken_def to_lower_ascii Let_def)

lemma personal_scope_join:
  "join (string_fields TeamsPersonalScope) '' '' = TeamsPersonalScope"
  by code_simp

lemma skype_scope_text:
  "join (skypeRefreshScopes meta) '' '' \<in> {TeamsPersonalScope, mbiRefreshScope @ '' offline_access''}"
  by (auto simp: skypeRefreshScopes_def personal_scope_join split: option.split)

lemma skype_scope_not_graph: "\<not> shouldPersistGraphToken L (join (skypeRefreshScopes meta) '' '')"
proof -
  have "list_all is_ascii (trim_space TeamsPersonalScope)" "trim_space TeamsPersonalScope \<noteq> []"
    "\<not> graph_scope_part (string_fields (map ascii_lower (trim_space TeamsPersonalScope)))"
    "list_all is_ascii (trim_space (mbiRefreshScope @ '' offline_access''))"
    "trim_space (mbiRefreshScope @ '' offline_access'') \<noteq> []"
    "\<not> graph_scope_part (string_fields (map ascii_lower (trim_space (mbiRefreshScope @ '' offline_access''))))"
    by code_simp+
  then show ?thesis using skype_scope_text [of meta] by (auto simp: scope_ascii)
qed

lemma graph_scope_persists:
  "shouldPersistGraphToken L (join [graphFilesReadWriteScope, ''offline_access''] '' '')"
  "shouldPersistGraphToken L (join [''openid'', ''profile'', ''offline_access'', graphFilesReadWriteScope] '' '')"
proof -
  have "list_all is_ascii (trim_space (join [graphFilesReadWriteScope, ''offline_access''] '' ''))"
    "trim_space (join [graphFilesReadWriteScope, ''offline_access''] '' '') \<noteq> []"
    "graph_scope_part (string_fields (map ascii_lower
       (trim_space (join [graphFilesReadWriteScope, ''offline_access''] '' ''))))"
    by code_simp+
  then show "shouldPersistGraphToken L (join [graphFilesReadWriteScope, ''offline_access''] '' '')"
    using scope_ascii by blast
  have "list_all is_ascii (trim_space
      (join [''openid'', ''profile'', ''offline_access'', graphFilesReadWriteScope] '' ''))"
    "trim_space (join [''openid'', ''profile'', ''offline_access'', graphFilesReadWriteScope] '' '') \<noteq> []"
    "graph_scope_part (string_fields (map ascii_lower (trim_space
      (join [''openid'', ''profile'', ''offline_access'', graphFilesReadWriteScope] '' ''))))"
    by code_simp+
  then show "shouldPersistGraphToken L
      (join [''openid'', ''profile'', ''offline_access'', graphFilesReadWriteScope] '' '')"
    using scope_ascii by blast
qed

lemma tokenRequest_Inr:
  assumes "tokenRequest L http now c values = Inr st"
  shows "\<exists>payload. tk_AccessToken payload \<noteq> [] \<and> st = token_state L now (value_of values ''scope'') payload"
  using assms by (auto simp: tokenRequest_def Let_def split: sum.splits option.splits if_splits)

lemma RefreshAccessToken_Inr:
  assumes "RefreshAccessToken L http now c rt = Inr st" and "ac_Scopes c \<noteq> []"
  shows "\<exists>payload. tk_AccessToken payload \<noteq> []
    \<and> st = token_state L now (join (ac_Scopes c) '' '') payload"
  using assms by (auto simp: RefreshAccessToken_def value_of_def dest!: tokenRequest_Inr split: if_splits)

lemma token_state_not_graph:
  "\<not> shouldPersistGraphToken L scope \<Longrightarrow>
     as_GraphAccessToken (token_state L now scope p) = [] \<and> as_GraphExpiresAt (token_state L now scope p) = 0"
  by (simp add: token_state_def no_auth_def Let_def)

lemma token_state_graph:
  "shouldPersistGraphToken L scope \<Longrightarrow>
     as_GraphAccessToken (token_state L now scope p) = tk_AccessToken p
     \<and> as_AccessToken (token_state L now scope p) = tk_AccessToken p
     \<and> as_GraphExpiresAt (token_state L now scope p) = as_ExpiresAtUnix (token_state L now scope p)"
  by (simp add: token_state_def no_auth_def Let_def)

lemma skypeRefreshScopes_nonempty: "skypeRefreshScopes meta \<noteq> []"
proof -
  have "string_fields TeamsPersonalScope \<noteq> []" by code_simp
  then show ?thesis by (simp add: skypeRefreshScopes_def split: option.split)
qed

text \<open>
  Tokens are kept apart by scope. A refresh with the scopes of a Skype token, of either kind of
  login, never yields a Graph token, whatever the server answers; a refresh for the Graph scope that
  succeeds yields the access token as Graph token, which is not empty and expires with it.
\<close>

theorem scopes_separate_tokens:
  "(case RefreshAccessToken L http now (c\<lparr>ac_Scopes := skypeRefreshScopes meta\<rparr>) rt of
      Inr st \<Rightarrow> as_GraphAccessToken st = [] \<and> as_GraphExpiresAt st = 0 | Inl _ \<Rightarrow> True)
   \<and> (case refreshAccessTokenForGraphScope L http clk c rt of
      Inr st \<Rightarrow> as_GraphAccessToken st = as_AccessToken st \<and> as_AccessToken st \<noteq> []
        \<and> as_GraphExpiresAt st = as_ExpiresAtUnix st
    | Inl _ \<Rightarrow> True)"
proof -
  have skype: "as_GraphAccessToken st = [] \<and> as_GraphExpiresAt st = 0"
    if "RefreshAccessToken L http now (c\<lparr>ac_Scopes := skypeRefreshScopes meta\<rparr>) rt = Inr st" for st
    using RefreshAccessToken_Inr [OF that]
    by (auto simp: skypeRefreshScopes_nonempty token_state_not_graph skype_scope_not_graph)
  have graph: "as_GraphAccessToken st = as_AccessToken st \<and> as_AccessToken st \<noteq> []
      \<and> as_GraphExpiresAt st = as_ExpiresAtUnix st"
    if "RefreshAccessToken L http t (c\<lparr>ac_Scopes := scopes\<rparr>) rt = Inr st"
      and "scopes \<noteq> []" and "shouldPersistGraphToken L (join scopes '' '')" for st scopes t
    using RefreshAccessToken_Inr [OF that(1)] that(2,3)
    by (auto simp: token_state_graph)
  show ?thesis
    using skype graph graph_scope_persists
    by (auto simp: refreshAccessTokenForGraphScope_def split: sum.split simp del: join.simps)
qed

section \<open>Keeping a session alive\<close>

text \<open>What a call of \<open>ensureValidSkypeToken\<close> may do to the metadata, by its outcome.\<close>

definition same_graph :: "UserLoginMetadata \<Rightarrow> UserLoginMetadata \<Rightarrow> bool" where
  "same_graph m m' \<longleftrightarrow> um_GraphAccessToken m' = um_GraphAccessToken m
     \<and> um_GraphExpiresAt m' = um_GraphExpiresAt m \<and> um_OAuthClientID m' = um_OAuthClientID m"

definition same_skype :: "UserLoginMetadata \<Rightarrow> UserLoginMetadata \<Rightarrow> bool" where
  "same_skype m m' \<longleftrightarrow> um_SkypeToken m' = um_SkypeToken m
     \<and> um_SkypeTokenExpiresAt m' = um_SkypeTokenExpiresAt m \<and> um_TeamsUserID m' = um_TeamsUserID m"

lemma AcquireSkypeToken_Inr:
  "AcquireSkypeToken L http now c access = Inr (tok, ex, sid) \<Longrightarrow> tok \<noteq> []"
  by (auto simp: AcquireSkypeToken_def Let_def split: sum.splits option.splits if_splits)

text \<open>
  Refreshing the Skype token never loses other credentials. Whatever the servers answer, the Graph
  token, its expiry and the OAuth client stay, and a refresh token that was there is still there or
  replaced by a non-blank one; on an error the Skype token and user stay as they were, and on success
  there is a Skype token, with either nothing changed or the user ID in normal form.
\<close>

theorem ensureValidSkypeToken_preserves:
  assumes "se_Meta s = Some m" and "ensureValidSkypeToken L http clk fault cfg s = (err, s')"
  shows "\<exists>m'. se_Meta s' = Some m' \<and> same_graph m m'
    \<and> (trim_space (um_RefreshToken m) \<noteq> [] \<longrightarrow> trim_space (um_RefreshToken m') \<noteq> [])
    \<and> (err \<noteq> None \<longrightarrow> same_skype m m')
    \<and> (err = None \<longrightarrow> um_SkypeToken m' \<noteq> []
         \<and> (s' = s \<or> (\<exists>skypeID. um_TeamsUserID m' = auth_NormalizeTeamsUserID skypeID)))"
proof (cases "skype_token_fresh m (clk 0) \<or> trim_space (um_RefreshToken m) = []")
  case True
  have "skype_token_fresh m t \<Longrightarrow> um_SkypeToken m \<noteq> []" for t by (simp add: skype_token_fresh_def)
  with True assms show ?thesis
    by (auto simp: ensureValidSkypeToken_def same_graph_def same_skype_def split: if_splits)
next
  case False
  let ?c = "(newRefreshAuthClient cfg (Some m))\<lparr>ac_Scopes := skypeRefreshScopes (Some m)\<rparr>"
  show ?thesis
  proof (cases "RefreshAccessToken L http (clk 1) ?c (trim_space (um_RefreshToken m))")
    case (Inl e)
    with False assms show ?thesis
      by (auto simp: ensureValidSkypeToken_def same_graph_def same_skype_def Let_def)
  next
    case (Inr st)
    from RefreshAccessToken_Inr [OF Inr] have "trim_space (as_GraphAccessToken st) = []"
      by (auto simp: skypeRefreshScopes_nonempty token_state_not_graph skype_scope_not_graph)
    with Inr False assms show ?thesis
      by (cases "AcquireSkypeToken L http (clk 2) ?c (as_AccessToken st)")
        (auto simp: ensureValidSkypeToken_def login_save_def same_graph_def same_skype_def Let_def
          dest: AcquireSkypeToken_Inr split: if_splits)
  qed
qed

text \<open>Servers for the examples: a token endpoint that rotates, and a Skype endpoint.\<close>

definition session_lib :: golib where
  "session_lib = device_lib\<lparr>lib_json_first := \<lambda>s.
     Some (JObject (if s = ''sky'' then
        [(''skypeToken'', [], JObject [(''skypetoken'', [], JString ''S''), (''skypeid'', [], JString ''live:bob'')])]
      else [(''access_token'', [], JString ''A''), (''refresh_token'', [], JString ''r2'')]))\<rparr>"

definition session_server :: exchange where
  "session_server q = Inr \<lparr>resp_status = 200, resp_retry_after = [], resp_content_type = [],
     resp_body = (if req_url q = ac_SkypeTokenEndpoint NewAuthClient then ''sky'' else ''tok''),
     resp_body_err = None\<rparr>"

definition old_metadata :: UserLoginMetadata where
  "old_metadata = no_metadata\<lparr>um_RefreshToken := ''r1'', um_GraphAccessToken := ''G'', um_GraphExpiresAt := 5\<rparr>"

definition old_session :: Session where
  "old_session = \<lparr>se_Meta = Some old_metadata, se_RemoteName = [], se_Stored = Some old_metadata,
     se_LoggedIn = False, se_Syncing = False, se_States = []\<rparr>"

lemma refreshed_session:
  "ensureValidSkypeToken session_lib session_server (\<lambda>_. 0) None [] old_session =
     (let m = old_metadata\<lparr>um_RefreshToken := ''r2'', um_SkypeToken := ''S'', um_TeamsUserID := ''8:live:bob''\<rparr>
      in (None, old_session\<lparr>se_Meta := Some m, se_Stored := Some m, se_RemoteName := ''8:live:bob''\<rparr>))"
  by code_simp

lemma old_session_Meta: "se_Meta old_session = Some old_metadata"
  by (simp add: old_session_def)

theorem ensureValidSkypeToken_preserves_witness:
  "\<exists>m'. se_Meta (snd (ensureValidSkypeToken session_lib session_server (\<lambda>_. 0) None [] old_session)) = Some m'
     \<and> same_graph old_metadata m' \<and> um_SkypeToken m' \<noteq> []"
  using ensureValidSkypeToken_preserves [OF old_session_Meta refreshed_session [unfolded Let_def]]
  unfolding refreshed_session Let_def snd_conv by auto



text \<open>
  Logging out forgets everything. Afterwards nothing is stored but empty metadata, the client is
  not logged in at any time and no sync loop runs; and it cannot come back: connecting again asks
  for a new login without a single request.
\<close>

theorem LogoutRemote_forgets:
  assumes "se_Meta s = Some m"
  shows "let s' = LogoutRemote None s in
      se_Stored s' = Some no_metadata \<and> \<not> se_Syncing s' \<and> \<not> IsLoggedIn s' now
      \<and> ensureValidSkypeToken L http clk fault cfg s'
          = (Some (ErrNew ''missing refresh token, re-login required''), s')
      \<and> \<not> se_LoggedIn (Connect L http clk fault cfg s') \<and> \<not> se_Syncing (Connect L http clk fault cfg s')"
  using assms
  by (simp add: LogoutRemote_def Connect_def ensureValidSkypeToken_def login_save_def stopSyncLoop_def
      IsLoggedIn_def no_metadata_def skype_token_fresh_def Let_def)

theorem LogoutRemote_forgets_witness:
  "se_Stored (LogoutRemote None (old_session\<lparr>se_LoggedIn := True\<rparr>)) = Some no_metadata
     \<and> \<not> IsLoggedIn (LogoutRemote None (old_session\<lparr>se_LoggedIn := True\<rparr>)) 0"
  using LogoutRemote_forgets [of "old_session\<lparr>se_LoggedIn := True\<rparr>" old_metadata 0]
  by (simp add: old_session_def Let_def)

end
