(* ===== verification/PollBackoff.thy ===== *)
theory PollBackoff
  imports Executor
begin

text \<open>
  \<open>pkg/connector/poll_backoff.go\<close>: the per-thread backoff of the polling loop. The counter and the
  delay are Go's 64-bit \<open>int\<close> and \<open>time.Duration\<close>, kept as words, since the exponential branch
  overflows them.
\<close>

record PollBackoff =
  Failures :: int64
  Delay :: duration

definition pollBaseDelay :: duration where "pollBaseDelay = 2 * second"
definition pollIdleCap :: duration where "pollIdleCap = 30 * second"
definition pollFailureCap :: duration where "pollFailureCap = 60 * second"

lemmas poll_consts = pollBaseDelay_def pollIdleCap_def pollFailureCap_def second_def

definition ensureBaseDelay :: "PollBackoff \<Rightarrow> duration" where
  "ensureBaseDelay b = (if Delay b \<le>s 0 then pollBaseDelay else Delay b)"

definition OnSuccess :: "PollBackoff \<Rightarrow> PollBackoff" where
  "OnSuccess b = b\<lparr>Failures := 0, Delay := pollBaseDelay\<rparr>"

definition OnIdle :: "PollBackoff \<Rightarrow> PollBackoff" where
  "OnIdle b =
     (let next = ensureBaseDelay b + pollBaseDelay
      in b\<lparr>Failures := 0, Delay := (if pollIdleCap <s next then pollIdleCap else next)\<rparr>)"

text \<open>\<open>1 << n\<close> in 64 bits: zero once the bit is shifted out.\<close>

definition shl1 :: "int64 \<Rightarrow> int64" where
  "shl1 n = push_bit (unat n) 1"

definition OnFailure :: "PollBackoff \<Rightarrow> PollBackoff" where
  "OnFailure b =
     (let failures = Failures b + 1;
          delay = (if 1 <s failures then pollBaseDelay * shl1 (failures - 1) else pollBaseDelay)
      in b\<lparr>Failures := failures,
           Delay := (if pollFailureCap <s delay then pollFailureCap else delay)\<rparr>)"

definition OnRetryAfter :: "PollBackoff \<Rightarrow> duration \<Rightarrow> PollBackoff" where
  "OnRetryAfter b d =
     (if d \<le>s 0 then OnFailure b else b\<lparr>Failures := Failures b + 1, Delay := d\<rparr>)"

datatype PollBackoffReason =
    PollBackoffSuccess | PollBackoffIdle | PollBackoffRetryAfter | PollBackoffFailure
  | PollBackoffClient4xx

definition isClient4xxNon429 :: "int \<Rightarrow> bool" where
  "isClient4xxNon429 status \<longleftrightarrow> 400 \<le> status \<and> status < 500 \<and> status \<noteq> 429"

text \<open>
  \<open>ApplyPollBackoff\<close> updates the state through its pointer; the model returns it first. A nil
  pointer is \<open>None\<close>.
\<close>

definition ApplyPollBackoff ::
  "PollBackoff option \<Rightarrow> int \<Rightarrow> go_error option
     \<Rightarrow> PollBackoff option \<times> duration \<times> PollBackoffReason"
where
  "ApplyPollBackoff bo messagesIngested err =
     (case bo of
        None \<Rightarrow> (None, pollBaseDelay, PollBackoffFailure)
      | Some b \<Rightarrow>
        (let ret = (\<lambda>b' reason. (Some b', Delay b', reason))
         in case err of
              None \<Rightarrow>
                if 0 < messagesIngested then ret (OnSuccess b) PollBackoffSuccess
                else ret (OnIdle b) PollBackoffIdle
            | Some e \<Rightarrow>
              (case as_retryable e of
                 Some (status, retryAfter) \<Rightarrow>
                   if status = 429 \<and> 0 <s retryAfter
                   then ret (OnRetryAfter b retryAfter) PollBackoffRetryAfter
                   else ret (OnFailure b) PollBackoffFailure
               | None \<Rightarrow>
                 (case as_messages_error e of
                    Some status \<Rightarrow>
                      if isClient4xxNon429 status
                      then ret (b\<lparr>Failures := 0, Delay := pollIdleCap\<rparr>) PollBackoffClient4xx
                      else ret (OnFailure b) PollBackoffFailure
                  | None \<Rightarrow> ret (OnFailure b) PollBackoffFailure))))"

section \<open>The exponential branch\<close>

text \<open>The delay \<open>OnFailure\<close> sets when it has just counted failure number \<open>n\<close>.\<close>

definition failure_delay :: "nat \<Rightarrow> duration" where
  "failure_delay n = Delay (OnFailure \<lparr>Failures = word_of_nat n - 1, Delay = 0\<rparr>)"

lemma OnFailure_eq:
  "OnFailure b = b\<lparr>Failures := Failures b + 1, Delay := failure_delay (unat (Failures b + 1))\<rparr>"
  by (simp add: OnFailure_def failure_delay_def Let_def)

lemma failure_delay_eq:
  assumes "1 < n" "n < 2 ^ 63"
  shows "failure_delay n =
    (let d = word_of_int (2000000000 * 2 ^ (n - 1)) in if pollFailureCap <s d then pollFailureCap else d)"
proof -
  let ?w = "word_of_nat n :: int64"
  have n: "unat ?w = n" using assms(2) by (simp add: unat_of_nat take_bit_nat_eq_self)
  have s: "sint ?w = int n"
    using assms(2) by (simp add: signed_of_nat signed_take_bit_int_eq_self)
  have "1 <s ?w" using assms(1) s by (simp add: word_sless_alt)
  moreover have "unat (?w - 1) = n - 1"
  proof -
    have "1 \<le> ?w" using assms(1) n by (simp add: word_le_nat_alt)
    then show ?thesis using n by (simp add: unat_sub)
  qed
  moreover have "pollBaseDelay * push_bit m 1 = word_of_int (2000000000 * 2 ^ m)" for m
    by (simp add: poll_consts push_bit_eq_mult)
  ultimately show ?thesis
    by (simp add: failure_delay_def OnFailure_def shl1_def Let_def)
qed

lemma failure_delay_1: "failure_delay 1 = pollBaseDelay"
  by (simp add: failure_delay_def OnFailure_def poll_consts Let_def word_sless_alt)

lemma sint_of_int_id: "0 \<le> x \<Longrightarrow> x < 2 ^ 63 \<Longrightarrow> sint (word_of_int x :: int64) = x"
  by (simp add: sint_sbintrunc' signed_take_bit_int_eq_self)

lemma failure_delay_small:
  assumes "1 \<le> n" "n \<le> 33"
  shows "sint (failure_delay n) = min (2000000000 * 2 ^ (n - 1)) 60000000000"
proof (cases "n = 1")
  case True
  then show ?thesis by (simp add: failure_delay_1 [simplified] poll_consts)
next
  case False
  have "(2::int) ^ (n - 1) \<le> 2 ^ 32" using assms by (intro power_increasing) auto
  then have "sint (word_of_int (2000000000 * 2 ^ (n - 1)) :: int64) = 2000000000 * 2 ^ (n - 1)"
    by (intro sint_of_int_id) auto
  moreover have "n < 2 ^ 63" using assms(2) by simp
  ultimately show ?thesis
    using failure_delay_eq [of n] False assms(1)
    by (auto simp: Let_def word_sless_alt poll_consts min_def)
qed

lemma failure_delay_large: "55 \<le> n \<Longrightarrow> n < 2 ^ 63 \<Longrightarrow> failure_delay n = 0"
proof -
  assume n: "55 \<le> n" "n < 2 ^ 63"
  then obtain m where m: "n = m + 55" by (metis le_iff_add add.commute)
  have "(2000000000 :: int) * 2 ^ (n - 1) = 2 ^ 64 * (1953125 * 2 ^ m)"
    by (simp add: m power_add)
  then have "word_of_int (2000000000 * 2 ^ (n - 1)) = (0 :: int64)"
    by (simp only: word_of_int_eq_0_iff) simp
  with failure_delay_eq [of n] n show ?thesis
    by (simp add: Let_def word_sless_alt poll_consts)
qed

text \<open>Runs of equal outcomes.\<close>

lemma OnFailure_run:
  assumes "Failures b = 0" "1 \<le> n" "n < 2 ^ 63"
  shows "(OnFailure ^^ n) b = b\<lparr>Failures := word_of_nat n, Delay := failure_delay n\<rparr>"
  using assms(2,3)
proof (induction n rule: dec_induct)
  case base
  with assms(1) show ?case by (simp add: OnFailure_eq)
next
  case (step n)
  moreover have "unat (1 + word_of_nat n :: int64) = Suc n"
    using step.prems by (simp add: unat_of_nat take_bit_nat_eq_self flip: of_nat_Suc)
  ultimately show ?case by (simp add: OnFailure_eq ac_simps)
qed

lemma OnIdle_delay:
  assumes "0 < sint (Delay b)" "sint (Delay b) < 2 ^ 63 - 2000000000"
  shows "sint (Delay (OnIdle b)) = min (sint (Delay b) + 2000000000) 30000000000"
proof -
  have "sint (Delay b + 2000000000) = sint (Delay b) + 2000000000"
    using assms by (simp add: signed_take_bit_int_eq_self sint_word_ariths)
  with assms(1) show ?thesis
    by (simp add: OnIdle_def ensureBaseDelay_def Let_def word_sless_alt word_sle_eq poll_consts)
qed

lemma OnIdle_run:
  assumes "Delay b = pollBaseDelay"
  shows "sint (Delay ((OnIdle ^^ n) b)) = min (2000000000 * (int n + 1)) 30000000000"
proof (induction n)
  case 0
  with assms show ?case by (simp add: poll_consts)
next
  case (Suc n)
  then show ?case by (simp add: OnIdle_delay)
qed

section \<open>Properties\<close>

text \<open>
  Consecutive failures back off exponentially up to the cap: the \<open>n\<close>-th failure in a row sets
  a delay of \<open>2^n\<close> seconds, at most 60 seconds, for up to 33 failures.
\<close>

theorem failures_back_off:
  assumes "Failures b = 0" and "1 \<le> n" and "n \<le> 33"
  shows "sint (Delay ((OnFailure ^^ n) b)) = min (1000000000 * 2 ^ n) 60000000000"
  using assms OnFailure_run [of b n] failure_delay_small [of n]
  by (simp add: power_eq_if [of 2 n])

theorem failures_back_off_witness:
  "sint (Delay ((OnFailure ^^ 33) \<lparr>Failures = 0, Delay = pollBaseDelay\<rparr>)) = 60000000000"
  using failures_back_off [of "\<lparr>Failures = 0, Delay = pollBaseDelay\<rparr>" 33] by simp

text \<open>
  After 33 failures in a row the product overflows. Failure number 34 makes the delay negative,
  and from failure number 55 on it is 0, so that a thread that keeps failing is due again at once:
  the 60 second cap of the failure branch is lost.
\<close>

theorem failures_overflow:
  assumes "Failures b = 0"
  shows "Delay ((OnFailure ^^ 34) b) <s 0
    \<and> (\<forall>n. 55 \<le> n \<and> n < 2 ^ 63 \<longrightarrow> Delay ((OnFailure ^^ n) b) = 0)"
proof -
  have "failure_delay 34 <s 0"
    using failure_delay_eq [of 34] by (simp add: Let_def word_sless_alt poll_consts)
  with assms show ?thesis by (simp add: OnFailure_run failure_delay_large)
qed

theorem failures_overflow_witness:
  "Delay ((OnFailure ^^ 34) \<lparr>Failures = 0, Delay = 1\<rparr>) <s 0
   \<and> Delay ((OnFailure ^^ 100) \<lparr>Failures = 0, Delay = 1\<rparr>) = 0"
  using failures_overflow [of "\<lparr>Failures = 0, Delay = 1\<rparr>"] by simp

text \<open>
  Idle polls slow down linearly: \<open>n\<close> polls without traffic after a success leave a delay of
  \<open>2 (n + 1)\<close> seconds, at most 30 seconds.
\<close>

theorem idle_slows_down:
  "sint (Delay ((OnIdle ^^ n) (OnSuccess b))) = min (2000000000 * (int n + 1)) 30000000000"
  by (rule OnIdle_run) (simp add: OnSuccess_def)

definition backoff_ok :: "PollBackoff \<Rightarrow> bool" where
  "backoff_ok b \<longleftrightarrow> 0 \<le> sint (Failures b) \<and> sint (Failures b) < 33
     \<and> sint (Delay b) < 2 ^ 63 - 2000000000"

lemma OnFailure_delay:
  assumes "backoff_ok b"
  shows "0 < sint (Delay (OnFailure b)) \<and> sint (Delay (OnFailure b)) \<le> 60000000000"
proof -
  define f where "f = unat (Failures b)"
  have eq: "Failures b = word_of_nat f" by (simp add: f_def)
  have "int f = uint (Failures b)" by (simp add: f_def)
  also have "\<dots> = sint (Failures b)"
    using assms by (simp add: backoff_ok_def uint_sint take_bit_int_eq_self)
  finally have f: "f < 33" using assms by (simp add: backoff_ok_def)
  have "Failures b + 1 = word_of_nat (Suc f)" by (simp add: eq)
  with f have "unat (Failures b + 1) = Suc f"
    by (simp add: unat_of_nat take_bit_nat_eq_self del: of_nat_Suc)
  then have "sint (Delay (OnFailure b)) = min (2000000000 * 2 ^ f) 60000000000"
    using f failure_delay_small [of "Suc f"] by (simp add: OnFailure_eq)
  then show ?thesis by simp
qed

lemma OnIdle_bounds:
  assumes "backoff_ok b"
  shows "0 < sint (Delay (OnIdle b)) \<and> sint (Delay (OnIdle b)) \<le> 60000000000"
proof (cases "0 < sint (Delay b)")
  case True
  with assms show ?thesis by (simp add: OnIdle_delay backoff_ok_def)
next
  case False
  then show ?thesis
    by (simp add: OnIdle_def ensureBaseDelay_def Let_def word_sless_alt word_sle_eq poll_consts)
qed

lemma ApplyPollBackoff_bounds:
  assumes "backoff_ok b" and "ApplyPollBackoff (Some b) ingested err = (Some b', delay, reason)"
  shows "delay = Delay b' \<and> 0 < sint delay
    \<and> (if reason = PollBackoffRetryAfter
        then \<exists>e. err = Some e \<and> as_retryable e = Some (429, delay)
        else sint delay \<le> 60000000000)"
  using assms OnFailure_delay [OF assms(1)] OnIdle_bounds [OF assms(1)]
  by (auto simp: ApplyPollBackoff_def Let_def OnSuccess_def OnRetryAfter_def poll_consts
      word_sless_alt word_sle_eq split: option.splits if_splits)

lemma ApplyPollBackoff_stays:
  "\<exists>b' reason. ApplyPollBackoff (Some b) ingested err = (Some b', Delay b', reason)"
  by (simp add: ApplyPollBackoff_def Let_def split: option.split)

text \<open>
  C39: the delay a poll outcome yields. With a failure count below 33 and a delay that leaves room
  for one idle step, every outcome returns the delay it stores, the delay is positive, and it is at
  most 60 seconds unless the server named it: then it is exactly the server's \<open>Retry-After\<close>.
\<close>

theorem poll_delay_bounds:
  assumes "backoff_ok b" and "ApplyPollBackoff (Some b) ingested err = (Some b', delay, reason)"
  shows "delay = Delay b' \<and> 0 < sint delay
    \<and> (if reason = PollBackoffRetryAfter
        then \<exists>e. err = Some e \<and> as_retryable e = Some (429, delay)
        else sint delay \<le> 60000000000)"
  using assms by (rule ApplyPollBackoff_bounds)

theorem poll_delay_bounds_witness:
  "0 < sint (5000000000 :: duration)
   \<and> (\<exists>e. Some (RetryableError 429 5000000000 None) = Some e \<and> as_retryable e = Some (429, 5000000000))"
  using poll_delay_bounds [of "\<lparr>Failures = 3, Delay = pollBaseDelay\<rparr>" 0
      "Some (RetryableError 429 5000000000 None)" "\<lparr>Failures = 4, Delay = 5000000000\<rparr>"
      5000000000 PollBackoffRetryAfter]
  by (simp add: backoff_ok_def poll_consts ApplyPollBackoff_def Let_def OnRetryAfter_def
      word_sless_alt word_sle_eq)

end
