(* ===== verification/Polling.thy ===== *)
theory Polling
  imports ConsumerClient TeamsDB Reactions Session PollBackoff
begin

text \<open>
  \<open>pkg/connector/handleteams.go\<close>: from Teams to Matrix. Thread discovery, one poll of a thread, read
  horizons, and the scheduler that polls every thread when it is due; with the in-memory records of
  \<open>client.go\<close> and \<open>handlematrix.go\<close> that they use (own messages, unread threads, receipt polls).

  A \<open>Sync\<close> is the client's mutable state with the bridge's tables and the events queued so far. What
  comes from outside during a call is the record \<open>outside\<close>; theory \<open>Receipts\<close> gives its \<open>o_last_sent\<close>. The
  receivers, the login and the database are not nil; logging is left out.
\<close>

section \<open>Events and state\<close>

record MessageEvent =
  me_PortalKey :: PortalKey
  me_Sender :: EventSender
  me_Timestamp :: instant
  me_StreamOrder :: int
  me_Data :: RemoteMessage
  me_ID :: string
  me_TransactionID :: string

record ReceiptEvent =
  re_PortalKey :: PortalKey
  re_Sender :: string
  re_ReadUpTo :: instant
  re_Target :: "string option"

datatype remote_event =
    ChatResync PortalKey string bool \<comment> \<open>room name, and whether it is a direct chat\<close>
  | Message_Event MessageEvent
  | Reaction_Sync ReactionSync
  | Read_Receipt ReceiptEvent

record Sync =
  sy_session :: Session
  sy_threads :: thread_table
  sy_profiles :: profile_table
  sy_horizons :: horizon_table
  sy_reactionSeen :: "string set"
  sy_receiptPoll :: "string \<Rightarrow> instant option"
  sy_unreadSeen :: "string \<Rightarrow> bool"
  sy_unreadSent :: "string \<Rightarrow> bool"
  sy_selfMessages :: "string \<Rightarrow> instant option"
  sy_events :: "remote_event list"

text \<open>
  The outside of one call: library and servers; the token refresh; faults of the database by query;
  the bridge's own message and reaction tables; the emoji iteration order; \<open>time.Now\<close>.
\<close>

record outside =
  o_lib :: golib
  o_sort :: "RemoteMessage sorter"
  o_http :: exchange
  o_until :: "string \<Rightarrow> duration option"
  o_clk :: "nat \<Rightarrow> instant"
  o_save_fault :: "go_error option"
  o_config :: string
  o_bridge :: string
  o_login :: string
  o_fault :: "string \<Rightarrow> go_error option"
  o_stored :: "(string \<Rightarrow> bool) option"
  o_existing :: "string \<Rightarrow> nat option"
  o_last_sent :: "PortalKey \<Rightarrow> string \<Rightarrow> instant \<Rightarrow> go_error + string"
  o_emoji :: "(string \<times> string) list"
  o_now :: instant

definition queue_event :: "remote_event \<Rightarrow> Sync \<Rightarrow> Sync" where
  "queue_event e st = st\<lparr>sy_events := sy_events st @ [e]\<rparr>"

section \<open>Own messages, unread threads, receipt polls\<close>

definition selfMessageTTL :: int where "selfMessageTTL = 300000000000"

definition cleanupSelfMessages ::
  "instant \<Rightarrow> (string \<Rightarrow> instant option) \<Rightarrow> string \<Rightarrow> instant option" where
  "cleanupSelfMessages now m =
     (\<lambda>i. case m i of Some ts \<Rightarrow> if selfMessageTTL < now - ts then None else Some ts | None \<Rightarrow> None)"

definition recordSelfMessage ::
  "instant \<Rightarrow> string \<Rightarrow> (string \<Rightarrow> instant option) \<Rightarrow> string \<Rightarrow> instant option" where
  "recordSelfMessage now clientMessageID m =
     (let clientMessageID = trim_space clientMessageID
      in if clientMessageID = [] then m else (cleanupSelfMessages now m)(clientMessageID \<mapsto> now))"

definition consumeSelfMessage ::
  "instant \<Rightarrow> string \<Rightarrow> (string \<Rightarrow> instant option) \<Rightarrow> bool \<times> (string \<Rightarrow> instant option)" where
  "consumeSelfMessage now clientMessageID m =
     (let clientMessageID = trim_space clientMessageID
      in if clientMessageID = [] then (False, m)
         else
           (let m = cleanupSelfMessages now m
            in if m clientMessageID \<noteq> None then (True, m(clientMessageID := None)) else (False, m)))"

definition shouldSendReceipt ::
  "string \<Rightarrow> (string \<Rightarrow> bool) \<Rightarrow> (string \<Rightarrow> bool) \<Rightarrow> bool \<times> (string \<Rightarrow> bool)" where
  "shouldSendReceipt threadID unreadSeen unreadSent =
     (if \<not> unreadSeen threadID then (False, unreadSent)
      else if unreadSent threadID then (False, unreadSent)
      else (True, unreadSent(threadID := True)))"

definition markUnread :: "string \<Rightarrow> Sync \<Rightarrow> Sync" where
  "markUnread threadID st =
     st\<lparr>sy_unreadSeen := (sy_unreadSeen st)(threadID := True),
        sy_unreadSent := (sy_unreadSent st)(threadID := False)\<rparr>"

definition receiptPollInterval :: int where "receiptPollInterval = 30000000000"

definition shouldPollReceipts ::
  "string \<Rightarrow> instant \<Rightarrow> (string \<Rightarrow> instant option) \<Rightarrow> bool \<times> (string \<Rightarrow> instant option)" where
  "shouldPollReceipts threadID now m =
     (case m threadID of
        Some polled \<Rightarrow> if now - polled < receiptPollInterval then (False, m) else (True, m(threadID \<mapsto> now))
      | None \<Rightarrow> (True, m(threadID \<mapsto> now)))"

section \<open>Credentials and the consumer client\<close>

text \<open>\<open>ensureValidSkypeToken\<close> in the sync loop; a failure also tells the user to log in again.\<close>

definition sync_token :: "outside \<Rightarrow> Sync \<Rightarrow> go_error option \<times> Sync" where
  "sync_token E st =
     (case ensureValidSkypeToken (o_lib E) (o_http E) (o_clk E) (o_save_fault E) (o_config E)
             (sy_session st) of
        (None, s) \<Rightarrow> (None, st\<lparr>sy_session := s\<rparr>)
      | (Some err, s) \<Rightarrow>
          (Some err, st\<lparr>sy_session := s\<lparr>se_States := se_States s @ [StateBadCredentials err]\<rparr>\<rparr>))"

definition newConsumer :: "Session \<Rightarrow> Client" where
  "newConsumer s =
     (NewClient True)\<lparr>cl_Token := (case se_Meta s of Some m \<Rightarrow> um_SkypeToken m | None \<Rightarrow> [])\<rparr>"

definition self_id :: "Sync \<Rightarrow> string" where
  "self_id st =
     (case se_Meta (sy_session st) of Some m \<Rightarrow> NormalizeTeamsUserID (um_TeamsUserID m) | None \<Rightarrow> [])"

section \<open>Thread discovery\<close>

definition discover_thread :: "outside \<Rightarrow> string \<Rightarrow> Sync \<Rightarrow> RemoteConversation \<Rightarrow> Sync" where
  "discover_thread E teamsUserID st conv =
     (case NormalizeForSelf (o_lib E) conv teamsUserID of
        None \<Rightarrow> st
      | Some thread \<Rightarrow>
        if trim_space (th_ID thread) = [] \<or> trim_space (th_ConversationID thread) = [] then st
        else
          (let (_, _, threads) =
                 ThreadState_Upsert (Some (o_bridge E)) (o_fault E ''thread.upsert'')
                   (Some \<lparr>ts_BridgeID = o_bridge E, ts_UserLoginID = o_login E, ts_ThreadID = th_ID thread,
                          ts_Conversation = th_ConversationID thread, ts_IsOneToOne = th_IsOneToOne thread,
                          ts_Name = th_RoomName thread, ts_LastSequenceID = [], ts_LastMessageTS = 0\<rparr>)
                   (sy_threads st)
           in queue_event (ChatResync (portalKey (o_login E) (th_ID thread)) (th_RoomName thread)
                (th_IsOneToOne thread)) (st\<lparr>sy_threads := threads\<rparr>)))"

definition refreshThreads :: "outside \<Rightarrow> Sync \<Rightarrow> go_error option \<times> Sync" where
  "refreshThreads E st =
     (case sync_token E st of
        (Some err, st) \<Rightarrow> (Some err, st)
      | (None, st) \<Rightarrow>
        (let consumer = newConsumer (sy_session st);
             meta = se_Meta (sy_session st)
         in case ListConversations (o_lib E) (o_http E) (Some consumer) (cl_Token consumer) of
              Inl err \<Rightarrow> (Some err, st)
            | Inr convs \<Rightarrow>
                (None, foldl (discover_thread E
                   (case meta of Some m \<Rightarrow> um_TeamsUserID m | None \<Rightarrow> [])) st convs)))"

section \<open>Read horizons\<close>

fun remote_horizon ::
  "golib \<Rightarrow> string \<Rightarrow> string \<Rightarrow> (string \<times> ConsumptionHorizon) option \<Rightarrow> ConsumptionHorizon list
     \<Rightarrow> (string \<times> ConsumptionHorizon) option"
where
  "remote_horizon L selfID threadID found [] = found"
| "remote_horizon L selfID threadID found (entry # entries) =
     (let entryID = NormalizeTeamsUserID (ch_ID entry)
      in if entryID = [] \<or> entryID = selfID \<or> eq_fold L entryID threadID \<or> isLikelyThreadID L entryID
         then remote_horizon L selfID threadID found entries
         else if found \<noteq> None then None
         else remote_horizon L selfID threadID (Some (entryID, entry)) entries)"

definition pollConsumptionHorizons ::
  "outside \<Rightarrow> ThreadState \<Rightarrow> instant \<Rightarrow> Sync \<Rightarrow> go_error option \<times> Sync" where
  "pollConsumptionHorizons E th now st =
     (let threadID = trim_space (ts_ThreadID th)
      in if threadID = [] then (None, st)
         else
           (let (due, polls) = shouldPollReceipts threadID now (sy_receiptPoll st);
                st = st\<lparr>sy_receiptPoll := polls\<rparr>
            in if \<not> due then (None, st)
               else
                 (case GetConsumptionHorizons (o_lib E) (o_http E) (o_until E)
                         (Some (newConsumer (sy_session st))) threadID of
                    Inl err \<Rightarrow> (Some err, st)
                  | Inr resp \<Rightarrow>
                    (let selfID = self_id st
                     in if selfID = [] then (None, st)
                        else case remote_horizon (o_lib E) selfID threadID None (hr_Horizons resp) of
                          None \<Rightarrow> (None, st)
                        | Some (remoteID, horizon) \<Rightarrow>
                          (case ParseConsumptionHorizonLatestReadTS (ch_ConsumptionHorizon horizon) of
                             None \<Rightarrow> (None, st)
                           | Some latestReadTS \<Rightarrow>
                             if latestReadTS \<le> 0 then (None, st)
                             else case ConsumptionHorizon_Get (Some (o_bridge E)) (o_fault E ''horizon.get'')
                                         (o_login E) threadID remoteID (sy_horizons st) of
                               Inl err \<Rightarrow> (Some err, st)
                             | Inr state \<Rightarrow>
                               if (case state of Some old \<Rightarrow> latestReadTS \<le> hs_LastReadTS old | None \<Rightarrow> False)
                               then (None, st)
                               else
                                 (let readUpTo = latestReadTS * 1000000;
                                      key = portalKey (o_login E) threadID
                                  in case o_last_sent E key (teamsUserIDToNetworkUserID selfID) readUpTo of
                                       Inl err \<Rightarrow> (Some err, st)
                                     | Inr targetID \<Rightarrow>
                                       (let st = queue_event (Read_Receipt \<lparr>re_PortalKey = key,
                                                   re_Sender = teamsUserIDToNetworkUserID remoteID,
                                                   re_ReadUpTo = readUpTo,
                                                   re_Target = (if targetID \<noteq> [] then Some targetID else None)\<rparr>) st;
                                            (err, horizons) =
                                              ConsumptionHorizon_UpsertLastRead (Some (o_bridge E))
                                                (o_fault E ''horizon.upsert'') (o_login E) threadID remoteID
                                                latestReadTS (sy_horizons st)
                                        in (err, st\<lparr>sy_horizons := horizons\<rparr>))))))))"

section \<open>One poll of a thread\<close>

record poll_acc =
  pa_maxSeq :: string
  pa_maxTS :: int
  pa_ingested :: int
  pa_state :: Sync

definition sync_reactions_of ::
  "outside \<Rightarrow> ThreadState \<Rightarrow> RemoteMessage \<Rightarrow> string \<Rightarrow> Sync \<Rightarrow> Sync" where
  "sync_reactions_of E th msg messageID st =
     (case queueReactionSyncForMessage (o_lib E) (o_emoji E) (o_stored E) (o_existing E) (o_login E)
             (case se_Meta (sy_session st) of Some m \<Rightarrow> um_TeamsUserID m | None \<Rightarrow> [])
             (ts_ThreadID th) msg messageID (sy_reactionSeen st) of
        (None, seen) \<Rightarrow> st\<lparr>sy_reactionSeen := seen\<rparr>
      | (Some s, seen) \<Rightarrow> queue_event (Reaction_Sync s) (st\<lparr>sy_reactionSeen := seen\<rparr>))"

text \<open>The two tests of the loop: already behind the cursor, and sent by a user.\<close>

definition behind_cursor :: "string \<Rightarrow> RemoteMessage \<Rightarrow> bool" where
  "behind_cursor lastSeq msg \<longleftrightarrow>
     lastSeq \<noteq> [] \<and> CompareSequenceID (trim_space (rm_SequenceID msg)) lastSeq \<le> 0"

definition user_sender :: "golib \<Rightarrow> ThreadState \<Rightarrow> RemoteMessage \<Rightarrow> bool" where
  "user_sender L th msg \<longleftrightarrow>
     (let senderID = NormalizeTeamsUserID (rm_SenderID msg)
      in \<not> (senderID = [] \<or> eq_fold L senderID (trim_space (ts_ThreadID th)) \<or> isLikelyThreadID L senderID))"

definition display_name :: "RemoteMessage \<Rightarrow> string" where
  "display_name msg =
     (if trim_space (rm_IMDisplayName msg) \<noteq> [] then trim_space (rm_IMDisplayName msg)
      else if trim_space (rm_TokenDisplayName msg) \<noteq> [] then trim_space (rm_TokenDisplayName msg)
      else NormalizeTeamsUserID (rm_SenderID msg))"

definition message_event ::
  "string \<Rightarrow> ThreadState \<Rightarrow> string \<Rightarrow> RemoteMessage \<Rightarrow> MessageEvent" where
  "message_event login th selfID msg =
     (let senderID = NormalizeTeamsUserID (rm_SenderID msg);
          fromMe = senderID \<noteq> [] \<and> selfID \<noteq> [] \<and> senderID = selfID;
          effective = effectiveRemoteMessageID msg
      in \<lparr>me_PortalKey = portalKey login (ts_ThreadID th),
          me_Sender = \<lparr>es_Sender = teamsUserIDToNetworkUserID senderID, es_IsFromMe = fromMe,
                       es_SenderLogin = (if fromMe then login else [])\<rparr>,
          me_Timestamp = rm_Timestamp msg, me_StreamOrder = unix_milli (rm_Timestamp msg),
          me_Data = msg\<lparr>rm_SenderName := display_name msg\<rparr>,
          me_ID = (if effective = [] then trim_space (rm_MessageID msg) else effective),
          me_TransactionID = trim_space (rm_ClientMessageID msg)\<rparr>)"

definition ingest_message ::
  "outside \<Rightarrow> ThreadState \<Rightarrow> instant \<Rightarrow> string \<Rightarrow> RemoteMessage \<Rightarrow> Sync \<Rightarrow> Sync" where
  "ingest_message E th now selfID msg st =
     (let senderID = NormalizeTeamsUserID (rm_SenderID msg);
          (_, profiles) = Profile_Upsert (Some (o_bridge E)) (o_fault E ''profile'') senderID
                            (display_name msg) now (sy_profiles st);
          st = st\<lparr>sy_profiles := profiles\<rparr>;
          evt = message_event (o_login E) th selfID msg;
          effective = effectiveRemoteMessageID msg;
          st = (if effective \<noteq> [] \<and> rm_Reactions msg \<noteq> []
                then st\<lparr>sy_reactionSeen := snd (markReactionSeen effective True (sy_reactionSeen st))\<rparr>
                else st);
          fromMe = es_IsFromMe (me_Sender evt);
          (isSelfEcho, st) =
            (if fromMe then
               (let (found, selfMessages) =
                      consumeSelfMessage (o_now E) (me_TransactionID evt) (sy_selfMessages st)
                in (found, st\<lparr>sy_selfMessages := selfMessages\<rparr>))
             else (False, st));
          st = queue_event (Message_Event evt) st;
          st = sync_reactions_of E th (me_Data evt) (me_ID evt) st
      in if isSelfEcho then st
         else if \<not> fromMe \<and> trim_space (ts_ThreadID th) \<noteq> [] then markUnread (ts_ThreadID th) st
         else st)"

definition poll_message ::
  "outside \<Rightarrow> ThreadState \<Rightarrow> instant \<Rightarrow> string \<Rightarrow> string \<Rightarrow> poll_acc \<Rightarrow> RemoteMessage \<Rightarrow> poll_acc" where
  "poll_message E th now lastSeq selfID acc msg =
     (if trim_space (rm_MessageID msg) = [] then acc
      else if behind_cursor lastSeq msg
        then acc\<lparr>pa_state := sync_reactions_of E th msg (effectiveRemoteMessageID msg) (pa_state acc)\<rparr>
      else
        (let seq = trim_space (rm_SequenceID msg);
             acc = (if pa_maxSeq acc = [] \<or> 0 < CompareSequenceID seq (pa_maxSeq acc)
                    then acc\<lparr>pa_maxSeq := seq\<rparr> else acc);
             ts = unix_milli (rm_Timestamp msg);
             acc = (if pa_maxTS acc < ts then acc\<lparr>pa_maxTS := ts\<rparr> else acc)
         in if \<not> user_sender (o_lib E) th msg then acc
            else acc\<lparr>pa_ingested := pa_ingested acc + 2,
                     pa_state := ingest_message E th now selfID msg (pa_state acc)\<rparr>))"

definition poll_messages ::
  "outside \<Rightarrow> ThreadState \<Rightarrow> instant \<Rightarrow> Sync \<Rightarrow> RemoteMessage list \<Rightarrow> poll_acc" where
  "poll_messages E th now st msgs =
     foldl (poll_message E th now (trim_space (ts_LastSequenceID th)) (self_id st))
       \<lparr>pa_maxSeq = [], pa_maxTS = 0, pa_ingested = 0, pa_state = st\<rparr> msgs"

text \<open>The result: events ingested, error, the thread (whose cursor is updated in place), the state.\<close>

definition pollThread ::
  "outside \<Rightarrow> ThreadState \<Rightarrow> instant \<Rightarrow> Sync \<Rightarrow> int \<times> go_error option \<times> ThreadState \<times> Sync" where
  "pollThread E th now st =
     (case sync_token E st of
        (Some err, st) \<Rightarrow> (0, Some err, th, st)
      | (None, st) \<Rightarrow>
        (case ListMessages (o_lib E) (o_sort E) (o_http E) (o_until E)
                (Some (newConsumer (sy_session st))) (ts_Conversation th) (ts_LastSequenceID th) of
           Inl err \<Rightarrow> (0, Some err, th, st)
         | Inr msgs \<Rightarrow>
           (let acc = poll_messages E th now st msgs;
                st = pa_state acc;
                (th, st) =
                  (if pa_maxSeq acc \<noteq> [] then
                     (let (_, threads) =
                            ThreadState_UpdateCursor (Some (o_bridge E)) (o_fault E ''thread.cursor'') (o_login E)
                              (ts_ThreadID th) (pa_maxSeq acc) (pa_maxTS acc) (sy_threads st)
                      in (th\<lparr>ts_LastSequenceID := pa_maxSeq acc, ts_LastMessageTS := pa_maxTS acc\<rparr>,
                          st\<lparr>sy_threads := threads\<rparr>))
                   else (th, st));
                (_, st) = pollConsumptionHorizons E th now st
            in (pa_ingested acc, None, th, st))))"

section \<open>Lemmas on one poll\<close>

fun deliveries :: "remote_event list \<Rightarrow> MessageEvent list" where
  "deliveries [] = []"
| "deliveries (Message_Event e # es) = e # deliveries es"
| "deliveries (_ # es) = deliveries es"

lemma deliveries_append [simp]: "deliveries (xs @ ys) = deliveries xs @ deliveries ys"
  by (induction xs rule: deliveries.induct) auto

definition deliverable :: "golib \<Rightarrow> ThreadState \<Rightarrow> RemoteMessage \<Rightarrow> bool" where
  "deliverable L th msg \<longleftrightarrow> trim_space (rm_MessageID msg) \<noteq> []
     \<and> \<not> behind_cursor (trim_space (ts_LastSequenceID th)) msg \<and> user_sender L th msg"

text \<open>What a reaction sync leaves alone.\<close>

lemma sync_reactions_of_frame [simp]:
  "deliveries (sy_events (sync_reactions_of E th msg i st)) = deliveries (sy_events st)"
  "sy_session (sync_reactions_of E th msg i st) = sy_session st"
  "sy_threads (sync_reactions_of E th msg i st) = sy_threads st"
  "sy_horizons (sync_reactions_of E th msg i st) = sy_horizons st"
  "sy_unreadSeen (sync_reactions_of E th msg i st) = sy_unreadSeen st"
  "sy_unreadSent (sync_reactions_of E th msg i st) = sy_unreadSent st"
  by (simp_all add: sync_reactions_of_def queue_event_def split: prod.split option.split)

lemma ingest_message_frame [simp]:
  "deliveries (sy_events (ingest_message E th now selfID msg st))
     = deliveries (sy_events st) @ [message_event (o_login E) th selfID msg]"
  "sy_session (ingest_message E th now selfID msg st) = sy_session st"
  "sy_threads (ingest_message E th now selfID msg st) = sy_threads st"
  "sy_horizons (ingest_message E th now selfID msg st) = sy_horizons st"
  by (simp_all add: ingest_message_def queue_event_def markUnread_def Let_def case_prod_beta)

lemma ingest_message_unread:
  "sy_unreadSeen (ingest_message E th now selfID msg st) t \<longleftrightarrow> sy_unreadSeen st t
     \<or> t = ts_ThreadID th \<and> trim_space t \<noteq> [] \<and> \<not> es_IsFromMe (me_Sender (message_event (o_login E) th selfID msg))"
  by (cases "es_IsFromMe (me_Sender (message_event (o_login E) th selfID msg))")
    (auto simp: ingest_message_def queue_event_def markUnread_def Let_def case_prod_beta)

lemma poll_message_frame [simp]:
  "sy_session (pa_state (poll_message E th now q selfID acc msg)) = sy_session (pa_state acc)"
  "sy_threads (pa_state (poll_message E th now q selfID acc msg)) = sy_threads (pa_state acc)"
  "sy_horizons (pa_state (poll_message E th now q selfID acc msg)) = sy_horizons (pa_state acc)"
  by (simp_all add: poll_message_def Let_def)

lemma poll_message_delivers:
  "deliveries (sy_events (pa_state (poll_message E th now (trim_space (ts_LastSequenceID th)) selfID acc msg)))
     = deliveries (sy_events (pa_state acc))
       @ (if deliverable (o_lib E) th msg then [message_event (o_login E) th selfID msg] else [])"
  "pa_ingested (poll_message E th now (trim_space (ts_LastSequenceID th)) selfID acc msg)
     = pa_ingested acc + (if deliverable (o_lib E) th msg then 2 else 0)"
  by (simp_all add: poll_message_def deliverable_def Let_def)

lemma poll_message_unread:
  "sy_unreadSeen (pa_state (poll_message E th now (trim_space (ts_LastSequenceID th)) selfID acc msg)) t
     \<longleftrightarrow> sy_unreadSeen (pa_state acc) t
       \<or> t = ts_ThreadID th \<and> trim_space t \<noteq> [] \<and> deliverable (o_lib E) th msg
          \<and> \<not> es_IsFromMe (me_Sender (message_event (o_login E) th selfID msg))"
  by (auto simp: poll_message_def deliverable_def ingest_message_unread Let_def)

abbreviation polled ::
  "outside \<Rightarrow> ThreadState \<Rightarrow> instant \<Rightarrow> string \<Rightarrow> poll_acc \<Rightarrow> RemoteMessage list \<Rightarrow> poll_acc" where
  "polled E th now selfID \<equiv> foldl (poll_message E th now (trim_space (ts_LastSequenceID th)) selfID)"

lemma polled_delivers:
  "deliveries (sy_events (pa_state (polled E th now selfID acc msgs)))
     = deliveries (sy_events (pa_state acc))
       @ map (message_event (o_login E) th selfID) (filter (deliverable (o_lib E) th) msgs)
   \<and> pa_ingested (polled E th now selfID acc msgs)
     = pa_ingested acc + 2 * int (length (filter (deliverable (o_lib E) th) msgs))"
  by (induction msgs arbitrary: acc) (simp_all add: poll_message_delivers)

lemma polled_unread:
  "sy_unreadSeen (pa_state (polled E th now selfID acc msgs)) t
     \<longleftrightarrow> sy_unreadSeen (pa_state acc) t
       \<or> t = ts_ThreadID th \<and> trim_space t \<noteq> [] \<and> (\<exists>msg \<in> set msgs. deliverable (o_lib E) th msg
          \<and> \<not> es_IsFromMe (me_Sender (message_event (o_login E) th selfID msg)))"
  by (induction msgs arbitrary: acc) (auto simp: poll_message_unread)

lemma polled_frame [simp]:
  "sy_session (pa_state (polled E th now selfID acc msgs)) = sy_session (pa_state acc)"
  "sy_threads (pa_state (polled E th now selfID acc msgs)) = sy_threads (pa_state acc)"
  "sy_horizons (pa_state (polled E th now selfID acc msgs)) = sy_horizons (pa_state acc)"
  by (induction msgs arbitrary: acc) simp_all

text \<open>The cursor candidate: a sequence ID that was not behind, and no smaller than the others.\<close>

abbreviation seq_of :: "RemoteMessage \<Rightarrow> string" where
  "seq_of msg \<equiv> trim_space (rm_SequenceID msg)"

definition fresh :: "string \<Rightarrow> RemoteMessage \<Rightarrow> bool" where
  "fresh lastSeq msg \<longleftrightarrow> trim_space (rm_MessageID msg) \<noteq> [] \<and> \<not> behind_cursor lastSeq msg"

lemma poll_message_maxSeq:
  "pa_maxSeq (poll_message E th now q selfID acc msg) =
     (if fresh q msg \<and> (pa_maxSeq acc = [] \<or> 0 < CompareSequenceID (seq_of msg) (pa_maxSeq acc))
      then seq_of msg else pa_maxSeq acc)"
  by (simp add: poll_message_def fresh_def Let_def)

lemma maxSeq_source:
  "pa_maxSeq (foldl (poll_message E th now q selfID) acc msgs) = pa_maxSeq acc
   \<or> (\<exists>msg \<in> set msgs. fresh q msg
        \<and> pa_maxSeq (foldl (poll_message E th now q selfID) acc msgs) = seq_of msg)"
  by (induction msgs arbitrary: acc) (force simp: poll_message_maxSeq)+

lemma numericID_nonempty: "numericID s \<Longrightarrow> s \<noteq> []"
  by (auto simp: numericID_def parse_uint_def)

lemma maxSeq_greatest:
  assumes "list_all (\<lambda>m. fresh q m \<longrightarrow> numericID (seq_of m)) msgs"
    and "pa_maxSeq acc = [] \<or> numericID (pa_maxSeq acc)"
  shows "(\<forall>m \<in> set msgs. fresh q m \<longrightarrow>
        CompareSequenceID (seq_of m) (pa_maxSeq (foldl (poll_message E th now q selfID) acc msgs)) \<le> 0
        \<and> numericID (pa_maxSeq (foldl (poll_message E th now q selfID) acc msgs)))
    \<and> (pa_maxSeq acc \<noteq> [] \<longrightarrow> numericID (pa_maxSeq (foldl (poll_message E th now q selfID) acc msgs))
        \<and> CompareSequenceID (pa_maxSeq acc) (pa_maxSeq (foldl (poll_message E th now q selfID) acc msgs)) \<le> 0)"
  using assms
proof (induction msgs arbitrary: acc)
  case Nil
  then show ?case by (auto simp: CompareSequenceID_refl)
next
  case (Cons m msgs)
  let ?acc = "poll_message E th now q selfID acc m"
  let ?max = "pa_maxSeq (foldl (poll_message E th now q selfID) ?acc msgs)"
  have num: "fresh q m \<Longrightarrow> numericID (seq_of m)" using Cons.prems(1) by simp
  have acc': "pa_maxSeq ?acc = [] \<or> numericID (pa_maxSeq ?acc)"
    using Cons.prems num by (auto simp: poll_message_maxSeq)
  from Cons.prems(1) have "list_all (\<lambda>m. fresh q m \<longrightarrow> numericID (seq_of m)) msgs" by simp
  note IH = Cons.IH [OF this acc']
  have here: "CompareSequenceID (seq_of m) (pa_maxSeq ?acc) \<le> 0 \<and> pa_maxSeq ?acc \<noteq> []" if "fresh q m"
    using that numericID_nonempty [OF num [OF that]]
    by (auto simp: poll_message_maxSeq CompareSequenceID_refl)
  have step: "CompareSequenceID (pa_maxSeq acc) (pa_maxSeq ?acc) \<le> 0 \<and> pa_maxSeq ?acc \<noteq> []"
    if "pa_maxSeq acc \<noteq> []"
    using that numericID_nonempty [OF num] CompareSequenceID_antisym [of "seq_of m" "pa_maxSeq acc"]
    by (auto simp: poll_message_maxSeq CompareSequenceID_refl)
  have "CompareSequenceID (seq_of m) ?max \<le> 0 \<and> numericID ?max" if "fresh q m"
    using IH here [OF that] num [OF that] acc' numeric_trans [of "seq_of m" "pa_maxSeq ?acc" ?max] by blast
  moreover have "numericID ?max \<and> CompareSequenceID (pa_maxSeq acc) ?max \<le> 0" if "pa_maxSeq acc \<noteq> []"
    using IH step [OF that] that Cons.prems(2) acc' numeric_trans [of "pa_maxSeq acc" "pa_maxSeq ?acc" ?max]
    by blast
  ultimately show ?case using IH by simp
qed

lemma sync_token_frame:
  assumes "sync_token E st = (err, st1)"
  shows "sy_events st1 = sy_events st" "sy_threads st1 = sy_threads st"
    "sy_horizons st1 = sy_horizons st" "sy_unreadSeen st1 = sy_unreadSeen st"
  using assms by (auto simp: sync_token_def split: prod.splits option.splits)

lemma pollConsumptionHorizons_frame:
  assumes "pollConsumptionHorizons E th now st = (err, st')"
  shows "deliveries (sy_events st') = deliveries (sy_events st)" "sy_threads st' = sy_threads st"
    "sy_session st' = sy_session st" "sy_unreadSeen st' = sy_unreadSeen st"
  using assms
  by (auto simp: pollConsumptionHorizons_def queue_event_def Let_def
      split: prod.splits if_splits sum.splits option.splits)

lemma self_id_session: "sy_session st = sy_session st' \<Longrightarrow> self_id st = self_id st'"
  by (simp add: self_id_def)

text \<open>The messages a poll gets to see, or the error with which it ends.\<close>

definition fetched :: "outside \<Rightarrow> ThreadState \<Rightarrow> Sync \<Rightarrow> go_error + RemoteMessage list" where
  "fetched E th st =
     (case sync_token E st of
        (Some err, _) \<Rightarrow> Inl err
      | (None, st) \<Rightarrow> ListMessages (o_lib E) (o_sort E) (o_http E) (o_until E)
          (Some (newConsumer (sy_session st))) (ts_Conversation th) (ts_LastSequenceID th))"

definition moved :: "ThreadState \<Rightarrow> poll_acc \<Rightarrow> ThreadState" where
  "moved th acc =
     (if pa_maxSeq acc \<noteq> []
      then th\<lparr>ts_LastSequenceID := pa_maxSeq acc, ts_LastMessageTS := pa_maxTS acc\<rparr> else th)"

lemma pollThread_result:
  assumes "fetched E th st = Inr msgs" and "pollThread E th now st = (n, err, th', st')"
  obtains st1 st2 acc herr where "sync_token E st = (None, st1)" and "acc = poll_messages E th now st1 msgs"
    and "n = pa_ingested acc" and "err = None" and "th' = moved th acc"
    and "sy_threads st2 = (if pa_maxSeq acc \<noteq> []
      then snd (ThreadState_UpdateCursor (Some (o_bridge E)) (o_fault E ''thread.cursor'') (o_login E)
             (ts_ThreadID th) (pa_maxSeq acc) (pa_maxTS acc) (sy_threads st1)) else sy_threads st1)"
    and "sy_events st2 = sy_events (pa_state acc)" and "sy_session st2 = sy_session st1"
    and "sy_unreadSeen st2 = sy_unreadSeen (pa_state acc)"
    and "pollConsumptionHorizons E th' now st2 = (herr, st')"
proof -
  from assms(1) obtain st1 where t: "sync_token E st = (None, st1)"
    and l: "ListMessages (o_lib E) (o_sort E) (o_http E) (o_until E)
          (Some (newConsumer (sy_session st1))) (ts_Conversation th) (ts_LastSequenceID th) = Inr msgs"
    by (auto simp: fetched_def split: prod.splits option.splits)
  define acc where "acc = poll_messages E th now st1 msgs"
  define st2 where "st2 = (if pa_maxSeq acc \<noteq> []
      then (pa_state acc)\<lparr>sy_threads := snd (ThreadState_UpdateCursor (Some (o_bridge E))
             (o_fault E ''thread.cursor'') (o_login E) (ts_ThreadID th) (pa_maxSeq acc) (pa_maxTS acc)
             (sy_threads (pa_state acc)))\<rparr> else pa_state acc)"
  have f: "sy_threads (pa_state acc) = sy_threads st1" "sy_session (pa_state acc) = sy_session st1"
    by (simp_all add: acc_def poll_messages_def)
  have p: "pollThread E th now st = (pa_ingested acc, None, moved th acc,
      snd (pollConsumptionHorizons E (moved th acc) now st2))"
    by (simp add: pollThread_def t l moved_def st2_def Let_def flip: acc_def split: prod.split)
  from p assms(2) have r: "n = pa_ingested acc" "err = None" "th' = moved th acc"
    and "st' = snd (pollConsumptionHorizons E (moved th acc) now st2)" by simp_all
  then have h: "pollConsumptionHorizons E th' now st2 = (fst (pollConsumptionHorizons E th' now st2), st')"
    by simp
  show ?thesis
    by (rule that [OF t acc_def r _ _ _ _ h]) (simp_all add: st2_def f)
qed

text \<open>An outside for the examples: a fresh Skype token, and a thread with messages b (twice) and a.\<close>

definition poll_lib :: golib where
  "poll_lib = plain_lib\<lparr>lib_url := \<lambda>_. Some \<lparr>url_scheme = ''https'', url_host = ''h'', url_path = [],
       url_string = []\<rparr>,
     lib_json := \<lambda>s.
       if s = ''page'' then Some (JObject [(''messages'', [], JArray
         (map (\<lambda>(i, q). ([], JObject [(''id'', [], JString i), (''sequenceId'', q, JNumber q),
                (''from'', ''F'', JString ''8:ann'')]))
            [(''b'', ''10''), (''a'', ''9''), (''b'', ''10'')]))])
       else if s = ''F'' then Some (JString ''8:ann'')
       else Some (JNumber s)\<rparr>"

definition poll_outside :: "RemoteMessage sorter \<Rightarrow> outside" where
  "poll_outside srt = \<lparr>o_lib = poll_lib, o_sort = srt, o_http = page_server, o_until = \<lambda>_. None,
     o_clk = \<lambda>_. 0, o_save_fault = None, o_config = [], o_bridge = ''b'', o_login = ''8:me'',
     o_fault = \<lambda>_. None, o_stored = None, o_existing = \<lambda>_. None, o_last_sent = \<lambda>_ _ _. Inr [],
     o_emoji = sample_order, o_now = 0\<rparr>"

definition poll_session :: Session where
  "poll_session = \<lparr>se_Meta = Some (no_metadata\<lparr>um_SkypeToken := ''T'', um_SkypeTokenExpiresAt := 1000,
       um_TeamsUserID := ''8:me''\<rparr>), se_RemoteName = [], se_Stored = None, se_LoggedIn = True,
     se_Syncing = True, se_States = []\<rparr>"

definition poll_sync :: Sync where
  "poll_sync = \<lparr>sy_session = poll_session,
     sy_threads = [((''b'', ''8:me'', ''t''), \<lparr>tr_conversation_id = ''c'', tr_is_one_to_one = False,
        tr_name = ''N'', tr_last_sequence_id = [], tr_last_message_ts = 0\<rparr>)],
     sy_profiles = [], sy_horizons = [], sy_reactionSeen = {}, sy_receiptPoll = \<lambda>_. None,
     sy_unreadSeen = \<lambda>_. False, sy_unreadSent = \<lambda>_. False, sy_selfMessages = \<lambda>_. None, sy_events = []\<rparr>"

definition poll_thread :: ThreadState where
  "poll_thread = \<lparr>ts_BridgeID = ''b'', ts_UserLoginID = ''8:me'', ts_ThreadID = ''t'',
     ts_Conversation = ''c'', ts_IsOneToOne = False, ts_Name = ''N'', ts_LastSequenceID = [],
     ts_LastMessageTS = 0\<rparr>"

definition posted :: "string \<Rightarrow> string \<Rightarrow> RemoteMessage" where
  "posted i q = read_message poll_lib q
     (no_message\<lparr>raw_ID := i, raw_SequenceID := q, raw_From := ''F''\<rparr>)"

lemma poll_session_fresh:
  "ensureValidSkypeToken poll_lib page_server (\<lambda>_. 0) None [] poll_session = (None, poll_session)"
  by code_simp

lemma poll_page:
  "ListMessages poll_lib srt page_server (\<lambda>_. None) (Some (newConsumer poll_session)) ''c'' since
     = Inr (srt sequence_less [posted ''b'' ''10'', posted ''a'' ''9''])"
  by code_simp

lemma poll_sorted:
  "insertion_sort sequence_less [posted ''b'' ''10'', posted ''a'' ''9''] = [posted ''a'' ''9'', posted ''b'' ''10'']"
  by (simp add: insertion_sort_def sequence_less_def posted_def read_message_def Let_def
      CompareSequenceID_def parse_uint_def is_digit_def)

abbreviation "sample_outside \<equiv> poll_outside insertion_sort"

lemma sample_token:
  "sy_session st = poll_session \<Longrightarrow> sync_token sample_outside st = (None, st)"
  by (simp add: sync_token_def poll_outside_def poll_session_fresh)

lemma sample_fetched:
  assumes "sy_session st = poll_session" and "ts_Conversation th = ''c''"
  shows "fetched sample_outside th st = Inr [posted ''a'' ''9'', posted ''b'' ''10'']"
  using assms sample_token [OF assms(1)]
  by (simp add: fetched_def) (simp add: poll_outside_def poll_page poll_sorted)

lemma sample_deliverable:
  "deliverable poll_lib poll_thread (posted ''a'' ''9'')" "deliverable poll_lib poll_thread (posted ''b'' ''10'')"
  by code_simp+

lemma poll_sync_session: "sy_session poll_sync = poll_session"
  by (simp add: poll_sync_def)

lemma poll_sync_unread: "\<not> sy_unreadSeen poll_sync t"
  by (simp add: poll_sync_def)

lemmas sample_poll = sample_fetched [OF poll_sync_session, of poll_thread]

lemma poll_thread_simps [simp]:
  "ts_Conversation poll_thread = ''c''" "ts_ThreadID poll_thread = ''t''"
  "ts_LastSequenceID poll_thread = []"
  by (simp_all add: poll_thread_def)

lemma outside_simps [simp]:
  "o_lib (poll_outside srt) = poll_lib" "o_login (poll_outside srt) = ''8:me''"
  "o_bridge (poll_outside srt) = ''b''" "o_fault (poll_outside srt) q = None"
  by (simp_all add: poll_outside_def)

lemma sample_numeric:
  "list_all (\<lambda>m. numericID (seq_of m)) [posted ''a'' ''9'', posted ''b'' ''10'']"
proof -
  have "seq_of (posted ''a'' ''9'') = ''9''" "seq_of (posted ''b'' ''10'') = ''10''" by code_simp+
  then show ?thesis by (simp add: numericID_def parse_uint_def is_digit_def)
qed

section \<open>Properties of a poll\<close>

text \<open>
  C2: a poll delivers exactly the new messages of users. After a poll that got the list \<open>msgs\<close>, the
  message events queued are those from before followed, in the order of the list, by one event for
  each message that has an ID, is not behind the thread's cursor and was sent by a user, and by
  nothing else; the count returned is twice their number (the counter is advanced twice).
\<close>

theorem pollThread_delivers:
  assumes "fetched E th st = Inr msgs" and "pollThread E th now st = (n, err, th', st')"
  shows "err = None
    \<and> deliveries (sy_events st') = deliveries (sy_events st)
        @ map (message_event (o_login E) th (self_id st')) (filter (deliverable (o_lib E) th) msgs)
    \<and> n = 2 * int (length (filter (deliverable (o_lib E) th) msgs))"
proof -
  from assms obtain st1 st2 acc herr where t: "sync_token E st = (None, st1)"
    and acc: "acc = poll_messages E th now st1 msgs" and n: "n = pa_ingested acc" "err = None"
    and s2: "sy_events st2 = sy_events (pa_state acc)" "sy_session st2 = sy_session st1"
    and h: "pollConsumptionHorizons E th' now st2 = (herr, st')"
    by (rule pollThread_result)
  have "self_id st' = self_id st1"
    using s2 pollConsumptionHorizons_frame(3) [OF h] by (intro self_id_session) simp
  then show ?thesis
    using n s2 sync_token_frame(1) [OF t] pollConsumptionHorizons_frame(1) [OF h]
      polled_delivers [of E th now "self_id st1"]
    by (simp add: acc poll_messages_def)
qed

theorem pollThread_delivers_witness:
  "fst (pollThread sample_outside poll_thread 0 poll_sync) = 4"
proof -
  obtain n err th' st' where p: "pollThread sample_outside poll_thread 0 poll_sync = (n, err, th', st')"
    by (metis prod_cases4)
  from pollThread_delivers [OF sample_poll p] show ?thesis by (simp add: p sample_deliverable)
qed

text \<open>
  Only other people's messages mark a thread unread: after a poll a thread is marked if and only
  if it was before, or it is the polled thread and a message that was not sent by oneself was
  delivered.
\<close>

theorem pollThread_unread:
  assumes "fetched E th st = Inr msgs" and "pollThread E th now st = (n, err, th', st')"
  shows "sy_unreadSeen st' t \<longleftrightarrow> sy_unreadSeen st t
    \<or> t = ts_ThreadID th \<and> trim_space t \<noteq> [] \<and> (\<exists>msg \<in> set msgs. deliverable (o_lib E) th msg
         \<and> \<not> (self_id st' \<noteq> [] \<and> NormalizeTeamsUserID (rm_SenderID msg) = self_id st'))"
proof -
  from assms obtain st1 st2 acc herr where t: "sync_token E st = (None, st1)"
    and acc: "acc = poll_messages E th now st1 msgs"
    and s2: "sy_unreadSeen st2 = sy_unreadSeen (pa_state acc)" "sy_session st2 = sy_session st1"
    and h: "pollConsumptionHorizons E th' now st2 = (herr, st')"
    by (rule pollThread_result)
  have "self_id st' = self_id st1"
    using s2 pollConsumptionHorizons_frame(3) [OF h] by (intro self_id_session) simp
  then show ?thesis
    using s2 sync_token_frame(4) [OF t] pollConsumptionHorizons_frame(4) [OF h]
      polled_unread [of E th now "self_id st1" _ msgs t]
    by (auto simp: acc poll_messages_def message_event_def Let_def)
qed

theorem pollThread_unread_witness:
  "\<not> sy_unreadSeen (snd (snd (snd (pollThread sample_outside poll_thread 0 poll_sync)))) ''other''"
proof -
  obtain n err th' st' where p: "pollThread sample_outside poll_thread 0 poll_sync = (n, err, th', st')"
    by (metis prod_cases4)
  from pollThread_unread [OF sample_poll p, of "''other''"] show ?thesis by (simp add: p poll_sync_unread)
qed



lemma behind_moved:
  assumes "acc = poll_messages E th now st1 msgs" and "m \<in> set msgs" and "trim_space (rm_MessageID m) \<noteq> []"
    and "list_all (\<lambda>m. numericID (seq_of m)) msgs"
    and "trim_space (ts_LastSequenceID th) = [] \<or> numericID (trim_space (ts_LastSequenceID th))"
  shows "behind_cursor (trim_space (ts_LastSequenceID (moved th acc))) m"
proof -
  let ?q = "trim_space (ts_LastSequenceID th)"
  have num: "numericID (seq_of m)" using assms(2,4) by (simp add: list_all_iff)
  have fold: "acc = foldl (poll_message E th now ?q (self_id st1))
      \<lparr>pa_maxSeq = [], pa_maxTS = 0, pa_ingested = 0, pa_state = st1\<rparr> msgs"
    by (simp add: assms(1) poll_messages_def)
  have g: "CompareSequenceID (seq_of x) (pa_maxSeq acc) \<le> 0 \<and> numericID (pa_maxSeq acc)"
    if "x \<in> set msgs" "fresh ?q x" for x
    using that assms(4) maxSeq_greatest [of ?q msgs "\<lparr>pa_maxSeq = [], pa_maxTS = 0, pa_ingested = 0,
        pa_state = st1\<rparr>" E th now "self_id st1"]
    by (simp add: fold list_all_iff)
  have src: "pa_maxSeq acc \<noteq> [] \<Longrightarrow> \<exists>x \<in> set msgs. fresh ?q x \<and> pa_maxSeq acc = seq_of x"
    using maxSeq_source [of E th now ?q "self_id st1" "\<lparr>pa_maxSeq = [], pa_maxTS = 0, pa_ingested = 0,
        pa_state = st1\<rparr>" msgs] by (auto simp: fold)
  show ?thesis
  proof (cases "fresh ?q m")
    case True
    with g [OF assms(2)] have "CompareSequenceID (seq_of m) (pa_maxSeq acc) \<le> 0" "pa_maxSeq acc \<noteq> []"
      "trim_space (pa_maxSeq acc) = pa_maxSeq acc"
      using src numericID_nonempty by force+
    then show ?thesis by (simp add: moved_def behind_cursor_def)
  next
    case False
    with assms(3) have old: "behind_cursor ?q m" by (simp add: fresh_def)
    show ?thesis
    proof (cases "pa_maxSeq acc = []")
      case True
      with old show ?thesis by (simp add: moved_def)
    next
      case ne: False
      with src obtain x where x: "x \<in> set msgs" "fresh ?q x" "pa_maxSeq acc = seq_of x" by blast
      have "numericID (seq_of x)" using x(1) assms(4) by (simp add: list_all_iff)
      moreover from old assms(5) have q: "numericID ?q" "CompareSequenceID (seq_of m) ?q \<le> 0"
        by (auto simp: behind_cursor_def)
      moreover have "CompareSequenceID ?q (seq_of x) \<le> 0"
        using x(2) old CompareSequenceID_antisym [of ?q "seq_of x"]
        by (auto simp: fresh_def behind_cursor_def)
      ultimately have "CompareSequenceID (seq_of m) (seq_of x) \<le> 0"
        using num numeric_trans by blast
      with ne x show ?thesis by (simp add: moved_def behind_cursor_def)
    qed
  qed
qed

text \<open>
  No message is delivered twice. If the sequence IDs are numbers, and the next poll of the thread
  sees only messages that the poll before has seen (the server returns its history again), it queues
  no message event and returns 0.
\<close>

theorem pollThread_no_redelivery:
  assumes "fetched E th st = Inr msgs" and "pollThread E th now st = (n, err, th', st')"
    and "fetched E' th' st' = Inr msgs'" and "pollThread E' th' now' st' = (n', err', th'', st'')"
    and "list_all (\<lambda>m. m \<in> set msgs) msgs'" and "list_all (\<lambda>m. numericID (seq_of m)) msgs"
    and "trim_space (ts_LastSequenceID th) = [] \<or> numericID (trim_space (ts_LastSequenceID th))"
  shows "n' = 0 \<and> err' = None \<and> deliveries (sy_events st'') = deliveries (sy_events st')"
proof -
  from assms(1,2) obtain st1 acc where acc: "acc = poll_messages E th now st1 msgs" and th': "th' = moved th acc"
    by (rule pollThread_result)
  have "filter (deliverable (o_lib E') th') msgs' = []"
    using assms(5) behind_moved [OF acc _ _ assms(6,7)]
    by (auto simp: filter_empty_conv deliverable_def th' list_all_iff)
  moreover from assms(3,4) obtain st3 st4 acc' herr where t: "sync_token E' st' = (None, st3)"
    and acc': "acc' = poll_messages E' th' now' st3 msgs'" "n' = pa_ingested acc'" "err' = None"
    and "sy_events st4 = sy_events (pa_state acc')"
    and "pollConsumptionHorizons E' th'' now' st4 = (herr, st'')"
    by (rule pollThread_result)
  moreover note sync_token_frame(1) [OF t] polled_delivers [of E' th' now' "self_id st3" _ msgs']
  ultimately show ?thesis by (auto simp: poll_messages_def dest: pollConsumptionHorizons_frame(1))
qed

lemma pollThread_session:
  assumes "fetched E th st = Inr msgs" and "pollThread E th now st = (n, err, th', st')"
    and "sync_token E st = (None, st1)"
  shows "sy_session st' = sy_session st1 \<and> ts_Conversation th' = ts_Conversation th"
proof -
  from assms(1,2) obtain st2 acc herr st3 where "sync_token E st = (None, st2)"
    and "th' = moved th acc" and "sy_session st3 = sy_session st2"
    and "pollConsumptionHorizons E th' now st3 = (herr, st')"
    by (rule pollThread_result)
  with assms(3) show ?thesis by (auto simp: moved_def dest: pollConsumptionHorizons_frame(3))
qed

theorem pollThread_no_redelivery_witness:
  "(case pollThread sample_outside poll_thread 0 poll_sync of (n, err, th', st') \<Rightarrow>
      fst (pollThread sample_outside th' 1 st')) = 0"
proof -
  obtain n err th' st' where p: "pollThread sample_outside poll_thread 0 poll_sync = (n, err, th', st')"
    by (metis prod_cases4)
  obtain n' err' th'' st'' where p': "pollThread sample_outside th' 1 st' = (n', err', th'', st'')"
    by (metis prod_cases4)
  have "sy_session st' = poll_session" "ts_Conversation th' = ''c''"
    using pollThread_session [OF sample_poll p sample_token] by (simp_all add: poll_sync_session)
  then have "fetched sample_outside th' st' = Inr [posted ''a'' ''9'', posted ''b'' ''10'']"
    by (rule sample_fetched)
  from pollThread_no_redelivery [OF sample_poll p this p' _ sample_numeric] show ?thesis
    by (simp add: p p')
qed

section \<open>Read horizons\<close>

text \<open>The stored horizon of a user in a thread; none counts as minus infinity.\<close>

definition horizon_of :: "outside \<Rightarrow> Sync \<Rightarrow> string \<Rightarrow> string \<Rightarrow> int option" where
  "horizon_of E st thread user = map_of (sy_horizons st) (o_bridge E, o_login E, trim_space thread, trim_space user)"

lemma remote_horizon_trimmed:
  "remote_horizon L selfID thread found hs = Some (i, h) \<Longrightarrow>
     (\<And>j g. found = Some (j, g) \<Longrightarrow> trimmed j \<and> j \<noteq> [] \<and> j \<noteq> selfID) \<Longrightarrow> trimmed i \<and> i \<noteq> [] \<and> i \<noteq> selfID"
proof (induction hs arbitrary: found)
  case (Cons e hs)
  show ?case
  proof (cases "NormalizeTeamsUserID (ch_ID e) = [] \<or> NormalizeTeamsUserID (ch_ID e) = selfID
      \<or> eq_fold L (NormalizeTeamsUserID (ch_ID e)) thread \<or> isLikelyThreadID L (NormalizeTeamsUserID (ch_ID e))")
    case True
    with Cons.prems(1) have "remote_horizon L selfID thread found hs = Some (i, h)" by (auto simp: Let_def)
    from Cons.IH [OF this Cons.prems(2)] show ?thesis .
  next
    case False
    with Cons.prems(1) have "remote_horizon L selfID thread (Some (NormalizeTeamsUserID (ch_ID e), e)) hs = Some (i, h)"
      by (auto simp: Let_def split: if_splits)
    from Cons.IH [OF this] False show ?thesis by (simp add: NormalizeTeamsUserID_def)
  qed
qed auto

lemma pollConsumptionHorizons_cases:
  assumes "pollConsumptionHorizons E th now st = (err, st')"
  obtains (quiet) "sy_events st' = sy_events st" "sy_horizons st' = sy_horizons st"
  | (receipt) hs remoteID h ts state target where
      "remote_horizon (o_lib E) (self_id st) (trim_space (ts_ThreadID th)) None hs = Some (remoteID, h)"
      "trim_space (ts_ThreadID th) \<noteq> []" "0 < ts"
      "ConsumptionHorizon_Get (Some (o_bridge E)) (o_fault E ''horizon.get'') (o_login E)
         (trim_space (ts_ThreadID th)) remoteID (sy_horizons st) = Inr state"
      "\<not> (case state of Some old \<Rightarrow> ts \<le> hs_LastReadTS old | None \<Rightarrow> False)"
      "sy_events st' = sy_events st @ [Read_Receipt
         \<lparr>re_PortalKey = portalKey (o_login E) (trim_space (ts_ThreadID th)),
          re_Sender = teamsUserIDToNetworkUserID remoteID, re_ReadUpTo = ts * 1000000, re_Target = target\<rparr>]"
      "(err, sy_horizons st') = ConsumptionHorizon_UpsertLastRead (Some (o_bridge E))
         (o_fault E ''horizon.upsert'') (o_login E) (trim_space (ts_ThreadID th)) remoteID ts (sy_horizons st)"
proof -
  have self: "self_id (st\<lparr>sy_receiptPoll := m\<rparr>) = self_id st" for m by (simp add: self_id_def)
  show ?thesis
    using assms unfolding pollConsumptionHorizons_def Let_def
    by (auto simp: self queue_event_def not_le split: prod.splits if_splits sum.splits option.splits
        intro: quiet receipt)
qed

lemma pollConsumptionHorizons_step:
  assumes "pollConsumptionHorizons E th now st = (err, st')"
  obtains (quiet) "sy_events st' = sy_events st" "sy_horizons st' = sy_horizons st"
  | (receipt) r ts where "sy_events st' = sy_events st @ [Read_Receipt r]"
      "re_Sender r \<noteq> self_id st" "re_Sender r \<noteq> []" "re_ReadUpTo r = ts * 1000000" "0 < ts"
      "case horizon_of E st (ts_ThreadID th) (re_Sender r) of None \<Rightarrow> True | Some old \<Rightarrow> old < ts"
      "err = None \<longrightarrow> horizon_of E st' (ts_ThreadID th) (re_Sender r) = Some ts"
      "sy_horizons st' = (if err = None then upsert (\<lambda>_ new. new)
         (o_bridge E, o_login E, trim_space (ts_ThreadID th), trim_space (re_Sender r)) ts (sy_horizons st)
         else sy_horizons st)"
  using assms
proof (cases rule: pollConsumptionHorizons_cases)
  case q: quiet
  then show ?thesis by (rule quiet)
next
  case (receipt hs remoteID h ts state target)
  let ?t = "trim_space (ts_ThreadID th)" and ?k = "(o_bridge E, o_login E, trim_space (ts_ThreadID th), remoteID)"
  from remote_horizon_trimmed [OF receipt(1)] have id: "remoteID \<noteq> []" "remoteID \<noteq> self_id st"
    "trim_space remoteID = remoteID" by (simp_all add: trim_space_trimmed)
  from receipt(4,5) id receipt(2) have old: "case map_of (sy_horizons st) ?k of None \<Rightarrow> True | Some old \<Rightarrow> old < ts"
    by (auto simp: ConsumptionHorizon_Get_def Let_def split: option.splits if_splits)
  have new: "sy_horizons st' = (if err = None then upsert (\<lambda>_ new. new) ?k ts (sy_horizons st) else sy_horizons st)"
    using receipt(2,7) id by (auto simp: ConsumptionHorizon_UpsertLastRead_def Let_def split: option.splits)
  have "err = None \<longrightarrow> horizon_of E st' (ts_ThreadID th) remoteID = Some ts"
    by (auto simp: horizon_of_def new rows.find_put id split: option.split)
  then show ?thesis
    using receipt(3,6) old id new
    by (intro that(2) [where ts = ts]) (auto simp: teamsUserIDToNetworkUserID_def horizon_of_def)
qed

text \<open>No stored read position decreases.\<close>

definition horizons_grow :: "horizon_table \<Rightarrow> horizon_table \<Rightarrow> bool" where
  "horizons_grow t t' \<longleftrightarrow> (\<forall>k old. map_of t k = Some old \<longrightarrow> (\<exists>new. map_of t' k = Some new \<and> old \<le> new))"

lemma pollConsumptionHorizons_grow:
  assumes "pollConsumptionHorizons E th now st = (err, st')"
  shows "horizons_grow (sy_horizons st) (sy_horizons st')"
  using assms
proof (cases rule: pollConsumptionHorizons_step)
  case (receipt r ts)
  have "\<exists>n. map_of (sy_horizons st') k = Some n \<and> o' \<le> n" if "map_of (sy_horizons st) k = Some o'" for k o'
    using that receipt(6) by (auto simp: receipt(8) rows.find_put horizon_of_def split: option.splits)
  then show ?thesis by (auto simp: horizons_grow_def)
qed (simp add: horizons_grow_def)

text \<open>
  Read receipts move forward only. One poll of the horizons of a thread, whatever the server and the
  database answer, queues nothing, or one read receipt of another user for a time greater than the
  one stored for that user; if storing works, that time is then stored. No stored time of anyone
  decreases.
\<close>

theorem horizons_monotone:
  assumes "pollConsumptionHorizons E th now st = (err, st')"
  shows "(sy_events st' = sy_events st \<and> sy_horizons st' = sy_horizons st
      \<or> (\<exists>r ts. sy_events st' = sy_events st @ [Read_Receipt r]
          \<and> re_Sender r \<noteq> self_id st \<and> re_Sender r \<noteq> [] \<and> re_ReadUpTo r = ts * 1000000 \<and> 0 < ts
          \<and> (case horizon_of E st (ts_ThreadID th) (re_Sender r) of None \<Rightarrow> True | Some old \<Rightarrow> old < ts)
          \<and> (err = None \<longrightarrow> horizon_of E st' (ts_ThreadID th) (re_Sender r) = Some ts)))
    \<and> (\<forall>k old. map_of (sy_horizons st) k = Some old \<longrightarrow> (\<exists>new. map_of (sy_horizons st') k = Some new \<and> old \<le> new))"
proof -
  have "\<forall>k old. map_of (sy_horizons st) k = Some old \<longrightarrow> (\<exists>new. map_of (sy_horizons st') k = Some new \<and> old \<le> new)"
    using pollConsumptionHorizons_grow [OF assms] by (simp add: horizons_grow_def)
  with assms show ?thesis by (cases rule: pollConsumptionHorizons_step) blast+
qed

theorem horizons_monotone_witness:
  "\<exists>new. map_of (sy_horizons (snd (pollConsumptionHorizons sample_outside poll_thread 0
        (poll_sync\<lparr>sy_horizons := [((''b'', ''8:me'', ''t'', ''8:ann''), 5)]\<rparr>))))
      (''b'', ''8:me'', ''t'', ''8:ann'') = Some new \<and> 5 \<le> new"
  using horizons_monotone [OF surjective_pairing, of sample_outside poll_thread 0
      "poll_sync\<lparr>sy_horizons := [((''b'', ''8:me'', ''t'', ''8:ann''), 5)]\<rparr>"] by force

end
