(* ===== verification/Scheduler.thy ===== *)
theory Scheduler
  imports Polling
begin

text \<open>
  The sync loop of \<open>pkg/connector/handleteams.go\<close>: \<open>syncLoop\<close>, \<open>syncOnce\<close>, \<open>pollAllThreadsOnce\<close> and
  \<open>pollDueThreads\<close>, which polls every thread of the login when it is due, with a backoff per thread.

  One pass of the endless loop is \<open>due_round\<close>; the loop itself is a partial function, since it ends
  only when its context is cancelled or the database fails. \<open>da_polled\<close> is a ghost: the thread IDs
  polled in this pass, the number of which also numbers the outside of the next poll.
\<close>

section \<open>State\<close>

record pollState =
  ps_backoff :: PollBackoff
  ps_nextPoll :: instant

type_synonym poll_states = "string \<Rightarrow> pollState option"

record due_acc =
  da_states :: poll_states
  da_wake :: instant
  da_sync :: Sync
  da_polled :: "string list"

record sched =
  sc_states :: poll_states
  sc_discovery :: "instant option" \<comment> \<open>\<open>None\<close> is the zero time\<close>
  sc_sync :: Sync

text \<open>The outside of a run: by pass, the context, the clock, the calls; by pass and poll, the polls.\<close>

record sched_world =
  sw_start :: "nat \<Rightarrow> instant"
  sw_err :: "nat \<Rightarrow> ctx_error option"
  sw_now :: "nat \<Rightarrow> instant"
  sw_round :: "nat \<Rightarrow> outside"
  sw_poll :: "nat \<Rightarrow> nat \<Rightarrow> outside"
  sw_after :: "nat \<Rightarrow> instant"
  sw_sleep :: "nat \<Rightarrow> ctx_error option"

definition threadDiscoveryInterval :: int where "threadDiscoveryInterval = 30000000000"
definition wakeInterval :: int where "wakeInterval = 5000000000"
definition minSleep :: int where "minSleep = 100000000"

definition fresh_backoff :: PollBackoff where
  "fresh_backoff = \<lparr>Failures = 0, Delay = pollBaseDelay\<rparr>"

definition list_threads :: "outside \<Rightarrow> Sync \<Rightarrow> go_error + ThreadState list" where
  "list_threads E st =
     ThreadState_ListForLogin (Some (o_bridge E)) (o_fault E ''thread.list'') (o_login E) (sy_threads st)"

section \<open>The first pass\<close>

definition pollAllThreadsOnce ::
  "outside \<Rightarrow> (nat \<Rightarrow> outside) \<Rightarrow> (nat \<Rightarrow> instant) \<Rightarrow> Sync \<Rightarrow> go_error option \<times> Sync" where
  "pollAllThreadsOnce E P clk st =
     (case list_threads E st of
        Inl err \<Rightarrow> (Some err, st)
      | Inr threads \<Rightarrow>
          (None, foldl (\<lambda>st (i, th). snd (snd (snd (pollThread (P i) th (clk i) st)))) st
                   (enumerate 0 threads)))"

definition syncOnce ::
  "outside \<Rightarrow> (nat \<Rightarrow> outside) \<Rightarrow> (nat \<Rightarrow> instant) \<Rightarrow> Sync \<Rightarrow> go_error option \<times> Sync" where
  "syncOnce E P clk st =
     (case refreshThreads E st of
        (Some err, st) \<Rightarrow> (Some err, st)
      | (None, st) \<Rightarrow> pollAllThreadsOnce E P clk st)"

section \<open>Polling the threads that are due\<close>

definition state_at :: "instant \<Rightarrow> poll_states \<Rightarrow> string \<Rightarrow> pollState" where
  "state_at now states i =
     (case states i of Some ps \<Rightarrow> ps | None \<Rightarrow> \<lparr>ps_backoff = fresh_backoff, ps_nextPoll = now\<rparr>)"

definition poll_due :: "(nat \<Rightarrow> outside) \<Rightarrow> instant \<Rightarrow> due_acc \<Rightarrow> ThreadState \<Rightarrow> due_acc" where
  "poll_due P now acc th =
     (let i = ts_ThreadID th
      in if i = [] then acc
         else
           (let ps = state_at now (da_states acc) i;
                acc = acc\<lparr>da_states := (da_states acc)(i \<mapsto> ps)\<rparr>
            in if now < ps_nextPoll ps
               then (if ps_nextPoll ps < da_wake acc then acc\<lparr>da_wake := ps_nextPoll ps\<rparr> else acc)
               else
                 (let (ingested, err, _, st) =
                        pollThread (P (length (da_polled acc))) th now (da_sync acc);
                      (b, delay, _) = ApplyPollBackoff (Some (ps_backoff ps)) ingested err;
                      ps = \<lparr>ps_backoff = (case b of Some b \<Rightarrow> b | None \<Rightarrow> ps_backoff ps),
                            ps_nextPoll = now + sint delay\<rparr>
                  in \<lparr>da_states = (da_states acc)(i \<mapsto> ps),
                      da_wake = (if ps_nextPoll ps < da_wake acc then ps_nextPoll ps else da_wake acc),
                      da_sync = st, da_polled = da_polled acc @ [i]\<rparr>)))"

definition poll_due_all ::
  "(nat \<Rightarrow> outside) \<Rightarrow> instant \<Rightarrow> poll_states \<Rightarrow> Sync \<Rightarrow> ThreadState list \<Rightarrow> due_acc" where
  "poll_due_all P now states st threads =
     foldl (poll_due P now)
       \<lparr>da_states = states, da_wake = now + wakeInterval, da_sync = st, da_polled = []\<rparr> threads"

definition discovery_due :: "instant \<Rightarrow> instant option \<Rightarrow> bool" where
  "discovery_due now t = (case t of None \<Rightarrow> True | Some t \<Rightarrow> t \<le> now)"

definition discover :: "outside \<Rightarrow> instant \<Rightarrow> sched \<Rightarrow> sched" where
  "discover E now s =
     (if discovery_due now (sc_discovery s)
      then s\<lparr>sc_sync := snd (refreshThreads E (sc_sync s)),
             sc_discovery := Some (now + threadDiscoveryInterval)\<rparr>
      else s)"

definition due_round ::
  "outside \<Rightarrow> (nat \<Rightarrow> outside) \<Rightarrow> instant \<Rightarrow> instant \<Rightarrow> sched \<Rightarrow> (go_error \<times> sched) + (sched \<times> int)" where
  "due_round E P now after s =
     (let s = discover E now s
      in case list_threads E (sc_sync s) of
           Inl err \<Rightarrow> Inl (err, s)
         | Inr threads \<Rightarrow>
           (let acc = poll_due_all P now (sc_states s) (sc_sync s) threads;
                sleep = da_wake acc - after
            in Inr (s\<lparr>sc_states := da_states acc, sc_sync := da_sync acc\<rparr>,
                    if sleep < minSleep then minSleep else sleep)))"

partial_function (option) due_loop ::
  "sched_world \<Rightarrow> nat \<Rightarrow> sched \<Rightarrow> (go_error \<times> sched) option" where
  "due_loop W k s =
     (case sw_err W k of
        Some err \<Rightarrow> Some (CtxErr err, s)
      | None \<Rightarrow>
        (case due_round (sw_round W k) (sw_poll W k) (sw_now W k) (sw_after W k) s of
           Inl (err, s) \<Rightarrow> Some (err, s)
         | Inr (s, _) \<Rightarrow>
           (case sw_sleep W k of
              Some err \<Rightarrow> Some (CtxErr err, s)
            | None \<Rightarrow> due_loop W (Suc k) s)))"

fun init_states :: "(nat \<Rightarrow> instant) \<Rightarrow> nat \<Rightarrow> ThreadState list \<Rightarrow> poll_states \<Rightarrow> poll_states" where
  "init_states clk i [] states = states"
| "init_states clk i (th # ths) states =
     init_states clk (Suc i) ths
       (if ts_ThreadID th = [] then states
        else states(ts_ThreadID th \<mapsto> \<lparr>ps_backoff = fresh_backoff, ps_nextPoll = clk i\<rparr>))"

definition start_sched :: "sched_world \<Rightarrow> bool \<Rightarrow> ThreadState list \<Rightarrow> Sync \<Rightarrow> sched" where
  "start_sched W ok threads st =
     \<lparr>sc_states = init_states (sw_start W) 0 threads Map.empty,
      sc_discovery = (if ok then Some (sw_start W (length threads) + threadDiscoveryInterval) else None),
      sc_sync = st\<rparr>"

definition pollDueThreads ::
  "sched_world \<Rightarrow> outside \<Rightarrow> bool \<Rightarrow> Sync \<Rightarrow> (go_error \<times> Sync) option" where
  "pollDueThreads W E initialDiscoverySucceeded st =
     (case list_threads E st of
        Inl err \<Rightarrow> Some (err, st)
      | Inr threads \<Rightarrow>
        map_option (\<lambda>(err, s). (err, sc_sync s))
          (due_loop W 0 (start_sched W initialDiscoverySucceeded threads st)))"

definition syncLoop ::
  "sched_world \<Rightarrow> outside \<Rightarrow> (nat \<Rightarrow> outside) \<Rightarrow> (nat \<Rightarrow> instant) \<Rightarrow> outside \<Rightarrow> Sync \<Rightarrow> Sync option" where
  "syncLoop W E P clk E' st =
     (case syncOnce E P clk st of
        (err, st) \<Rightarrow> map_option snd (pollDueThreads W E' (err = None) st))"

section \<open>Well-formed tables\<close>

definition tables_ok :: "Sync \<Rightarrow> bool" where
  "tables_ok st \<longleftrightarrow> table_ok (sy_threads st) \<and> table_ok (sy_profiles st) \<and> table_ok (sy_horizons st)"

named_theorems keeps_tables \<comment> \<open>operations that keep \<open>tables_ok\<close>\<close>

lemma sync_reactions_of_tables [keeps_tables]:
  "tables_ok (sync_reactions_of E th msg i st) = tables_ok st"
  by (simp add: tables_ok_def sync_reactions_of_def queue_event_def split: prod.split option.split)

lemma Profile_Upsert_ok: "table_ok t \<Longrightarrow> table_ok (snd (Profile_Upsert q fault i name now t))"
  by (simp add: Profile_Upsert_def Let_def table_ok_upsert split: option.split)

lemma UpdateCursor_ok: "table_ok t \<Longrightarrow> table_ok (snd (ThreadState_UpdateCursor q fault login i seq ts t))"
  by (simp add: ThreadState_UpdateCursor_def Let_def table_ok_modify split: option.split)

lemma ThreadState_Upsert_ok: "table_ok t \<Longrightarrow> table_ok (snd (snd (ThreadState_Upsert q fault st t)))"
  by (simp add: ThreadState_Upsert_def Let_def table_ok_upsert split: option.split)

lemma UpsertLastRead_ok:
  "table_ok t \<Longrightarrow> table_ok (snd (ConsumptionHorizon_UpsertLastRead q fault login i u ts t))"
  by (simp add: ConsumptionHorizon_UpsertLastRead_def Let_def table_ok_upsert split: option.split)

lemma ingest_message_profiles:
  "sy_profiles (ingest_message E th now selfID msg st) = snd (Profile_Upsert (Some (o_bridge E)) (o_fault E ''profile'')
     (NormalizeTeamsUserID (rm_SenderID msg)) (display_name msg) now (sy_profiles st))"
proof -
  have r: "sy_profiles (sync_reactions_of E th m i s) = sy_profiles s" for m i s
    by (simp add: sync_reactions_of_def queue_event_def split: prod.split option.split)
  show ?thesis
    by (simp add: ingest_message_def Let_def case_prod_beta markUnread_def queue_event_def r)
qed

lemma ingest_message_tables [keeps_tables]:
  "tables_ok st \<Longrightarrow> tables_ok (ingest_message E th now selfID msg st)"
  by (simp add: tables_ok_def ingest_message_profiles Profile_Upsert_ok)

lemma poll_message_tables [keeps_tables]:
  "tables_ok (pa_state acc) \<Longrightarrow> tables_ok (pa_state (poll_message E th now q selfID acc msg))"
  by (simp add: poll_message_def Let_def keeps_tables)

lemma poll_messages_tables [keeps_tables]:
  "tables_ok st \<Longrightarrow> tables_ok (pa_state (poll_messages E th now st msgs))"
proof -
  have "tables_ok (pa_state acc) \<Longrightarrow> tables_ok (pa_state (foldl (poll_message E th now q selfID) acc msgs))"
    for q selfID acc by (induction msgs arbitrary: acc) (simp_all add: keeps_tables)
  then show "tables_ok st \<Longrightarrow> ?thesis" by (simp add: poll_messages_def)
qed

lemma sync_token_tables [keeps_tables]: "tables_ok (snd (sync_token E st)) = tables_ok st"
  by (simp add: tables_ok_def sync_token_def split: prod.split option.split)

lemma set_cursor_tables [keeps_tables]:
  "tables_ok st \<Longrightarrow>
     tables_ok (st\<lparr>sy_threads := snd (ThreadState_UpdateCursor q fault login i seq ts (sy_threads st))\<rparr>)"
  by (simp add: tables_ok_def UpdateCursor_ok)

lemma pollConsumptionHorizons_tables [keeps_tables]:
  "tables_ok st \<Longrightarrow> tables_ok (snd (pollConsumptionHorizons E th now st))"
  using UpsertLastRead_ok [of "sy_horizons st"]
  by (auto simp: pollConsumptionHorizons_def Let_def case_prod_beta tables_ok_def queue_event_def
      split: option.split sum.split)

lemma pollThread_tables [keeps_tables]:
  "tables_ok st \<Longrightarrow> tables_ok (snd (snd (snd (pollThread E th now st))))"
  using sync_token_tables [of E st]
  by (auto simp: pollThread_def Let_def case_prod_beta keeps_tables split: option.split sum.split)

lemma discover_thread_tables [keeps_tables]:
  "tables_ok st \<Longrightarrow> tables_ok (discover_thread E u st conv)"
  using ThreadState_Upsert_ok [of "sy_threads st"]
  by (auto simp: discover_thread_def Let_def case_prod_beta tables_ok_def queue_event_def split: option.split)

lemma refreshThreads_tables [keeps_tables]:
  "tables_ok st \<Longrightarrow> tables_ok (snd (refreshThreads E st))"
proof -
  have "tables_ok st \<Longrightarrow> tables_ok (foldl (discover_thread E u) st convs)" for u convs st
    by (induction convs arbitrary: st) (simp_all add: keeps_tables)
  then show "tables_ok st \<Longrightarrow> ?thesis"
    using sync_token_tables [of E st]
    by (auto simp: refreshThreads_def Let_def case_prod_beta split: option.split sum.split)
qed

text \<open>The threads a listing names are different ones.\<close>

lemma list_threads_distinct:
  assumes "tables_ok st" and "list_threads E st = Inr threads"
  shows "distinct (map ts_ThreadID threads)"
proof -
  let ?mine = "filter (\<lambda>((b, l, tid), r). b = o_bridge E \<and> l = o_login E) (sy_threads st)"
  have ths: "threads = map (\<lambda>((b, l, tid), r). thread_state_of b l tid r) ?mine"
    using assms(2) by (auto simp: list_threads_def ThreadState_ListForLogin_def split: option.splits)
  have "distinct (map fst ?mine)"
    using assms(1) by (auto simp: tables_ok_def table_ok_def intro: distinct_map_filter)
  moreover have "inj_on (\<lambda>(b, l, tid). tid) (set (map fst ?mine))"
    by (auto simp: inj_on_def)
  ultimately have "distinct (map (\<lambda>(b, l, tid). tid) (map fst ?mine))"
    by (rule distinct_map [THEN iffD2, OF conjI])
  moreover have "map ts_ThreadID threads = map (\<lambda>(b, l, tid). tid) (map fst ?mine)"
    by (auto simp: ths thread_state_of_def)
  ultimately show ?thesis by simp
qed

section \<open>One pass\<close>

definition due :: "instant \<Rightarrow> poll_states \<Rightarrow> ThreadState \<Rightarrow> bool" where
  "due now states th \<longleftrightarrow> ts_ThreadID th \<noteq> [] \<and> ps_nextPoll (state_at now states (ts_ThreadID th)) \<le> now"

lemma poll_due_other:
  "j \<noteq> ts_ThreadID th \<Longrightarrow> da_states (poll_due P now acc th) j = da_states acc j"
  by (simp add: poll_due_def Let_def case_prod_beta)

lemma poll_due_all_other:
  "j \<notin> ts_ThreadID ` set ths \<Longrightarrow> da_states (foldl (poll_due P now) acc ths) j = da_states acc j"
  by (induction ths arbitrary: acc) (simp_all add: poll_due_other)

lemma due_unchanged:
  "da_states acc' (ts_ThreadID th) = da_states acc (ts_ThreadID th)
     \<Longrightarrow> due now (da_states acc') th = due now (da_states acc) th"
  by (simp add: due_def state_at_def)

lemma poll_due_polled:
  "da_polled (poll_due P now acc th) =
     da_polled acc @ (if due now (da_states acc) th then [ts_ThreadID th] else [])"
  by (simp add: poll_due_def due_def Let_def case_prod_beta)

lemma fold_polled:
  assumes "distinct (map ts_ThreadID ths)"
  shows "da_polled (foldl (poll_due P now) acc ths) =
    da_polled acc @ map ts_ThreadID (filter (due now (da_states acc)) ths)"
  using assms
proof (induction ths arbitrary: acc)
  case (Cons th ths)
  have "due now (da_states (poll_due P now acc th)) x = due now (da_states acc) x" if "x \<in> set ths" for x
    using Cons.prems that by (intro due_unchanged poll_due_other) (force simp: image_iff)
  then have "filter (due now (da_states (poll_due P now acc th))) ths = filter (due now (da_states acc)) ths"
    by (intro filter_cong) simp_all
  with Cons show ?case by (simp add: poll_due_polled)
qed simp

text \<open>The wake-up time: no later than the next poll of any thread of the listing.\<close>

definition planned :: "due_acc \<Rightarrow> string \<Rightarrow> bool" where
  "planned acc i \<longleftrightarrow> (\<exists>ps. da_states acc i = Some ps \<and> da_wake acc \<le> ps_nextPoll ps)"

lemma poll_due_wake: "da_wake (poll_due P now acc th) \<le> da_wake acc"
  by (simp add: poll_due_def Let_def case_prod_beta)

lemma poll_due_plans: "ts_ThreadID th \<noteq> [] \<Longrightarrow> planned (poll_due P now acc th) (ts_ThreadID th)"
  by (simp add: planned_def poll_due_def Let_def case_prod_beta)

lemma fold_wake: "da_wake (foldl (poll_due P now) acc ths) \<le> da_wake acc"
  by (induction ths arbitrary: acc) (auto intro: order_trans [OF _ poll_due_wake])

lemma fold_plans:
  assumes "distinct (map ts_ThreadID ths)" and "th \<in> set ths" and "ts_ThreadID th \<noteq> []"
  shows "planned (foldl (poll_due P now) acc ths) (ts_ThreadID th)"
  using assms
proof (induction ths arbitrary: acc)
  case (Cons x ths)
  show ?case
  proof (cases "th = x")
    case True
    have "ts_ThreadID th \<notin> ts_ThreadID ` set ths" using Cons.prems True by auto
    with poll_due_plans [OF Cons.prems(3), of P now acc] fold_wake [of P now "poll_due P now acc th" ths]
    show ?thesis by (auto simp: True planned_def poll_due_all_other)
  next
    case False
    with Cons show ?thesis by simp
  qed
qed simp

text \<open>The schedule of a thread after the pass.\<close>

lemma poll_due_schedule:
  assumes "ts_ThreadID th \<noteq> []"
  shows "\<exists>ps. da_states (poll_due P now acc th) (ts_ThreadID th) = Some ps
    \<and> (if due now (da_states acc) th
       then \<exists>ingested err b reason.
              ApplyPollBackoff (Some (ps_backoff (state_at now (da_states acc) (ts_ThreadID th)))) ingested err
                = (Some b, Delay b, reason)
              \<and> ps = \<lparr>ps_backoff = b, ps_nextPoll = now + sint (Delay b)\<rparr>
       else ps = state_at now (da_states acc) (ts_ThreadID th))"
proof (cases "due now (da_states acc) th")
  case True
  let ?b = "ps_backoff (state_at now (da_states acc) (ts_ThreadID th))"
  obtain n e th' st where p: "pollThread (P (length (da_polled acc))) th now (da_sync acc) = (n, e, th', st)"
    by (metis prod_cases4)
  obtain b reason where a: "ApplyPollBackoff (Some ?b) n e = (Some b, Delay b, reason)"
    using ApplyPollBackoff_stays by blast
  have "da_states (poll_due P now acc th) (ts_ThreadID th)
      = Some \<lparr>ps_backoff = b, ps_nextPoll = now + sint (Delay b)\<rparr>"
    using True assms by (simp add: poll_due_def due_def Let_def p a)
  with a True show ?thesis by auto
next
  case False
  with assms show ?thesis by (simp add: poll_due_def due_def Let_def)
qed

lemma fold_schedule:
  assumes "distinct (map ts_ThreadID ths)" and "th \<in> set ths" and "ts_ThreadID th \<noteq> []"
  shows "\<exists>acc'. da_states acc' (ts_ThreadID th) = da_states acc (ts_ThreadID th)
    \<and> da_states (foldl (poll_due P now) acc ths) (ts_ThreadID th)
      = da_states (poll_due P now acc' th) (ts_ThreadID th)"
  using assms
proof (induction ths arbitrary: acc)
  case (Cons x ths)
  show ?case
  proof (cases "th = x")
    case True
    have "ts_ThreadID th \<notin> ts_ThreadID ` set ths" using Cons.prems True by auto
    then show ?thesis by (intro exI [of _ acc]) (simp add: True poll_due_all_other)
  next
    case False
    then have "ts_ThreadID th \<noteq> ts_ThreadID x" using Cons.prems by (force simp: image_iff)
    with Cons.IH [of "poll_due P now acc x"] Cons.prems False show ?thesis
      by (simp add: poll_due_other)
  qed
qed simp

section \<open>Runs of the loop\<close>

text \<open>The passes of a run: the state before pass \<open>k\<close>, and the ways in which a pass ends the run.\<close>

inductive sched_reach :: "sched_world \<Rightarrow> sched \<Rightarrow> nat \<Rightarrow> sched \<Rightarrow> bool" for W s\<^sub>0 where
  start: "sched_reach W s\<^sub>0 0 s\<^sub>0"
| pass: "sched_reach W s\<^sub>0 k s \<Longrightarrow> sw_err W k = None
    \<Longrightarrow> due_round (sw_round W k) (sw_poll W k) (sw_now W k) (sw_after W k) s = Inr (s', sleep)
    \<Longrightarrow> sw_sleep W k = None \<Longrightarrow> sched_reach W s\<^sub>0 (Suc k) s'"

inductive_cases sched_reach_SucE: "sched_reach W s\<^sub>0 (Suc k) s"

definition sched_ends :: "sched_world \<Rightarrow> nat \<Rightarrow> sched \<Rightarrow> go_error \<Rightarrow> sched \<Rightarrow> bool" where
  "sched_ends W k s err s' \<longleftrightarrow>
     (case sw_err W k of Some e \<Rightarrow> err = CtxErr e \<and> s' = s
      | None \<Rightarrow>
        (case due_round (sw_round W k) (sw_poll W k) (sw_now W k) (sw_after W k) s of
           Inl r \<Rightarrow> r = (err, s')
         | Inr (s1, _) \<Rightarrow> (\<exists>e. sw_sleep W k = Some e \<and> err = CtxErr e \<and> s' = s1)))"

lemma due_loop_reach: "sched_reach W s\<^sub>0 k s \<Longrightarrow> due_loop W 0 s\<^sub>0 = due_loop W k s"
proof (induction rule: sched_reach.induct)
  case (pass k s s' sleep)
  then show ?case by (subst (asm) (2) due_loop.simps) simp
qed simp

lemma due_loop_ends: "sched_ends W k s err s' \<Longrightarrow> due_loop W k s = Some (err, s')"
  by (subst due_loop.simps) (auto simp: sched_ends_def split: option.splits sum.splits)

lemma due_loop_result:
  assumes "due_loop W k s = Some r"
  shows "\<forall>s\<^sub>0. sched_reach W s\<^sub>0 k s
    \<longrightarrow> (\<exists>n s1. sched_reach W s\<^sub>0 n s1 \<and> sched_ends W n s1 (fst r) (snd r))"
proof (rule due_loop.raw_induct [OF _ assms], intro allI impI)
  fix f W k s r s\<^sub>0
  assume IH: "\<And>W k s r. f W k s = Some r \<Longrightarrow> \<forall>s\<^sub>0. sched_reach W s\<^sub>0 k s
      \<longrightarrow> (\<exists>n s1. sched_reach W s\<^sub>0 n s1 \<and> sched_ends W n s1 (fst r) (snd r))"
    and body: "(case sw_err W k of Some err \<Rightarrow> Some (CtxErr err, s)
      | None \<Rightarrow> (case due_round (sw_round W k) (sw_poll W k) (sw_now W k) (sw_after W k) s of
           Inl (err, s) \<Rightarrow> Some (err, s)
         | Inr (s, _) \<Rightarrow> (case sw_sleep W k of Some err \<Rightarrow> Some (CtxErr err, s)
            | None \<Rightarrow> f W (Suc k) s))) = Some r"
    and reach: "sched_reach W s\<^sub>0 k s"
  show "\<exists>n s1. sched_reach W s\<^sub>0 n s1 \<and> sched_ends W n s1 (fst r) (snd r)"
  proof (cases "\<exists>s1 sleep. sw_err W k = None \<and> sw_sleep W k = None
      \<and> due_round (sw_round W k) (sw_poll W k) (sw_now W k) (sw_after W k) s = Inr (s1, sleep)")
    case True
    with body IH reach show ?thesis by (fastforce intro: sched_reach.pass)
  next
    case False
    with body have "sched_ends W k s (fst r) (snd r)"
      by (auto simp: sched_ends_def split: option.splits sum.splits)
    with reach show ?thesis by blast
  qed
qed

lemma due_loop_cancelled:
  assumes "sw_err W n = Some e" and "k \<le> n"
  shows "due_loop W k s \<noteq> None"
  using assms(2)
proof (induction k arbitrary: s rule: inc_induct)
  case base
  with assms(1) show ?case by (subst due_loop.simps) simp
next
  case (step k)
  then show ?case by (subst due_loop.simps) (simp split: option.split sum.split prod.split)
qed

lemma due_round_error:
  "due_round E P now after s = Inl (err, s') \<Longrightarrow> o_fault E ''thread.list'' = Some err"
  by (auto simp: due_round_def Let_def list_threads_def ThreadState_ListForLogin_def
      split: sum.splits option.splits)

text \<open>Every state of a run keeps the tables well formed.\<close>

lemma discover_tables: "tables_ok (sc_sync s) \<Longrightarrow> tables_ok (sc_sync (discover E now s))"
  by (simp add: discover_def keeps_tables)

lemma poll_due_tables: "tables_ok (da_sync acc) \<Longrightarrow> tables_ok (da_sync (poll_due P now acc th))"
  by (simp add: poll_due_def Let_def case_prod_beta keeps_tables)

lemma poll_due_all_tables: "tables_ok st \<Longrightarrow> tables_ok (da_sync (poll_due_all P now states st ths))"
proof -
  have "tables_ok (da_sync acc) \<Longrightarrow> tables_ok (da_sync (foldl (poll_due P now) acc ths))" for acc
    by (induction ths arbitrary: acc) (simp_all add: poll_due_tables)
  then show "tables_ok st \<Longrightarrow> ?thesis" by (simp add: poll_due_all_def)
qed

lemma due_round_tables:
  "due_round E P now after s = Inr (s', sleep) \<Longrightarrow> tables_ok (sc_sync s) \<Longrightarrow> tables_ok (sc_sync s')"
  by (auto simp: due_round_def Let_def split: sum.splits intro!: poll_due_all_tables discover_tables)

lemma sched_reach_tables: "sched_reach W s\<^sub>0 k s \<Longrightarrow> tables_ok (sc_sync s\<^sub>0) \<Longrightarrow> tables_ok (sc_sync s)"
  by (induction rule: sched_reach.induct) (auto intro: due_round_tables)

text \<open>The listing and the polls of a pass.\<close>

lemma due_round_parts:
  assumes "due_round E P now after s = Inr (s', sleep)"
  obtains threads acc where "list_threads E (sc_sync (discover E now s)) = Inr threads"
    and "acc = poll_due_all P now (sc_states s) (sc_sync (discover E now s)) threads"
    and "sc_states s' = da_states acc" and "sc_sync s' = da_sync acc"
    and "sleep = max minSleep (da_wake acc - after)"
proof -
  from assms obtain threads where "list_threads E (sc_sync (discover E now s)) = Inr threads"
    by (auto simp: due_round_def Let_def split: sum.splits)
  moreover have "sc_states (discover E now s) = sc_states s" by (simp add: discover_def)
  ultimately show thesis
    using that assms by (auto simp: due_round_def Let_def max_def split: if_splits)
qed

definition known :: "outside \<Rightarrow> Sync \<Rightarrow> string \<Rightarrow> bool" where
  "known E st i \<longleftrightarrow> i \<noteq> [] \<and> map_of (sy_threads st) (o_bridge E, o_login E, i) \<noteq> None"

lemma list_threads_known:
  assumes "list_threads E st = Inr threads" and "i \<noteq> []"
  shows "i \<in> ts_ThreadID ` set threads \<longleftrightarrow> known E st i"
proof -
  have "threads = map (\<lambda>((b, l, tid), r). thread_state_of b l tid r)
      (filter (\<lambda>((b, l, tid), r). b = o_bridge E \<and> l = o_login E) (sy_threads st))"
    using assms(1) by (auto simp: list_threads_def ThreadState_ListForLogin_def split: option.splits)
  then have "i \<in> ts_ThreadID ` set threads \<longleftrightarrow> (o_bridge E, o_login E, i) \<in> fst ` set (sy_threads st)"
    by (force simp: thread_state_of_def)
  with assms(2) show ?thesis by (simp add: known_def map_of_eq_None_iff)
qed

text \<open>The thread IDs that a pass polls, in order.\<close>

definition pass_polls :: "outside \<Rightarrow> (nat \<Rightarrow> outside) \<Rightarrow> instant \<Rightarrow> sched \<Rightarrow> string list" where
  "pass_polls E P now s =
     (case list_threads E (sc_sync (discover E now s)) of
        Inl _ \<Rightarrow> []
      | Inr threads \<Rightarrow> da_polled (poll_due_all P now (sc_states s) (sc_sync (discover E now s)) threads))"

lemma pass_polls_eq:
  assumes "tables_ok (sc_sync s)" and "list_threads E (sc_sync (discover E now s)) = Inr threads"
  shows "pass_polls E P now s = map ts_ThreadID (filter (due now (sc_states s)) threads)"
    and "distinct (map ts_ThreadID threads)"
proof -
  show "distinct (map ts_ThreadID threads)"
    using list_threads_distinct [OF discover_tables [OF assms(1)] assms(2)] .
  then show "pass_polls E P now s = map ts_ThreadID (filter (due now (sc_states s)) threads)"
    by (simp add: pass_polls_def assms(2) poll_due_all_def fold_polled)
qed

section \<open>Properties of the scheduler\<close>

text \<open>A world for the examples: at time 0 one thread is known and due.\<close>

definition sample_world :: sched_world where
  "sample_world = \<lparr>sw_start = \<lambda>_. 0, sw_err = \<lambda>k. if k < 5 then None else Some Canceled, sw_now = \<lambda>k. int k,
     sw_round = \<lambda>_. sample_outside, sw_poll = \<lambda>_ _. sample_outside, sw_after = \<lambda>k. int k + 1,
     sw_sleep = \<lambda>_. None\<rparr>"

definition sample_sched :: sched where
  "sample_sched = \<lparr>sc_states = Map.empty, sc_discovery = Some threadDiscoveryInterval, sc_sync = poll_sync\<rparr>"

lemma sample_sched_ok: "tables_ok (sc_sync sample_sched)"
  by (simp add: sample_sched_def poll_sync_def tables_ok_def table_ok_def)

lemma sample_discover: "discover sample_outside 0 sample_sched = sample_sched"
  by (simp add: discover_def discovery_due_def sample_sched_def threadDiscoveryInterval_def)

lemma sample_round:
  "\<exists>s' sleep. due_round (sw_round sample_world 0) (sw_poll sample_world 0) (sw_now sample_world 0)
      (sw_after sample_world 0) sample_sched = Inr (s', sleep)"
  by (simp add: due_round_def Let_def sample_world_def sample_discover list_threads_def
      ThreadState_ListForLogin_def)

lemma sample_known: "known sample_outside (sc_sync sample_sched) i \<longleftrightarrow> i = ''t''"
  by (auto simp: known_def sample_sched_def poll_sync_def)

text \<open>
  C4: a pass polls every thread that is due, once, and no other. In every pass of every run, the thread
  IDs polled are pairwise different, and a thread is among them exactly if the database lists it
  after this pass's discovery and its next poll is not in the future; a thread seen for the first
  time is due at once.
\<close>

theorem due_threads_polled_once:
  assumes "tables_ok (sc_sync s\<^sub>0)" and "sched_reach W s\<^sub>0 k s"
    and "due_round (sw_round W k) (sw_poll W k) (sw_now W k) (sw_after W k) s = Inr (s', sleep)"
  shows "distinct (pass_polls (sw_round W k) (sw_poll W k) (sw_now W k) s)
    \<and> (\<forall>i. i \<in> set (pass_polls (sw_round W k) (sw_poll W k) (sw_now W k) s)
        \<longleftrightarrow> known (sw_round W k) (sc_sync (discover (sw_round W k) (sw_now W k) s)) i
          \<and> ps_nextPoll (state_at (sw_now W k) (sc_states s) i) \<le> sw_now W k)"
proof -
  from assms(3) obtain threads where l:
    "list_threads (sw_round W k) (sc_sync (discover (sw_round W k) (sw_now W k) s)) = Inr threads"
    by (rule due_round_parts)
  note p = pass_polls_eq [OF sched_reach_tables [OF assms(2,1)] l]
  have "i \<in> set (pass_polls (sw_round W k) (sw_poll W k) (sw_now W k) s)
      \<longleftrightarrow> i \<noteq> [] \<and> i \<in> ts_ThreadID ` set threads
        \<and> ps_nextPoll (state_at (sw_now W k) (sc_states s) i) \<le> sw_now W k" for i
    by (auto simp: p(1) due_def)
  with p list_threads_known [OF l] show ?thesis
    by (auto simp: distinct_map_filter known_def)
qed

theorem due_threads_polled_once_witness:
  "\<forall>i. i \<in> set (pass_polls sample_outside (\<lambda>_. sample_outside) 0 sample_sched) \<longleftrightarrow> i = ''t''"
proof -
  obtain s' sleep where r: "due_round (sw_round sample_world 0) (sw_poll sample_world 0)
      (sw_now sample_world 0) (sw_after sample_world 0) sample_sched = Inr (s', sleep)"
    using sample_round by blast
  have "state_at 0 (sc_states sample_sched) i = \<lparr>ps_backoff = fresh_backoff, ps_nextPoll = 0\<rparr>" for i
    by (simp add: state_at_def sample_sched_def)
  with due_threads_polled_once [OF sample_sched_ok sched_reach.start r] show ?thesis
    by (simp add: sample_world_def sample_discover sample_known)
qed

text \<open>
  The loop sleeps long enough not to spin and short enough not to be late. Between two passes it
  sleeps at least 100 milliseconds and at most five seconds, and it wakes up no later than the
  next poll of any known thread, or after those 100 milliseconds.
\<close>

theorem pass_sleeps:
  assumes "tables_ok (sc_sync s\<^sub>0)" and "sched_reach W s\<^sub>0 k s" and "sw_now W k \<le> sw_after W k"
    and "due_round (sw_round W k) (sw_poll W k) (sw_now W k) (sw_after W k) s = Inr (s', sleep)"
  shows "minSleep \<le> sleep \<and> sleep \<le> wakeInterval
    \<and> (\<forall>i. known (sw_round W k) (sc_sync (discover (sw_round W k) (sw_now W k) s)) i
        \<longrightarrow> (\<exists>ps. sc_states s' i = Some ps
             \<and> sw_after W k + sleep \<le> max (ps_nextPoll ps) (sw_after W k + minSleep)))"
proof -
  let ?s = "discover (sw_round W k) (sw_now W k) s"
  from assms(4) obtain threads acc where l: "list_threads (sw_round W k) (sc_sync ?s) = Inr threads"
    and acc: "acc = poll_due_all (sw_poll W k) (sw_now W k) (sc_states s) (sc_sync ?s) threads"
    and s': "sc_states s' = da_states acc" and sleep: "sleep = max minSleep (da_wake acc - sw_after W k)"
    by (rule due_round_parts)
  have w: "da_wake acc \<le> sw_now W k + wakeInterval"
    unfolding acc poll_due_all_def by (rule order_trans [OF fold_wake]) simp
  have "\<exists>ps. sc_states s' i = Some ps \<and> sw_after W k + sleep \<le> max (ps_nextPoll ps) (sw_after W k + minSleep)"
    if i: "known (sw_round W k) (sc_sync ?s) i" for i
  proof -
    from i list_threads_known [OF l] obtain th where "th \<in> set threads" "ts_ThreadID th = i" "i \<noteq> []"
      by (auto simp: known_def)
    with fold_plans [OF pass_polls_eq(2) [OF sched_reach_tables [OF assms(2,1)] l]] have "planned acc i"
      by (auto simp: acc poll_due_all_def)
    then show ?thesis by (auto simp: planned_def s' sleep)
  qed
  moreover have "sleep \<le> wakeInterval"
    using w assms(3) by (simp add: sleep minSleep_def wakeInterval_def)
  ultimately show ?thesis by (simp add: sleep)
qed

theorem pass_sleeps_witness:
  "\<exists>s' sleep ps. due_round sample_outside (\<lambda>_. sample_outside) 0 1 sample_sched = Inr (s', sleep)
     \<and> sleep \<le> wakeInterval \<and> sc_states s' ''t'' = Some ps"
proof -
  obtain s' sleep where r: "due_round (sw_round sample_world 0) (sw_poll sample_world 0)
      (sw_now sample_world 0) (sw_after sample_world 0) sample_sched = Inr (s', sleep)"
    using sample_round by blast
  from pass_sleeps [OF sample_sched_ok sched_reach.start _ r] r show ?thesis
    by (simp add: sample_world_def sample_discover sample_known) blast
qed




text \<open>
  Cancelling ends the loop. If the context is cancelled by pass \<open>n\<close>, the call returns after at most
  \<open>n\<close> passes, whatever the servers and the database do, with an error.
\<close>

theorem cancel_ends_loop:
  assumes "sw_err W n = Some e"
  shows "\<exists>err st'. pollDueThreads W E ok st = Some (err, st')"
proof (cases "list_threads E st")
  case (Inr threads)
  from due_loop_cancelled [OF assms, of 0] show ?thesis by (auto simp: pollDueThreads_def Inr)
qed (auto simp: pollDueThreads_def)

theorem cancel_ends_loop_witness:
  "\<exists>err st'. pollDueThreads sample_world sample_outside True poll_sync = Some (err, st')"
  by (rule cancel_ends_loop [of sample_world 5 Canceled]) (simp add: sample_world_def)

end
