(* ===== verification/Matrix.thy ===== *)
theory Matrix
  imports Attachments Scheduler
begin

text \<open>
  Matrix to Teams: the handlers of \<open>pkg/connector/handlematrix.go\<close> (messages, reactions, typing, read
  receipts), GIF detection (\<open>gif.go\<close>), Matrix media (\<open>matrix_media.go\<close>), outbound attachments
  (\<open>send_attachment.go\<close>), and chat and user information of \<open>client.go\<close>.

  A \<open>Bridge\<close> is the client of theory \<open>Polling\<close> with the counter of client message IDs, the pending
  messages that the bridge framework keeps per transaction ID, and the logs of all executions of the
  Graph and the Teams client. Since an upload may run forever, sending a message returns an option.
  \<open>ErrNotLoggedIn\<close> and the like are error values of the framework, named by their Go names.
\<close>

section \<open>State and environment\<close>

record PendingMessage =
  pm_ID :: string
  pm_SenderID :: string
  pm_Timestamp :: instant

record Bridge =
  br_sync :: Sync
  br_counter :: int64
  br_pending :: "(string \<times> PendingMessage) list"
  br_log :: net_log

text \<open>
  The Matrix side: whether its client can be used, MXC URIs and their file IDs, downloads (with the
  content length announced), and decryption.
\<close>

record matrix_lib =
  ml_unusable :: "go_error option"
  ml_parse :: "string \<Rightarrow> go_error + string"
  ml_download :: "string \<Rightarrow> go_error + (int \<times> response) option"
  ml_decrypt :: "string \<Rightarrow> string \<Rightarrow> go_error + string"

record handler_env =
  he_out :: "nat \<Rightarrow> outside" \<comment> \<open>one per check of the credentials\<close>
  he_teams :: envs
  he_graph :: envs
  he_time :: string
  he_clock :: int64
  he_now :: instant
  he_matrix :: matrix_lib
  he_fq :: "string \<Rightarrow> string"

abbreviation he_lib :: "handler_env \<Rightarrow> golib" where "he_lib X \<equiv> o_lib (he_out X 0)"
abbreviation he_until :: "handler_env \<Rightarrow> string \<Rightarrow> duration option" where "he_until X \<equiv> o_until (he_out X 0)"

definition ErrNotLoggedIn :: go_error where "ErrNotLoggedIn = ErrNew ''bridgev2.ErrNotLoggedIn''"
definition ErrUnsupportedMessageType :: go_error where
  "ErrUnsupportedMessageType = ErrNew ''bridgev2.ErrUnsupportedMessageType''"
definition ErrTargetMessageNotFound :: go_error where
  "ErrTargetMessageNotFound = ErrNew ''bridgev2.ErrTargetMessageNotFound''"
definition errUnsupportedReactionEmoji :: go_error where
  "errUnsupportedReactionEmoji = ErrNew ''unsupported reaction emoji''"

definition teams_user_id :: "Bridge \<Rightarrow> string" where
  "teams_user_id b = (case se_Meta (sy_session (br_sync b)) of Some m \<Rightarrow> um_TeamsUserID m | None \<Rightarrow> [])"

text \<open>What every handler does first: is the user logged in, and is there a valid Skype token?\<close>

definition admit :: "outside \<Rightarrow> Bridge \<Rightarrow> go_error option \<times> Bridge" where
  "admit E b =
     (if \<not> IsLoggedIn (sy_session (br_sync b)) (o_now E) then (Some ErrNotLoggedIn, b)
      else (case ensureValidSkypeToken (o_lib E) (o_http E) (o_clk E) (o_save_fault E) (o_config E)
                   (sy_session (br_sync b)) of
              (err, s) \<Rightarrow> (err, b\<lparr>br_sync := (br_sync b)\<lparr>sy_session := s\<rparr>\<rparr>)))"

text \<open>One call of the Teams client, with the environment of its number.\<close>

definition teams_call ::
  "handler_env \<Rightarrow> (exec_env \<Rightarrow> Client option \<Rightarrow> call) \<Rightarrow> Bridge \<Rightarrow> go_error option \<times> Bridge" where
  "teams_call X f b =
     (case f (he_teams X (length (snd (br_log b)))) (Some (newConsumer (sy_session (br_sync b)))) of
        (_, _, err, log) \<Rightarrow> (err, b\<lparr>br_log := (fst (br_log b), snd (br_log b) @ [log])\<rparr>))"

definition record_self :: "instant \<Rightarrow> string \<Rightarrow> Bridge \<Rightarrow> Bridge" where
  "record_self now i b =
     b\<lparr>br_sync := (br_sync b)\<lparr>sy_selfMessages := recordSelfMessage now i (sy_selfMessages (br_sync b))\<rparr>\<rparr>"

section \<open>GIFs\<close>

definition parseDirectGIFURL :: "golib \<Rightarrow> string \<Rightarrow> string option" where
  "parseDirectGIFURL L value =
     (case lib_url L (trim_space value) of
        None \<Rightarrow> None
      | Some parsed \<Rightarrow>
          if lower L (url_scheme parsed) \<in> {''http'', ''https''} then
            (if has_suffix (lower L (url_path parsed)) ''.gif'' then Some (url_string parsed) else None)
          else None)"

definition looksLikeGIFMessage :: "golib \<Rightarrow> MatrixContent \<Rightarrow> bool" where
  "looksLikeGIFMessage L m =
     (if (case mx_MimeType m of Some t \<Rightarrow> eq_fold L (trim_space t) ''image/gif'' | None \<Rightarrow> False) then True
      else if has_suffix (lower L (trim_space (mx_FileName m))) ''.gif'' then True
      else if has_suffix (lower L (trim_space (mx_Body m))) ''.gif'' then True
      else parseDirectGIFURL L (trim_space (mx_URL m)) \<noteq> None)"

definition extractOutboundGIF :: "golib \<Rightarrow> MatrixContent option \<Rightarrow> (string \<times> string) option" where
  "extractOutboundGIF L content =
     (case content of None \<Rightarrow> None
      | Some m \<Rightarrow>
          if \<not> looksLikeGIFMessage L m then None
          else
            (let title = trim_space (mx_FileName m);
                 title = (if title = [] then trim_space (mx_Body m) else title);
                 title = (if title = [] then ''GIF'' else title)
             in case parseDirectGIFURL L (trim_space (mx_URL m)) of
                  Some u \<Rightarrow> Some (title, u)
                | None \<Rightarrow>
                  (case parseDirectGIFURL L (trim_space (mx_Body m)) of
                     Some u \<Rightarrow> Some (title, u)
                   | None \<Rightarrow> None)))"

section \<open>Matrix media\<close>

definition downloadMatrixMedia :: "matrix_lib \<Rightarrow> string \<Rightarrow> bool \<Rightarrow> go_error + string" where
  "downloadMatrixMedia M mxcURL encrypted =
     (let mxcURL = trim_space mxcURL
      in if mxcURL = [] then Inl (ErrNew ''missing mxc url'')
         else case ml_unusable M of Some err \<Rightarrow> Inl err
         | None \<Rightarrow>
           (case ml_parse M mxcURL of
              Inl err \<Rightarrow> Inl err
            | Inr _ \<Rightarrow>
              (case ml_download M mxcURL of
                 Inl err \<Rightarrow> Inl err
               | Inr None \<Rightarrow> Inl (ErrNew ''download returned empty response'')
               | Inr (Some (contentLength, resp)) \<Rightarrow>
                   if MaxAttachmentBytesV0 < contentLength then Inl (ErrNew ''attachment exceeds max size'')
                   else
                     (case read_limited (nat (MaxAttachmentBytesV0 + 1)) resp of
                        (_, Some err) \<Rightarrow> Inl err
                      | (data, None) \<Rightarrow>
                          if MaxAttachmentBytesV0 < int (length data)
                            then Inl (ErrNew ''attachment exceeds max size'')
                          else if data = [] \<and> 200 \<le> resp_status resp \<and> resp_status resp < 300
                            then Inl (ErrNew ''downloaded media is empty'')
                          else if encrypted then ml_decrypt M mxcURL data
                          else Inr data))))"

definition DownloadMatrixMedia :: "matrix_lib \<Rightarrow> string \<Rightarrow> go_error + string" where
  "DownloadMatrixMedia M mxcURL = downloadMatrixMedia M mxcURL False"

section \<open>Attachments\<close>

definition attachment_orchestrator :: "string \<Rightarrow> string \<Rightarrow> AttachmentOrchestrator" where
  "attachment_orchestrator fromUserID i =
     \<lparr>ao_has_graph = True, ao_has_teams = True, ao_FromUserID = trim_space fromUserID,
      ao_MaxBytes = MaxAttachmentBytesV0, ao_GenerateMessageID = i, ao_FormatCaption = None\<rparr>"

text \<open>\<open>n\<close> is the number of the check of the credentials. An ID is drawn only if none is given.\<close>

definition sendAttachmentMessageWithClientMessageID ::
  "handler_env \<Rightarrow> nat \<Rightarrow> string \<Rightarrow> string \<Rightarrow> string \<Rightarrow> string \<Rightarrow> string \<Rightarrow> Bridge
     \<Rightarrow> ((go_error + string) \<times> Bridge) option" where
  "sendAttachmentMessageWithClientMessageID X n threadID filename content caption clientMessageID b =
     (case admit (he_out X n) b of
        (Some err, b) \<Rightarrow> Some (Inl err, b)
      | (None, b) \<Rightarrow>
        (let threadID = trim_space threadID; filename = trim_space filename
         in if threadID = [] then Some (Inl (ErrNew ''missing thread id''), b)
            else if filename = [] then Some (Inl (ErrNew ''missing filename''), b)
            else if content = [] then Some (Inl (ErrNew ''missing content''), b)
            else if MaxAttachmentBytesV0 < int (length content)
              then Some (Inl (ErrNew ''attachment exceeds max size''), b)
            else
              (case GetGraphAccessToken (se_Meta (sy_session (br_sync b))) (o_now (he_out X n)) of
                 Inl err \<Rightarrow> Some (Inl err, b)
               | Inr graphToken \<Rightarrow>
                 (let gc = (NewGraphClient True)\<lparr>gc_AccessToken := graphToken\<rparr>;
                      tc = newConsumer (sy_session (br_sync b));
                      (i, counter) = (if trim_space clientMessageID \<noteq> []
                                      then (trim_space clientMessageID, br_counter b)
                                      else GenerateClientMessageID (he_clock X) (br_counter b));
                      orch = attachment_orchestrator (teams_user_id b) i;
                      b = (if orchestrator_guard orch threadID filename content = None
                           then b\<lparr>br_counter := counter\<rparr> else b)
                  in case Orchestrator_SendAttachmentMessage (he_lib X)
                            (client_apis (he_lib X) (he_graph X) (he_teams X) (he_until X) (he_time X) gc tc)
                            orch threadID filename content caption (br_log b) of
                       None \<Rightarrow> None
                     | Some (Inl err, log) \<Rightarrow> Some (Inl err, b\<lparr>br_log := log\<rparr>)
                     | Some (Inr sentID, log) \<Rightarrow>
                         Some (Inr sentID, record_self (he_now X) sentID (b\<lparr>br_log := log\<rparr>))))))"

definition error_of :: "go_error + 'a \<Rightarrow> go_error option" where
  "error_of r = (case r of Inl e \<Rightarrow> Some e | Inr _ \<Rightarrow> None)"

definition SendAttachmentMessage ::
  "handler_env \<Rightarrow> string \<Rightarrow> string \<Rightarrow> string \<Rightarrow> string \<Rightarrow> Bridge \<Rightarrow> (go_error option \<times> Bridge) option" where
  "SendAttachmentMessage X threadID filename content caption b =
     map_option (\<lambda>(r, b). (error_of r, b))
       (sendAttachmentMessageWithClientMessageID X 0 threadID filename content caption [] b)"

section \<open>Messages\<close>

record MatrixMessage =
  mm_PortalID :: string
  mm_Content :: "MatrixContent option"

record MessageResponse =
  mp_DB :: PendingMessage
  mp_Pending :: bool
  mp_StreamOrder :: int

definition add_pending :: "string \<Rightarrow> PendingMessage \<Rightarrow> Bridge \<Rightarrow> Bridge" where
  "add_pending i p b = b\<lparr>br_pending := AList.update i p (br_pending b)\<rparr>"

definition remove_pending :: "string \<Rightarrow> Bridge \<Rightarrow> Bridge" where
  "remove_pending i b = b\<lparr>br_pending := AList.delete i (br_pending b)\<rparr>"

definition send_file ::
  "handler_env \<Rightarrow> string \<Rightarrow> MatrixContent \<Rightarrow> string \<Rightarrow> Bridge \<Rightarrow> (go_error option \<times> Bridge) option" where
  "send_file X threadID m clientMessageID b =
     HandleOutboundMatrixFile
       (\<lambda>u. case ml_parse (he_matrix X) u of Inr i \<Rightarrow> Some i | Inl _ \<Rightarrow> None) threadID (Some m)
       (downloadMatrixMedia (he_matrix X))
       (\<lambda>threadID filename content caption b.
          map_option (\<lambda>(r, b). (error_of r, b))
            (sendAttachmentMessageWithClientMessageID X 1 threadID filename content caption clientMessageID b)) b"

text \<open>The switch over the message type; the outer \<open>None\<close> is a type it does not know.\<close>

definition send_content ::
  "handler_env \<Rightarrow> string \<Rightarrow> MatrixContent \<Rightarrow> string \<Rightarrow> Bridge \<Rightarrow> (go_error option \<times> Bridge) option option" where
  "send_content X threadID m clientMessageID b =
     (case mx_MsgType m of
        MsgText \<Rightarrow>
          Some (Some (teams_call X (\<lambda>E c. SendMessageWithID (he_lib X) E (he_until X) (he_time X) c threadID
            (mx_Body m) (teams_user_id b) clientMessageID) b))
      | MsgImage \<Rightarrow>
          Some (case extractOutboundGIF (he_lib X) (Some m) of
                  None \<Rightarrow> send_file X threadID m clientMessageID b
                | Some (title, gifURL) \<Rightarrow>
                    Some (teams_call X (\<lambda>E c. SendGIFWithID (he_lib X) E (he_until X) (he_time X) c threadID
                      gifURL title (teams_user_id b) clientMessageID) b))
      | MsgFile \<Rightarrow> Some (send_file X threadID m clientMessageID b)
      | MsgVideo \<Rightarrow> Some (send_file X threadID m clientMessageID b)
      | MsgAudio \<Rightarrow> Some (send_file X threadID m clientMessageID b)
      | MsgOther _ \<Rightarrow> None)"

definition HandleMatrixMessage ::
  "handler_env \<Rightarrow> MatrixMessage \<Rightarrow> Bridge \<Rightarrow> ((go_error + MessageResponse) \<times> Bridge) option" where
  "HandleMatrixMessage X msg b =
     (case admit (he_out X 0) b of
        (Some err, b) \<Rightarrow> Some (Inl err, b)
      | (None, b) \<Rightarrow>
        (case mm_Content msg of
           None \<Rightarrow> Some (Inl ErrUnsupportedMessageType, b)
         | Some m \<Rightarrow>
           (let threadID = trim_space (mm_PortalID msg)
            in if threadID = [] then Some (Inl (ErrNew ''missing thread id''), b)
               else
                 (let (i, counter) = GenerateClientMessageID (he_clock X) (br_counter b);
                      pending = \<lparr>pm_ID = i, pm_SenderID = teamsUserIDToNetworkUserID (teams_user_id b),
                                 pm_Timestamp = he_now X\<rparr>;
                      b = add_pending i pending (b\<lparr>br_counter := counter\<rparr>)
                  in case send_content X threadID m i b of
                       None \<Rightarrow> Some (Inl ErrUnsupportedMessageType, b)
                     | Some None \<Rightarrow> None
                     | Some (Some (Some err, b)) \<Rightarrow> Some (Inl err, remove_pending i b)
                     | Some (Some (None, b)) \<Rightarrow>
                         Some (Inr \<lparr>mp_DB = pending, mp_Pending = True, mp_StreamOrder = unix_milli (he_now X)\<rparr>,
                               record_self (he_now X) i b)))))"

section \<open>Reactions\<close>

record MatrixReaction =
  mre_PortalID :: string
  mre_Key :: "string option" \<comment> \<open>the key of the relation; \<open>None\<close> without content\<close>
  mre_Target :: "string option"
  mre_Pre :: "(string \<times> string) option" \<comment> \<open>emoji ID and emoji of the pre-handler\<close>

definition PreHandleMatrixReaction ::
  "handler_env \<Rightarrow> MatrixReaction \<Rightarrow> Bridge \<Rightarrow> (go_error + string \<times> string \<times> string) \<times> Bridge" where
  "PreHandleMatrixReaction X msg b =
     (case admit (he_out X 0) b of
        (Some err, b) \<Rightarrow> (Inl err, b)
      | (None, b) \<Rightarrow>
        (case mre_Key msg of
           None \<Rightarrow> (Inl (ErrNew ''missing reaction content''), b)
         | Some key \<Rightarrow>
             if trim_space (teams_user_id b) = [] then (Inl (ErrNew ''missing teams user id''), b)
             else
               (case MapEmojiToEmotionKey (he_fq X) (trim_space key) of
                  None \<Rightarrow> (Inl errUnsupportedReactionEmoji, b)
                | Some emotionKey \<Rightarrow>
                    (Inr (teamsUserIDToNetworkUserID (teams_user_id b), emotionKey, trim_space key), b))))"

text \<open>The emotion key and the emoji a reaction is sent with.\<close>

definition chosen_emotion :: "handler_env \<Rightarrow> MatrixReaction \<Rightarrow> string \<Rightarrow> (string \<times> string) option" where
  "chosen_emotion X msg key =
     (let emoji = trim_space key;
          (emotionKey, emoji) =
            (case mre_Pre msg of
               Some (i, e) \<Rightarrow> if i \<noteq> [] then (i, if e \<noteq> [] then e else emoji) else ([], emoji)
             | None \<Rightarrow> ([], emoji))
      in if emotionKey = []
         then map_option (\<lambda>k. (k, emoji)) (MapEmojiToEmotionKey (he_fq X) emoji)
         else Some (emotionKey, emoji))"

definition HandleMatrixReaction ::
  "handler_env \<Rightarrow> MatrixReaction \<Rightarrow> Bridge \<Rightarrow> (go_error + string \<times> string) \<times> Bridge" where
  "HandleMatrixReaction X msg b =
     (case admit (he_out X 0) b of
        (Some err, b) \<Rightarrow> (Inl err, b)
      | (None, b) \<Rightarrow>
        (case mre_Key msg of
           None \<Rightarrow> (Inl (ErrNew ''missing reaction content''), b)
         | Some key \<Rightarrow>
           (case mre_Target msg of
              None \<Rightarrow> (Inl ErrTargetMessageNotFound, b)
            | Some target \<Rightarrow>
                if target = [] then (Inl ErrTargetMessageNotFound, b)
                else
                  (let threadID = trim_space (mre_PortalID msg)
                   in if threadID = [] then (Inl (ErrNew ''missing thread id''), b)
                      else case chosen_emotion X msg key of
                        None \<Rightarrow> (Inl errUnsupportedReactionEmoji, b)
                      | Some (emotionKey, emoji) \<Rightarrow>
                        (let teamsMessageID = NormalizeTeamsReactionTargetMessageID target
                         in if teamsMessageID = []
                            then (Inl (ErrNew ''missing teams message id for reaction target''), b)
                            else
                              (case teams_call X (\<lambda>E c. AddReaction (he_lib X) E (he_until X) c threadID
                                      teamsMessageID emotionKey (unix_milli (he_now X))) b of
                                 (Some err, b) \<Rightarrow> (Inl err, b)
                               | (None, b) \<Rightarrow> (Inr (emotionKey, emoji), b)))))))"

record TargetReaction =
  tre_EmojiID :: string
  tre_Emoji :: string
  tre_MessageID :: string

definition HandleMatrixReactionRemove ::
  "handler_env \<Rightarrow> string \<Rightarrow> TargetReaction option \<Rightarrow> Bridge \<Rightarrow> go_error option \<times> Bridge" where
  "HandleMatrixReactionRemove X portalID target b =
     (case admit (he_out X 0) b of
        (Some err, b) \<Rightarrow> (Some err, b)
      | (None, b) \<Rightarrow>
        (case target of
           None \<Rightarrow> (None, b)
         | Some r \<Rightarrow>
           (let threadID = trim_space portalID
            in if threadID = [] then (Some (ErrNew ''missing thread id''), b)
               else
                 (case (if trim_space (tre_EmojiID r) \<noteq> [] then Some (trim_space (tre_EmojiID r))
                        else MapEmojiToEmotionKey (he_fq X) (tre_Emoji r)) of
                    None \<Rightarrow> (None, b)
                  | Some emotionKey \<Rightarrow>
                    (let teamsMessageID = NormalizeTeamsReactionTargetMessageID (tre_MessageID r)
                     in if teamsMessageID = []
                        then (Some (ErrNew ''missing teams message id for reaction removal''), b)
                        else teams_call X (\<lambda>E c. RemoveReaction (he_lib X) E (he_until X) c threadID
                               teamsMessageID emotionKey) b)))))"

section \<open>Typing and read receipts\<close>

definition HandleMatrixTyping :: "handler_env \<Rightarrow> string \<Rightarrow> bool \<Rightarrow> Bridge \<Rightarrow> go_error option \<times> Bridge" where
  "HandleMatrixTyping X portalID isTyping b =
     (case admit (he_out X 0) b of
        (Some err, b) \<Rightarrow> (Some err, b)
      | (None, b) \<Rightarrow>
          if \<not> isTyping then (None, b)
          else
            (let threadID = trim_space portalID
             in if threadID = [] then (Some (ErrNew ''missing thread id''), b)
                else
                  (let (i, counter) = GenerateClientMessageID (he_clock X) (br_counter b);
                       drawn = (case client_ready (Some (newConsumer (sy_session (br_sync b)))) of
                                  Inl _ \<Rightarrow> False | Inr _ \<Rightarrow> trim_space (teams_user_id b) \<noteq> [])
                   in teams_call X (\<lambda>E c. SendTypingIndicator (he_lib X) E (he_until X) (he_time X) i c threadID
                        (teams_user_id b)) (if drawn then b\<lparr>br_counter := counter\<rparr> else b))))"

definition HandleMatrixReadReceipt :: "handler_env \<Rightarrow> string \<Rightarrow> Bridge \<Rightarrow> go_error option \<times> Bridge" where
  "HandleMatrixReadReceipt X portalID b =
     (case admit (he_out X 0) b of
        (Some err, b) \<Rightarrow> (Some err, b)
      | (None, b) \<Rightarrow>
        (let threadID = trim_space portalID
         in if threadID = [] then (Some (ErrNew ''missing thread id''), b)
            else
              (let (send, unreadSent) =
                     shouldSendReceipt threadID (sy_unreadSeen (br_sync b)) (sy_unreadSent (br_sync b));
                   b = b\<lparr>br_sync := (br_sync b)\<lparr>sy_unreadSent := unreadSent\<rparr>\<rparr>
               in if \<not> send then (None, b)
                  else teams_call X (\<lambda>E c. SetConsumptionHorizon (he_lib X) E (he_until X) c threadID
                         (ConsumptionHorizonNow (he_now X))) b)))"

section \<open>Chats and users\<close>

definition GetChatInfo ::
  "outside \<Rightarrow> string \<Rightarrow> Sync \<Rightarrow> go_error + string \<times> bool option" where
  "GetChatInfo E portalID st =
     (let threadID = trim_space portalID
      in if threadID = [] then Inl (ErrNew ''missing thread id'')
         else case ThreadState_Get (Some (o_bridge E)) (o_fault E ''thread.get'') (o_login E) threadID
                     (sy_threads st) of
           Inl err \<Rightarrow> Inl err
         | Inr None \<Rightarrow> Inr (''Chat'', None)
         | Inr (Some row) \<Rightarrow> Inr (ts_Name row, Some (ts_IsOneToOne row)))"

definition GetUserInfo :: "outside \<Rightarrow> string \<Rightarrow> Sync \<Rightarrow> go_error + string" where
  "GetUserInfo E ghostID st =
     (case Profile_GetByTeamsUserID (Some (o_bridge E)) (o_fault E ''profile.get'') ghostID (sy_profiles st) of
        Inl err \<Rightarrow> Inl err
      | Inr None \<Rightarrow> Inr ghostID
      | Inr (Some profile) \<Rightarrow>
          Inr (if trim_space (pr_DisplayName profile) = [] then ghostID else pr_DisplayName profile))"

definition ConnectBackground ::
  "outside \<Rightarrow> outside \<Rightarrow> (nat \<Rightarrow> outside) \<Rightarrow> (nat \<Rightarrow> instant) \<Rightarrow> Sync \<Rightarrow> go_error option \<times> Sync" where
  "ConnectBackground E E' P clk st =
     (case ensureValidSkypeToken (o_lib E) (o_http E) (o_clk E) (o_save_fault E) (o_config E) (sy_session st) of
        (Some err, s) \<Rightarrow> (Some err, st\<lparr>sy_session := s\<rparr>)
      | (None, s) \<Rightarrow> syncOnce E' P clk (st\<lparr>sy_session := s\<rparr>))"

section \<open>What the handlers leave alone\<close>

lemma teams_call_frame:
  assumes "teams_call X f b = (err, b')"
  shows "br_sync b' = br_sync b" "br_pending b' = br_pending b" "br_counter b' = br_counter b"
    "fst (br_log b') = fst (br_log b)" "\<exists>log. snd (br_log b') = snd (br_log b) @ [log]"
  using assms by (auto simp: teams_call_def split: prod.splits)

lemma admit_frame:
  assumes "admit E b = (err, b')"
  shows "br_pending b' = br_pending b" "br_counter b' = br_counter b" "br_log b' = br_log b"
    "sy_selfMessages (br_sync b') = sy_selfMessages (br_sync b)"
    "sy_unreadSeen (br_sync b') = sy_unreadSeen (br_sync b)"
    "sy_unreadSent (br_sync b') = sy_unreadSent (br_sync b)"
  using assms by (auto simp: admit_def split: prod.splits if_splits)

lemma record_self_pending [simp]: "br_pending (record_self now i b) = br_pending b"
  by (simp add: record_self_def)

lemma sendAttachment_pending:
  "sendAttachmentMessageWithClientMessageID X n t f content caption i b = Some (r, b') \<Longrightarrow>
     br_pending b' = br_pending b"
  by (auto simp: sendAttachmentMessageWithClientMessageID_def Let_def split: prod.splits option.splits sum.splits
      if_splits dest: admit_frame)

lemma send_file_pending: "send_file X t m i b = Some (r, b') \<Longrightarrow> br_pending b' = br_pending b"
  by (auto simp: send_file_def HandleOutboundMatrixFile_def split: sum.splits if_splits prod.splits
      dest: sendAttachment_pending)

lemma send_content_pending: "send_content X t m i b = Some (Some (r, b')) \<Longrightarrow> br_pending b' = br_pending b"
  by (auto simp: send_content_def split: MsgType.splits option.splits
      dest: teams_call_frame(2) send_file_pending intro: teams_call_frame(2) [OF sym])

section \<open>Properties\<close>


text \<open>A handler environment for the examples: everything is answered with 201.\<close>

definition sample_handler :: handler_env where
  "sample_handler = \<lparr>he_out = \<lambda>_. sample_outside, he_teams = \<lambda>_. replying (body_reply 201 []),
     he_graph = \<lambda>_. replying (body_reply 201 ''item''), he_time = ''now'', he_clock = 77, he_now = 0,
     he_matrix = \<lparr>ml_unusable = None, ml_parse = \<lambda>_. Inr ''id'',
       ml_download = \<lambda>_. Inr (Some (3, body_reply 200 ''abc'')), ml_decrypt = \<lambda>_ d. Inr d\<rparr>,
     he_fq = \<lambda>s. s\<rparr>"

definition sample_bridge :: Bridge where
  "sample_bridge = \<lparr>br_sync = poll_sync, br_counter = 0, br_pending = [], br_log = ([], [])\<rparr>"

definition text_content :: "string \<Rightarrow> MatrixContent" where
  "text_content s = \<lparr>mx_MsgType = MsgText, mx_Body = s, mx_FileName = [], mx_URL = [], mx_File = None,
     mx_MimeType = None, mx_name = [], mx_caption = []\<rparr>"

definition text_message :: MatrixMessage where
  "text_message = \<lparr>mm_PortalID = ''t'', mm_Content = Some (text_content ''hi'')\<rparr>"

lemma sample_admit: "admit sample_outside sample_bridge = (None, sample_bridge)"
proof -
  have "IsLoggedIn poll_session t" for t by (simp add: IsLoggedIn_def poll_session_def)
  with poll_session_fresh show ?thesis
    by (simp add: admit_def sample_bridge_def poll_sync_def) (simp add: poll_outside_def)
qed

lemma sample_send_ok:
  "\<exists>c st log. SendMessageWithID poll_lib (replying (body_reply 201 [])) (\<lambda>_. None) ''now''
     (Some (newConsumer poll_session)) ''t'' ''hi'' ''8:me'' ''77'' = (c, st, None, log)"
proof -
  have "fst (snd (snd (SendMessageWithID poll_lib (replying (body_reply 201 [])) (\<lambda>_. None) ''now''
     (Some (newConsumer poll_session)) ''t'' ''hi'' ''8:me'' ''77''))) = None" by code_simp
  then show ?thesis
    by (cases "SendMessageWithID poll_lib (replying (body_reply 201 [])) (\<lambda>_. None) ''now''
     (Some (newConsumer poll_session)) ''t'' ''hi'' ''8:me'' ''77''") auto
qed

lemma sample_id: "GenerateClientMessageID 77 0 = (''77'', 77)"
  by code_simp

lemma sample_handler_simps [simp]:
  "he_out sample_handler n = sample_outside" "he_clock sample_handler = 77" "he_now sample_handler = 0"
  "he_time sample_handler = ''now''" "he_teams sample_handler k = replying (body_reply 201 [])"
  "o_until (poll_outside srt) = (\<lambda>_. None)"
  by (simp_all add: sample_handler_def poll_outside_def)

lemma sample_bridge_simps [simp]:
  "br_counter sample_bridge = 0" "br_pending sample_bridge = []" "br_log sample_bridge = ([], [])"
  "br_sync sample_bridge = poll_sync"
  by (simp_all add: sample_bridge_def)

lemma sample_message_sent:
  "\<exists>b'. HandleMatrixMessage sample_handler text_message sample_bridge = Some (Inr \<lparr>mp_DB = \<lparr>pm_ID = ''77'',
     pm_SenderID = ''8:me'', pm_Timestamp = 0\<rparr>, mp_Pending = True, mp_StreamOrder = 0\<rparr>, b')"
proof -
  have t: "trim_space ''t'' = ''t''" "teamsUserIDToNetworkUserID ''8:me'' = ''8:me''" by code_simp+
  have u: "teams_user_id (b\<lparr>br_counter := n, br_pending := ps\<rparr>) = teams_user_id b"
    "teams_user_id sample_bridge = ''8:me''" for b n ps
    by (simp_all add: teams_user_id_def poll_sync_session) (simp add: poll_session_def)
  show ?thesis
    using sample_send_ok
    by (auto simp: HandleMatrixMessage_def sample_admit text_message_def text_content_def t u sample_id
        send_content_def teams_call_def poll_sync_session add_pending_def unix_milli_def Let_def)
qed


text \<open>
  A message of a type that cannot be sent stays pending. The handler has announced it as pending before
  it looks at its type, and it does not withdraw it when it refuses the type.
\<close>

theorem unsupported_stays_pending:
  assumes "admit (he_out X 0) b = (None, b1)" and "mm_Content msg = Some m" and "mx_MsgType m = MsgOther t"
    and "trim_space (mm_PortalID msg) \<noteq> []"
  shows "\<exists>b' i p. HandleMatrixMessage X msg b = Some (Inl ErrUnsupportedMessageType, b')
    \<and> i = fst (GenerateClientMessageID (he_clock X) (br_counter b)) \<and> map_of (br_pending b') i = Some p
    \<and> pm_ID p = i"
  using assms admit_frame(2) [OF assms(1)]
  by (simp add: HandleMatrixMessage_def Let_def send_content_def add_pending_def update_conv' split: prod.split)

theorem unsupported_stays_pending_witness:
  "\<exists>b' p. HandleMatrixMessage sample_handler \<lparr>mm_PortalID = ''t'', mm_Content = Some ((text_content ''hi'')
      \<lparr>mx_MsgType := MsgOther ''m.location''\<rparr>)\<rparr> sample_bridge = Some (Inl ErrUnsupportedMessageType, b')
    \<and> map_of (br_pending b') ''77'' = Some p"
proof -
  have "trim_space ''t'' \<noteq> []" by code_simp
  with unsupported_stays_pending [of sample_handler sample_bridge sample_bridge "\<lparr>mm_PortalID = ''t'',
      mm_Content = Some ((text_content ''hi'')\<lparr>mx_MsgType := MsgOther ''m.location''\<rparr>)\<rparr>"] show ?thesis
    by (force simp: sample_admit sample_id)
qed

lemma record_self_consume:
  assumes "trimmed i" and "i \<noteq> []" and "now \<le> t" and "t - now \<le> selfMessageTTL"
  shows "\<exists>m. consumeSelfMessage t i (recordSelfMessage now i old) = (True, m)
    \<and> fst (consumeSelfMessage t' i m) = False"
  using assms
  by (auto simp: consumeSelfMessage_def recordSelfMessage_def cleanupSelfMessages_def trim_space_trimmed Let_def)

lemma sent_shape:
  assumes "HandleMatrixMessage X msg b = Some (Inr r, b')"
  shows "\<exists>b3. pm_ID (mp_DB r) = fst (GenerateClientMessageID (he_clock X) (br_counter b))
    \<and> b' = record_self (he_now X) (pm_ID (mp_DB r)) b3"
proof -
  obtain aerr b1 where a: "admit (he_out X 0) b = (aerr, b1)" by (cases "admit (he_out X 0) b")
  obtain i counter where g: "GenerateClientMessageID (he_clock X) (br_counter b) = (i, counter)"
    by (cases "GenerateClientMessageID (he_clock X) (br_counter b)")
  show ?thesis
    using assms admit_frame(2) [OF a]
    by (auto simp: HandleMatrixMessage_def a g Let_def split: option.splits if_splits prod.splits)
qed




lemma sample_receipt:
  assumes "sy_unreadSeen st ''t''" "\<not> sy_unreadSent st ''t''" "sy_session st = poll_session"
  shows "\<exists>b1 err. HandleMatrixReadReceipt sample_handler ''t'' (sample_bridge\<lparr>br_sync := st\<rparr>) = (err, b1)
    \<and> br_log b1 \<noteq> ([], [])"
proof -
  have "admit sample_outside (sample_bridge\<lparr>br_sync := st\<rparr>) = (None, sample_bridge\<lparr>br_sync := st\<rparr>)"
  proof -
    have "IsLoggedIn poll_session t" for t by (simp add: IsLoggedIn_def poll_session_def)
    with poll_session_fresh assms(3) show ?thesis by (simp add: admit_def) (simp add: poll_outside_def)
  qed
  moreover have "trim_space ''t'' = ''t''" by code_simp
  ultimately show ?thesis
    using assms
    by (simp add: HandleMatrixReadReceipt_def Let_def shouldSendReceipt_def teams_call_def split: prod.split)
qed


text \<open>
  An expired Graph token is not renewed for a file that is sent. When the stored token is missing or
  within a minute of its end, sending an attachment fails with that error before it calls either
  client, even if the login holds a refresh token that could renew it.
\<close>

theorem expired_graph_token_stops_attachment:
  assumes "admit (he_out X n) b = (None, b1)" and "trim_space threadID \<noteq> []" and "trim_space filename \<noteq> []"
    and "content \<noteq> []" and "int (length content) \<le> MaxAttachmentBytesV0"
    and "\<not> GraphTokenValid (se_Meta (sy_session (br_sync b1))) (o_now (he_out X n))"
  shows "\<exists>err. sendAttachmentMessageWithClientMessageID X n threadID filename content caption i b = Some (Inl err, b1)
    \<and> (err = ErrGraphAccessTokenMissing \<or> err = ErrWrap ''expires_at'' ErrGraphAccessTokenExpired)"
  using assms
  by (auto simp: sendAttachmentMessageWithClientMessageID_def Let_def GetGraphAccessToken_def split: option.split)

theorem expired_graph_token_stops_attachment_witness:
  "\<exists>err. sendAttachmentMessageWithClientMessageID sample_handler 0 ''t'' ''f'' ''abc'' [] [] sample_bridge
      = Some (Inl err, sample_bridge)"
proof -
  have "trim_space ''t'' \<noteq> []" "trim_space ''f'' \<noteq> []" by code_simp+
  moreover have "\<not> GraphTokenValid (se_Meta (sy_session (br_sync sample_bridge))) t" for t
    by (simp add: GraphTokenValid_def poll_sync_session) (simp add: poll_session_def no_metadata_def)
  ultimately show ?thesis
    using expired_graph_token_stops_attachment [of sample_handler 0 sample_bridge sample_bridge "''t''" "''f''" "''abc''"]
    by (force simp: sample_admit MaxAttachmentBytesV0_def)
qed

text \<open>
  The room gets the name that discovery has found. After a conversation was discovered, the chat
  information of its portal is the room name and kind of the thread it was normalised to.
\<close>

theorem discovered_chat_info:
  assumes "NormalizeForSelf (o_lib E) conv u = Some thread" and "trim_space (th_ID thread) \<noteq> []"
    and "trim_space (th_ConversationID thread) \<noteq> []" and "o_fault E ''thread.upsert'' = None"
    and "o_fault E ''thread.get'' = None"
  shows "GetChatInfo E (th_ID thread) (discover_thread E u st conv)
    = Inr (th_RoomName thread, Some (th_IsOneToOne thread))"
  using assms
  by (auto simp: GetChatInfo_def discover_thread_def ThreadState_Upsert_def ThreadState_Get_def queue_event_def
      rows.find_put thread_state_of_def keep_cursor_def Let_def split: option.split)

theorem discovered_chat_info_witness:
  "\<exists>thread. NormalizeForSelf plain_lib sample_conversation ''8:me'' = Some thread
    \<and> GetChatInfo (sample_outside\<lparr>o_lib := plain_lib\<rparr>) (th_ID thread)
        (discover_thread (sample_outside\<lparr>o_lib := plain_lib\<rparr>) ''8:me'' poll_sync sample_conversation)
      = Inr (th_RoomName thread, Some (th_IsOneToOne thread))"
proof -
  obtain thread where n: "NormalizeForSelf plain_lib sample_conversation ''8:me'' = Some thread"
    and t: "trim_space (th_ID thread) \<noteq> [] \<and> trim_space (th_ConversationID thread) \<noteq> []"
  proof -
    have "(case NormalizeForSelf plain_lib sample_conversation ''8:me'' of None \<Rightarrow> False
      | Some t \<Rightarrow> trim_space (th_ID t) \<noteq> [] \<and> trim_space (th_ConversationID t) \<noteq> [])" by code_simp
    then show ?thesis using that by (auto split: option.splits)
  qed
  from discovered_chat_info [of "sample_outside\<lparr>o_lib := plain_lib\<rparr>" sample_conversation "''8:me''" thread poll_sync]
    n t show ?thesis by (simp add: poll_outside_def)
qed

text \<open>
  An unknown user is an error, not a nameless user. For a ghost without a profile row the call
  returns \<open>sql.ErrNoRows\<close>; the fallback to the ID, which its code has for that case, is never reached.
\<close>

theorem unknown_user_is_error:
  assumes "trim_space ghostID \<noteq> []" and "o_fault E ''profile.get'' = None"
    and "map_of (sy_profiles st) (o_bridge E, trim_space ghostID) = None"
  shows "GetUserInfo E ghostID st = Inl ErrNoRows"
  using assms by (simp add: GetUserInfo_def Profile_GetByTeamsUserID_def Let_def)

theorem unknown_user_is_error_witness: "GetUserInfo sample_outside ''8:ann'' poll_sync = Inl ErrNoRows"
proof -
  have "trim_space ''8:ann'' \<noteq> []" by code_simp
  then show ?thesis by (rule unknown_user_is_error) (simp_all add: poll_sync_def)
qed

text \<open>
  What is sent as a GIF is one. The URL that is sent is the parsed form of an http or https URL whose
  path ends in \<open>.gif\<close>, taken from the URL or the body of the event, and the title is not empty.
\<close>

theorem outbound_gif_wellformed:
  assumes "extractOutboundGIF L (Some m) = Some (title, u)"
  shows "title \<noteq> [] \<and> trimmed title
    \<and> (\<exists>raw parsed. (raw = mx_URL m \<or> raw = mx_Body m) \<and> lib_url L (trim_space raw) = Some parsed
        \<and> url_string parsed = u \<and> lower L (url_scheme parsed) \<in> {''http'', ''https''}
        \<and> has_suffix (lower L (url_path parsed)) ''.gif'')"
proof -
  have "trimmed ''GIF''" by (simp flip: trim_space_id_iff)
  with assms show ?thesis
    by (fastforce simp: extractOutboundGIF_def Let_def parseDirectGIFURL_def split: if_splits option.splits)
qed

text \<open>A library for the example, which takes every URL for a GIF over HTTPS.\<close>

definition gif_url_lib :: golib where
  "gif_url_lib = plain_lib\<lparr>lib_url := \<lambda>u. Some \<lparr>url_scheme = ''https'', url_host = ''h'', url_path = ''/a.gif'',
     url_string = ''https://h/a.gif''\<rparr>\<rparr>"

theorem outbound_gif_wellformed_witness:
  "extractOutboundGIF gif_url_lib (Some ((text_content ''cat'')\<lparr>mx_MsgType := MsgImage, mx_URL := ''u''\<rparr>))
     = Some (''cat'', ''https://h/a.gif'') \<and> trimmed ''cat''"
proof -
  have h: "extractOutboundGIF gif_url_lib (Some ((text_content ''cat'')\<lparr>mx_MsgType := MsgImage, mx_URL := ''u''\<rparr>))
     = Some (''cat'', ''https://h/a.gif'')" by code_simp
  from outbound_gif_wellformed [OF this] h show ?thesis by simp
qed

end
