(* ===== verification/System.thy ===== *)
theory System
  imports Matrix
begin

text \<open>
  The bridge as a whole: \<open>connector.go\<close>, and the interleaving of the sync loop with the handlers of Matrix
  events and with restarts of the process.

  A step is one discovery, one poll of a listed thread, one call of a handler, one change of the login or a
  restart; steps come in any order. The locale \<open>bridge_invariant\<close> says what an invariant of all this has to
  promise; the invariants are its interpretations. A pass of the sync loop is a run of steps.
\<close>

section \<open>The connector\<close>

definition FlowIDDeviceCode :: string where "FlowIDDeviceCode = ''device_code''"

definition GetLoginFlows :: "string list" where "GetLoginFlows = [FlowIDDeviceCode]"

definition CreateLogin :: "string \<Rightarrow> go_error + DeviceCodeLogin" where
  "CreateLogin flowID =
     (if flowID = FlowIDDeviceCode
      then Inr \<lparr>dl_Client = None, dl_DeviceCode = [], dl_Interval = 0, dl_Canceled = False\<rparr>
      else Inl (ErrNew ''bridgev2.ErrInvalidLoginFlowID''))"

text \<open>\<open>Init\<close> yields whether there is a database; \<open>upgrade\<close> is the outcome of its schema upgrade.\<close>

definition Connector_Init :: "bool option \<Rightarrow> bool \<Rightarrow> bool" where
  "Connector_Init br hasDB = (case br of Some True \<Rightarrow> True | _ \<Rightarrow> hasDB)"

definition Connector_Start :: "go_error option \<Rightarrow> bool \<Rightarrow> go_error option" where
  "Connector_Start upgrade hasDB =
     (if \<not> hasDB then Some (ErrNew ''database not initialized'')
      else case upgrade of Some err \<Rightarrow> Some (ErrWrap ''teams'' err) | None \<Rightarrow> None)"

text \<open>A new client has empty records; the metadata is what the framework has stored for the login.\<close>

definition LoadUserLogin :: "Sync \<Rightarrow> Sync" where
  "LoadUserLogin st =
     (let stored = se_Stored (sy_session st);
          meta = (case stored of Some m \<Rightarrow> m | None \<Rightarrow> no_metadata)
      in st\<lparr>sy_session := (sy_session st)\<lparr>se_Meta := Some meta, se_LoggedIn := False, se_Syncing := False\<rparr>,
            sy_reactionSeen := {}, sy_receiptPoll := \<lambda>_. None, sy_unreadSeen := \<lambda>_. False,
            sy_unreadSent := \<lambda>_. False, sy_selfMessages := \<lambda>_. None\<rparr>)"

section \<open>Steps\<close>

definition at_home :: "string \<Rightarrow> string \<Rightarrow> outside \<Rightarrow> bool" where
  "at_home bid lid E \<longleftrightarrow> o_bridge E = bid \<and> o_login E = lid"

definition with_sync :: "Bridge \<Rightarrow> Sync \<Rightarrow> Bridge" where
  "with_sync b st = b\<lparr>br_sync := st\<rparr>"

text \<open>The polls are those that \<open>Q\<close> allows.\<close>

inductive bridge_step ::
  "(outside \<Rightarrow> ThreadState \<Rightarrow> Sync \<Rightarrow> bool) \<Rightarrow> string \<Rightarrow> string \<Rightarrow> Bridge \<Rightarrow> Bridge \<Rightarrow> bool"
  for Q bid lid where
  discover: "at_home bid lid E
    \<Longrightarrow> bridge_step Q bid lid b (with_sync b (snd (refreshThreads E (br_sync b))))"
| poll: "at_home bid lid E \<Longrightarrow> at_home bid lid E' \<Longrightarrow> list_threads E' (br_sync b) = Inr threads \<Longrightarrow> th \<in> set threads
    \<Longrightarrow> Q E th (br_sync b) \<Longrightarrow> pollThread E th now (br_sync b) = (n, err, th', st')
    \<Longrightarrow> bridge_step Q bid lid b (with_sync b st')"
| message: "HandleMatrixMessage X msg b = Some (res, b') \<Longrightarrow> bridge_step Q bid lid b b'"
| attachment: "SendAttachmentMessage X t f content caption b = Some (res', b') \<Longrightarrow> bridge_step Q bid lid b b'"
| prereaction: "PreHandleMatrixReaction X r b = (res2, b') \<Longrightarrow> bridge_step Q bid lid b b'"
| reaction: "HandleMatrixReaction X r b = (res3, b') \<Longrightarrow> bridge_step Q bid lid b b'"
| unreaction: "HandleMatrixReactionRemove X t target b = (err, b') \<Longrightarrow> bridge_step Q bid lid b b'"
| typing: "HandleMatrixTyping X t isTyping b = (err, b') \<Longrightarrow> bridge_step Q bid lid b b'"
| receipt: "HandleMatrixReadReceipt X t b = (err, b') \<Longrightarrow> bridge_step Q bid lid b b'"
| connect: "bridge_step Q bid lid b
    (with_sync b ((br_sync b)\<lparr>sy_session := Connect L http clk fault cfg (sy_session (br_sync b))\<rparr>))"
| renew: "bridge_step Q bid lid b
    (with_sync b ((br_sync b)\<lparr>sy_session :=
      snd (ensureValidSkypeToken L http clk fault cfg (sy_session (br_sync b)))\<rparr>))"
| disconnect: "bridge_step Q bid lid b
    (with_sync b ((br_sync b)\<lparr>sy_session := Disconnect (sy_session (br_sync b))\<rparr>))"
| logout: "bridge_step Q bid lid b
    (with_sync b ((br_sync b)\<lparr>sy_session := LogoutRemote fault (sy_session (br_sync b))\<rparr>))"
| restart: "bridge_step Q bid lid b
    (b\<lparr>br_sync := LoadUserLogin (br_sync b), br_counter := 0, br_pending := []\<rparr>)"

abbreviation bridge_run ::
  "(outside \<Rightarrow> ThreadState \<Rightarrow> Sync \<Rightarrow> bool) \<Rightarrow> string \<Rightarrow> string \<Rightarrow> Bridge \<Rightarrow> Bridge \<Rightarrow> bool" where
  "bridge_run Q bid lid \<equiv> (bridge_step Q bid lid)\<^sup>*\<^sup>*"

section \<open>What the handlers leave alone\<close>

text \<open>The tables of the database and the events queued so far.\<close>

definition same_tables :: "Sync \<Rightarrow> Sync \<Rightarrow> bool" where
  "same_tables st st' \<longleftrightarrow> sy_threads st' = sy_threads st \<and> sy_profiles st' = sy_profiles st
     \<and> sy_horizons st' = sy_horizons st \<and> sy_events st' = sy_events st"

text \<open>And what only the polls use: the reactions seen and the times of the receipt polls.\<close>

definition same_records :: "Sync \<Rightarrow> Sync \<Rightarrow> bool" where
  "same_records st st' \<longleftrightarrow> same_tables st st' \<and> sy_reactionSeen st' = sy_reactionSeen st
     \<and> sy_receiptPoll st' = sy_receiptPoll st"

lemma same_records_tables: "same_records st st' \<Longrightarrow> same_tables st st'"
  by (simp add: same_records_def)

lemma same_records_refl [simp]: "same_records st st"
  by (simp add: same_records_def same_tables_def)

lemma same_records_trans: "same_records a b \<Longrightarrow> same_records b c \<Longrightarrow> same_records a c"
  by (simp add: same_records_def same_tables_def)

lemma same_records_frame [simp]:
  "same_records st (st'\<lparr>sy_unreadSent := m\<rparr>) = same_records st st'"
  "same_records st (st'\<lparr>sy_session := s\<rparr>) = same_records st st'"
  "same_records st (st'\<lparr>sy_selfMessages := i\<rparr>) = same_records st st'"
  by (simp_all add: same_records_def same_tables_def)

lemma admit_records: "admit E b = (err, b') \<Longrightarrow> same_records (br_sync b) (br_sync b')"
  by (auto simp: admit_def split: prod.splits if_splits)

lemma record_self_records [simp]: "same_records st (br_sync (record_self now i b)) = same_records st (br_sync b)"
  by (simp add: record_self_def)

lemma teams_call_records: "teams_call X f b = (err, b') \<Longrightarrow> br_sync b' = br_sync b"
  by (rule teams_call_frame(1))

lemma sendAttachment_records:
  assumes "sendAttachmentMessageWithClientMessageID X n t f content caption i b = Some (r, b')"
  shows "same_records (br_sync b) (br_sync b')"
proof -
  obtain err b1 where a: "admit (he_out X n) b = (err, b1)" by (cases "admit (he_out X n) b")
  from admit_records [OF a] assms show ?thesis
    by (auto simp: sendAttachmentMessageWithClientMessageID_def a Let_def split: prod.splits option.splits
        sum.splits if_splits)
qed

lemma send_file_records: "send_file X t m i b = Some (r, b') \<Longrightarrow> same_records (br_sync b) (br_sync b')"
  by (auto simp: send_file_def HandleOutboundMatrixFile_def split: sum.splits if_splits prod.splits
      dest: sendAttachment_records)

lemma send_content_records:
  assumes "send_content X t m i b = Some (Some (r, b'))"
  shows "same_records (br_sync b) (br_sync b')"
  using assms
  by (auto simp: send_content_def split: MsgType.splits option.splits dest: send_file_records
      dest!: teams_call_records)

lemma HandleMatrixMessage_records:
  assumes "HandleMatrixMessage X msg b = Some (r, b')"
  shows "same_records (br_sync b) (br_sync b')"
proof -
  obtain err b1 where a: "admit (he_out X 0) b = (err, b1)" by (cases "admit (he_out X 0) b")
  have p: "br_sync (add_pending i p (b\<lparr>br_counter := c\<rparr>)) = br_sync b" "br_sync (remove_pending i b) = br_sync b"
    for i p c and b :: Bridge by (simp_all add: add_pending_def remove_pending_def)
  from admit_records [OF a] assms show ?thesis
    by (auto simp: HandleMatrixMessage_def a Let_def p split: prod.splits option.splits if_splits
        dest!: send_content_records elim: same_records_trans)
qed

lemma handlers_records:
  "PreHandleMatrixReaction X mr b = (res2, b') \<Longrightarrow> same_records (br_sync b) (br_sync b')"
  "HandleMatrixReaction X mr b = (res3, b') \<Longrightarrow> same_records (br_sync b) (br_sync b')"
  "HandleMatrixReactionRemove X t target b = (err, b') \<Longrightarrow> same_records (br_sync b) (br_sync b')"
  "HandleMatrixTyping X t isTyping b = (err, b') \<Longrightarrow> same_records (br_sync b) (br_sync b')"
  "HandleMatrixReadReceipt X t b = (err, b') \<Longrightarrow> same_records (br_sync b) (br_sync b')"
proof -
  obtain aerr b1 where a: "admit (he_out X 0) b = (aerr, b1)" by (cases "admit (he_out X 0) b")
  note t = admit_records [OF a]
  show "PreHandleMatrixReaction X mr b = (res2, b') \<Longrightarrow> same_records (br_sync b) (br_sync b')"
    using t by (auto simp: PreHandleMatrixReaction_def a split: option.splits if_splits)
  show "HandleMatrixReaction X mr b = (res3, b') \<Longrightarrow> same_records (br_sync b) (br_sync b')"
    using t by (auto simp: HandleMatrixReaction_def a Let_def split: option.splits if_splits prod.splits
        dest!: teams_call_records)
  show "HandleMatrixReactionRemove X t target b = (err, b') \<Longrightarrow> same_records (br_sync b) (br_sync b')"
    using t by (auto simp: HandleMatrixReactionRemove_def a Let_def split: option.splits if_splits
        dest!: teams_call_records)
  show "HandleMatrixTyping X t isTyping b = (err, b') \<Longrightarrow> same_records (br_sync b) (br_sync b')"
    using t by (auto simp: HandleMatrixTyping_def a Let_def split: option.splits if_splits prod.splits
        dest!: teams_call_records)
  show "HandleMatrixReadReceipt X t b = (err, b') \<Longrightarrow> same_records (br_sync b) (br_sync b')"
    using t by (auto simp: HandleMatrixReadReceipt_def a Let_def
        split: option.splits if_splits prod.splits dest!: teams_call_records)
qed

section \<open>Invariants\<close>

locale bridge_invariant =
  fixes inv :: "Sync \<Rightarrow> bool"
    and Q :: "outside \<Rightarrow> ThreadState \<Rightarrow> Sync \<Rightarrow> bool"
    and bid lid :: string
  assumes unrelated: "inv st \<Longrightarrow> same_tables st st' \<Longrightarrow> inv st'"
    and discovery: "at_home bid lid E \<Longrightarrow> inv st \<Longrightarrow> inv (snd (refreshThreads E st))"
    and polling: "at_home bid lid E \<Longrightarrow> at_home bid lid E' \<Longrightarrow> inv st \<Longrightarrow> list_threads E' st = Inr threads
      \<Longrightarrow> th \<in> set threads \<Longrightarrow> Q E th st \<Longrightarrow> pollThread E th now st = (n, err, th', st') \<Longrightarrow> inv st'"
begin

lemma step: "bridge_step Q bid lid b b' \<Longrightarrow> inv (br_sync b) \<Longrightarrow> inv (br_sync b')"
proof (induction rule: bridge_step.induct)
  case (poll E E' b threads th now n err th' st')
  from polling [OF poll.hyps(1,2) poll.prems poll.hyps(3-6)] show ?case by (simp add: with_sync_def)
next
  case (discover E b)
  from discovery [OF discover.hyps discover.prems] show ?case by (simp add: with_sync_def)
next
  case (message X msg b res b')
  then show ?case by (elim unrelated) (rule same_records_tables [OF HandleMatrixMessage_records])
next
  case (attachment X t f content caption b res' b')
  then show ?case by (elim unrelated) (auto simp: SendAttachmentMessage_def intro: same_records_tables sendAttachment_records)
next
  case (prereaction X r b res2 b')
  then show ?case by (elim unrelated) (rule same_records_tables [OF handlers_records(1)])
next
  case (reaction X r b res3 b')
  then show ?case by (elim unrelated) (rule same_records_tables [OF handlers_records(2)])
next
  case (unreaction X t target b err b')
  then show ?case by (elim unrelated) (rule same_records_tables [OF handlers_records(3)])
next
  case (typing X t isTyping b err b')
  then show ?case by (elim unrelated) (rule same_records_tables [OF handlers_records(4)])
next
  case (receipt X t b err b')
  then show ?case by (elim unrelated) (rule same_records_tables [OF handlers_records(5)])
next
  case (restart b)
  then show ?case by (elim unrelated) (simp add: same_tables_def LoadUserLogin_def Let_def)
qed (elim unrelated, simp add: with_sync_def same_tables_def)+

lemma run: "bridge_run Q bid lid b b' \<Longrightarrow> inv (br_sync b) \<Longrightarrow> inv (br_sync b')"
  by (induction rule: rtranclp_induct) (auto intro: step)

end

section \<open>The tables stay well-formed\<close>

text \<open>Beside distinct keys: the thread IDs of the rows are trimmed and not blank.\<close>

definition keys_trimmed :: "thread_table \<Rightarrow> bool" where
  "keys_trimmed t \<longleftrightarrow> list_all (\<lambda>(b, l, i). trimmed i \<and> i \<noteq> []) (map fst t)"

definition tables_inv :: "Sync \<Rightarrow> bool" where
  "tables_inv st \<longleftrightarrow> tables_ok st \<and> keys_trimmed (sy_threads st)"

lemma pollThread_error:
  "fetched E th st = Inl err \<Longrightarrow> pollThread E th now st = (0, Some err, th, snd (sync_token E st))"
  by (auto simp: fetched_def pollThread_def split: prod.splits option.splits)

definition set_cursor :: "string \<Rightarrow> int \<Rightarrow> thread_row \<Rightarrow> thread_row" where
  "set_cursor seq ts r = r\<lparr>tr_last_sequence_id := seq, tr_last_message_ts := ts\<rparr>"

lemma pollThread_threads:
  assumes "pollThread E th now st = (n, err, th', st')"
  obtains (kept) "sy_threads st' = sy_threads st"
  | (moved) seq ts where "sy_threads st' =
      modify (set_cursor seq ts) (o_bridge E, o_login E, trim_space (ts_ThreadID th)) (sy_threads st)"
proof (cases "fetched E th st")
  case (Inl e)
  obtain e' st1 where "sync_token E st = (e', st1)" by (cases "sync_token E st")
  from sync_token_frame(2) [OF this] this Inl assms show ?thesis
    by (intro kept) (simp add: pollThread_error)
next
  case (Inr msgs)
  from Inr assms obtain st1 st2 acc herr where t: "sync_token E st = (None, st1)"
    and "acc = poll_messages E th now st1 msgs"
    and s2: "sy_threads st2 = (if pa_maxSeq acc \<noteq> []
      then snd (ThreadState_UpdateCursor (Some (o_bridge E)) (o_fault E ''thread.cursor'') (o_login E)
             (ts_ThreadID th) (pa_maxSeq acc) (pa_maxTS acc) (sy_threads st1)) else sy_threads st1)"
    and h: "pollConsumptionHorizons E th' now st2 = (herr, st')"
    by (rule pollThread_result)
  from s2 sync_token_frame(2) [OF t] pollConsumptionHorizons_frame(2) [OF h]
  show ?thesis
    by (auto simp: ThreadState_UpdateCursor_def Let_def set_cursor_def [abs_def] intro: kept moved
        split: if_splits option.splits)
qed

lemma modify_keys: "map fst (modify f k t) = map fst t"
proof (cases "map_of t k")
  case (Some r)
  then have "k \<in> set (map fst t)" using map_of_eq_None_iff [of t k] by simp
  with Some show ?thesis by (simp add: modify_def update_keys)
qed (simp add: modify_def)

lemma upsert_keys: "set (map fst (upsert merge k r t)) = insert k (set (map fst t))"
  by (auto simp: upsert_def update_keys split: option.split)

lemma keys_trimmed_upsert:
  "trimmed i \<Longrightarrow> i \<noteq> [] \<Longrightarrow> keys_trimmed (upsert merge (b, l, i) r t) = keys_trimmed t"
  by (simp only: keys_trimmed_def list_all_iff upsert_keys) simp

lemma discover_thread_keys:
  "keys_trimmed (sy_threads st) \<Longrightarrow> keys_trimmed (sy_threads (discover_thread E u st conv))"
  by (simp add: discover_thread_def ThreadState_Upsert_def queue_event_def Let_def keys_trimmed_upsert
      split: option.split)

lemma refreshThreads_keys:
  assumes "keys_trimmed (sy_threads st)"
  shows "keys_trimmed (sy_threads (snd (refreshThreads E st)))"
proof -
  have f: "keys_trimmed (sy_threads st) \<Longrightarrow> keys_trimmed (sy_threads (foldl (discover_thread E u) st convs))" for u convs st
    by (induction convs arbitrary: st) (simp_all add: discover_thread_keys)
  obtain e st1 where t: "sync_token E st = (e, st1)" by (cases "sync_token E st")
  show ?thesis
    using assms sync_token_frame(2) [OF t]
    by (auto simp: refreshThreads_def t Let_def f split: option.split sum.split)
qed

interpretation tables: bridge_invariant tables_inv Q bid lid for Q bid lid
proof
  show "tables_inv st \<Longrightarrow> same_tables st st' \<Longrightarrow> tables_inv st'" for st st'
    by (simp add: tables_inv_def tables_ok_def same_tables_def)
  show "tables_inv st \<Longrightarrow> tables_inv (snd (refreshThreads E st))" for E st
    by (simp add: tables_inv_def refreshThreads_tables refreshThreads_keys)
  fix E th now st n err th' st'
  assume i: "tables_inv st" and p: "pollThread E th now st = (n, err, th', st')"
  have "tables_ok st'" using i pollThread_tables [of st E th now] p by (simp add: tables_inv_def)
  moreover from p have "map fst (sy_threads st') = map fst (sy_threads st)"
    by (cases rule: pollThread_threads) (simp_all add: modify_keys)
  ultimately show "tables_inv st'" using i by (simp add: tables_inv_def keys_trimmed_def)
qed

text \<open>
  C28: In every run of the bridge, with discoveries, polls, Matrix events, changes of the login and restarts in
  any order, the tables keep one row per key, and the rows of threads have trimmed IDs that are not blank.
\<close>

theorem tables_stay_ok:
  assumes "bridge_run Q bid lid b b'" and "tables_inv (br_sync b)"
  shows "tables_inv (br_sync b')"
  using assms by (rule tables.run)

section \<open>A pass of the sync loop is a run\<close>

lemma listed_iff:
  assumes "list_threads E st = Inr threads"
  shows "th \<in> set threads \<longleftrightarrow> (\<exists>t r. ((o_bridge E, o_login E, t), r) \<in> set (sy_threads st)
    \<and> th = thread_state_of (o_bridge E) (o_login E) t r)"
  using assms by (force simp: list_threads_def ThreadState_ListForLogin_def split: option.splits)

lemma list_threads_again:
  "list_threads E st = Inr threads \<Longrightarrow> \<exists>threads'. list_threads E st' = Inr threads'"
  by (auto simp: list_threads_def ThreadState_ListForLogin_def split: option.splits)

definition row_of :: "string \<Rightarrow> string \<Rightarrow> Sync \<Rightarrow> ThreadState \<Rightarrow> bool" where
  "row_of bid lid st th \<longleftrightarrow>
     (\<exists>r. map_of (sy_threads st) (bid, lid, ts_ThreadID th) = Some r \<and> th = thread_state_of bid lid (ts_ThreadID th) r)"

lemma listed_row_of:
  assumes "tables_inv st" and "at_home bid lid E" and "list_threads E st = Inr threads"
  shows "th \<in> set threads \<longleftrightarrow> row_of bid lid st th"
proof -
  have "((bid, lid, t), r) \<in> set (sy_threads st) \<longleftrightarrow> map_of (sy_threads st) (bid, lid, t) = Some r" for t r
    using assms(1) by (simp add: tables_inv_def tables_ok_def table_ok_def)
  then show ?thesis
    using assms(2) by (auto simp: listed_iff [OF assms(3)] row_of_def at_home_def thread_state_of_def)
qed

lemma row_of_trimmed: "tables_inv st \<Longrightarrow> row_of bid lid st th \<Longrightarrow> trimmed (ts_ThreadID th) \<and> ts_ThreadID th \<noteq> []"
  by (force simp: tables_inv_def row_of_def keys_trimmed_def list_all_iff dest!: map_of_SomeD)

lemma row_of_poll_other:
  assumes "tables_inv st" and "row_of bid lid st th" and "row_of bid lid st x" and "ts_ThreadID x \<noteq> ts_ThreadID th"
    and "pollThread E th now st = (n, err, th', st')" and "at_home bid lid E"
  shows "row_of bid lid st' x"
  using assms(5)
proof (cases rule: pollThread_threads)
  case (moved seq ts)
  have "trim_space (ts_ThreadID th) = ts_ThreadID th"
    using row_of_trimmed [OF assms(1,2)] by (simp add: trim_space_trimmed)
  with assms(3,4,6) show ?thesis by (simp add: row_of_def moved rows.find_change_other)
qed (use assms(3) in \<open>simp add: row_of_def\<close>)

lemma poll_due_cases:
  obtains (skip) "da_sync (poll_due P now acc th) = da_sync acc"
  | (poll) E n err th' where "E \<in> range P" "pollThread E th now (da_sync acc) = (n, err, th', da_sync (poll_due P now acc th))"
proof (cases "da_sync (poll_due P now acc th) = da_sync acc")
  case False
  obtain n err th' st' where p: "pollThread (P (length (da_polled acc))) th now (da_sync acc) = (n, err, th', st')"
    by (metis prod_cases4)
  with False have "da_sync (poll_due P now acc th) = st'"
    by (auto simp: poll_due_def Let_def split: if_splits prod.splits)
  with p poll show ?thesis by blast
qed (rule skip)

lemma poll_due_run:
  assumes "\<And>n. at_home bid lid (P n)" and "\<And>n th st. Q (P n) th st"
    and E: "at_home bid lid E" "o_fault E ''thread.list'' = None"
  shows "tables_inv (da_sync acc) \<Longrightarrow> distinct (map ts_ThreadID ths) \<Longrightarrow> list_all (row_of bid lid (da_sync acc)) ths
    \<Longrightarrow> bridge_run Q bid lid (with_sync b (da_sync acc)) (with_sync b (da_sync (foldl (poll_due P now) acc ths)))"
proof (induction ths arbitrary: acc)
  case (Cons th ths)
  let ?acc = "poll_due P now acc th"
  show ?case
  proof (cases rule: poll_due_cases [of P now acc th])
    case skip
    with Cons.IH [of ?acc] Cons.prems show ?thesis by simp
  next
    case (poll E' n err th')
    from poll(1) assms(1,2) have e: "at_home bid lid E'" "Q E' th (da_sync acc)" by auto
    obtain threads where l: "list_threads E (da_sync acc) = Inr threads"
      using E(2) by (simp add: list_threads_def ThreadState_ListForLogin_def)
    have here: "row_of bid lid (da_sync acc) th" using Cons.prems(3) by simp
    then have "th \<in> set threads" using listed_row_of [OF Cons.prems(1) E(1) l] by simp
    from bridge_step.poll [where b = "with_sync b (da_sync acc)", OF e(1) E(1) _ this _ , of Q now n err th' "da_sync ?acc"]
    have s: "bridge_step Q bid lid (with_sync b (da_sync acc)) (with_sync b (da_sync ?acc))"
      using l e(2) poll(2) by (simp add: with_sync_def)
    have i: "tables_inv (da_sync ?acc)" using tables.step [OF s] Cons.prems(1) by (simp add: with_sync_def)
    have "row_of bid lid (da_sync ?acc) x" if "x \<in> set ths" for x
    proof (rule row_of_poll_other [OF Cons.prems(1) here _ _ poll(2) e(1)])
      show "row_of bid lid (da_sync acc) x" using Cons.prems(3) that by (simp add: list_all_iff)
      show "ts_ThreadID x \<noteq> ts_ThreadID th" using Cons.prems(2) that by (metis distinct.simps(2) image_eqI image_set list.simps(9))
    qed
    then have "bridge_run Q bid lid (with_sync b (da_sync ?acc)) (with_sync b (da_sync (foldl (poll_due P now) ?acc ths)))"
      using Cons.IH [OF i] Cons.prems(2) by (simp add: list_all_iff)
    with s show ?thesis by (simp add: converse_rtranclp_into_rtranclp)
  qed
qed simp

text \<open>Discovery first, then the polls of the threads that are due.\<close>

lemma discover_run:
  assumes "at_home bid lid E"
  shows "bridge_run Q bid lid (with_sync b (sc_sync s)) (with_sync b (sc_sync (discover E now s)))"
  using bridge_step.discover [OF assms, of Q "with_sync b (sc_sync s)"]
  by (auto simp: discover_def with_sync_def)

lemma due_round_run:
  assumes E: "at_home bid lid E" and P: "\<And>n. at_home bid lid (P n)" "\<And>n th st. Q (P n) th st"
    and i: "tables_inv (sc_sync s)"
  shows "case due_round E P now after s of
      Inl (err, s') \<Rightarrow> bridge_run Q bid lid (with_sync b (sc_sync s)) (with_sync b (sc_sync s'))
    | Inr (s', sleep) \<Rightarrow> bridge_run Q bid lid (with_sync b (sc_sync s)) (with_sync b (sc_sync s'))"
proof -
  let ?s = "discover E now s"
  note d = discover_run [OF E, of Q b s now]
  show ?thesis
  proof (cases "list_threads E (sc_sync ?s)")
    case (Inl err)
    with d show ?thesis by (simp add: due_round_def Let_def)
  next
    case (Inr threads)
    have i': "tables_inv (sc_sync ?s)" using tables.run [OF d] i by (simp add: with_sync_def)
    have f: "o_fault E ''thread.list'' = None"
      using Inr by (auto simp: list_threads_def ThreadState_ListForLogin_def split: option.splits)
    have "distinct (map ts_ThreadID threads)"
      using list_threads_distinct [OF _ Inr] i' by (simp add: tables_inv_def)
    moreover have "list_all (row_of bid lid (sc_sync ?s)) threads"
      using listed_row_of [OF i' E Inr] by (simp add: list_all_iff)
    ultimately have "bridge_run Q bid lid (with_sync b (sc_sync ?s))
        (with_sync b (da_sync (poll_due_all P now (sc_states ?s) (sc_sync ?s) threads)))"
      unfolding poll_due_all_def
      using poll_due_run [where acc = "\<lparr>da_states = sc_states ?s, da_wake = now + wakeInterval,
          da_sync = sc_sync ?s, da_polled = []\<rparr>" and Q = Q and ths = threads and b = b and now = now, OF P E f] i'
      by simp
    with d Inr show ?thesis by (simp add: due_round_def Let_def)
  qed
qed

lemma sched_reach_run:
  assumes "\<And>k. at_home bid lid (sw_round W k)" and "\<And>k n. at_home bid lid (sw_poll W k n)"
    and "\<And>k n th st. Q (sw_poll W k n) th st"
  shows "sched_reach W s\<^sub>0 k s \<Longrightarrow> tables_inv (sc_sync s\<^sub>0)
    \<Longrightarrow> bridge_run Q bid lid (with_sync b (sc_sync s\<^sub>0)) (with_sync b (sc_sync s))"
proof (induction rule: sched_reach.induct)
  case (pass k s s' sleep)
  from tables.run [OF pass.IH [OF pass.prems]] pass.prems have "tables_inv (sc_sync s)"
    by (simp add: with_sync_def)
  from due_round_run [where Q = Q and P = "sw_poll W k" and E = "sw_round W k"
      and now = "sw_now W k" and after = "sw_after W k" and b = b, OF assms(1-3) this]
    pass.hyps(3) pass.IH [OF pass.prems]
  show ?case by simp
qed simp


section \<open>Messages are delivered in order and once\<close>

definition event_seq :: "MessageEvent \<Rightarrow> string" where
  "event_seq e = trim_space (rm_SequenceID (me_Data e))"

definition event_id :: "MessageEvent \<Rightarrow> string" where
  "event_id e = trim_space (rm_MessageID (me_Data e))"

definition thread_log :: "string \<Rightarrow> string \<Rightarrow> Sync \<Rightarrow> MessageEvent list" where
  "thread_log lid t st = filter (\<lambda>e. me_PortalKey e = portalKey lid t) (deliveries (sy_events st))"

text \<open>In order, and without repetition of a message, which its ID and its sequence ID identify.\<close>

definition in_order :: "MessageEvent list \<Rightarrow> bool" where
  "in_order es \<longleftrightarrow> sorted_wrt (\<lambda>a b. CompareSequenceID (event_seq a) (event_seq b) \<le> 0) es
     \<and> distinct (map (\<lambda>e. (event_seq e, event_id e)) es)"

definition row_cursor :: "string \<Rightarrow> string \<Rightarrow> Sync \<Rightarrow> string \<Rightarrow> string" where
  "row_cursor bid lid st t =
     (case map_of (sy_threads st) (bid, lid, t) of None \<Rightarrow> [] | Some r \<Rightarrow> tr_last_sequence_id r)"

text \<open>The cursor of a thread, where it is set, is a number that covers all that was delivered.\<close>

definition covers :: "string \<Rightarrow> MessageEvent list \<Rightarrow> bool" where
  "covers cursor es \<longleftrightarrow> list_all (\<lambda>e. numericID (event_seq e) \<and> numericID cursor
     \<and> CompareSequenceID (event_seq e) cursor \<le> 0) es"

definition delivery_inv :: "string \<Rightarrow> string \<Rightarrow> Sync \<Rightarrow> bool" where
  "delivery_inv bid lid st \<longleftrightarrow> tables_inv st
     \<and> (\<forall>t. trimmed t \<longrightarrow> (row_cursor bid lid st t = [] \<or> numericID (row_cursor bid lid st t))
            \<and> in_order (thread_log lid t st) \<and> covers (row_cursor bid lid st t) (thread_log lid t st))"

text \<open>
  A poll in which the cursor can be written and the sequence IDs of the messages are numbers, as they are
  in Teams; \<open>sort.Slice\<close> sorts.
\<close>

definition calm_poll :: "outside \<Rightarrow> ThreadState \<Rightarrow> Sync \<Rightarrow> bool" where
  "calm_poll E th st \<longleftrightarrow> o_fault E ''thread.cursor'' = None \<and> slice_sorter (o_sort E)
     \<and> (case fetched E th st of Inl _ \<Rightarrow> True | Inr msgs \<Rightarrow> list_all (\<lambda>m. numericID (rm_SequenceID m)) msgs)"

lemma digits_value_digits: "digits_value acc s = Some n \<Longrightarrow> list_all is_digit s"
  by (induction s arbitrary: acc) (auto split: if_splits)

lemma numericID_trimmed:
  assumes "numericID s"
  shows "trim_space s = s"
proof -
  from assms have s: "s \<noteq> []" "list_all is_digit s"
    by (auto simp: numericID_def parse_uint_def dest: digits_value_digits split: if_splits option.splits)
  then have "solid (hd s)" "solid (last s)"
    by (auto simp: list_all_iff intro: solid_digit)
  with s(1) show ?thesis by (simp add: trim_space_trimmed trimmed_solid_ends)
qed

text \<open>Joining the log of one poll to what was delivered before.\<close>

lemma in_order_append:
  assumes "in_order old" and "covers q old" and "in_order new"
    and "list_all (\<lambda>e. numericID (event_seq e) \<and> (q = [] \<or> 0 < CompareSequenceID (event_seq e) q)) new"
  shows "in_order (old @ new)"
proof -
  have less: "CompareSequenceID (event_seq a) (event_seq b) < 0" if "a \<in> set old" "b \<in> set new" for a b
  proof -
    from that(1) assms(2) have a: "numericID (event_seq a)" "numericID q" "CompareSequenceID (event_seq a) q \<le> 0"
      by (auto simp: covers_def list_all_iff)
    then have "q \<noteq> []" using numericID_nonempty by blast
    with that(2) assms(4) have "numericID (event_seq b)" "0 < CompareSequenceID (event_seq b) q"
      by (auto simp: list_all_iff)
    with a show ?thesis by (simp add: numeric_compare sgn_if split: if_splits)
  qed
  then have "event_seq a \<noteq> event_seq b" if "a \<in> set old" "b \<in> set new" for a b
    using that CompareSequenceID_refl by (metis less_irrefl)
  with less assms(1,3) show ?thesis
    by (fastforce simp: in_order_def sorted_wrt_append)
qed

lemma covers_mono:
  assumes "covers q es" and "numericID q'" and "q = q' \<or> 0 \<le> CompareSequenceID q' q"
  shows "covers q' es"
proof -
  have "CompareSequenceID (event_seq e) q' \<le> 0" if "e \<in> set es" for e
    using that assms
    by (auto simp: covers_def list_all_iff numeric_compare sgn_if split: if_splits)
  with assms show ?thesis by (simp add: covers_def list_all_iff)
qed

lemma covers_append: "covers q (xs @ ys) \<longleftrightarrow> covers q xs \<and> covers q ys"
  by (simp add: covers_def)

lemma covers_blank: "covers [] es \<Longrightarrow> es = []"
  using numericID_nonempty by (cases es) (auto simp: covers_def)

text \<open>The log of one poll.\<close>

definition polled_log :: "string \<Rightarrow> string \<Rightarrow> golib \<Rightarrow> ThreadState \<Rightarrow> RemoteMessage list \<Rightarrow> MessageEvent list" where
  "polled_log lid selfID L th msgs = map (message_event lid th selfID) (filter (deliverable L th) msgs)"

lemma message_event_simps [simp]:
  "me_PortalKey (message_event lid th selfID m) = portalKey lid (ts_ThreadID th)"
  "event_seq (message_event lid th selfID m) = seq_of m"
  "event_id (message_event lid th selfID m) = trim_space (rm_MessageID m)"
  by (simp_all add: message_event_def Let_def event_seq_def event_id_def)

lemma polled_log_in_order:
  assumes num: "list_all (\<lambda>m. numericID (rm_SequenceID m)) msgs"
    and ids: "distinct (message_ids msgs)"
    and sorted: "sorted_wrt (\<lambda>a b. CompareSequenceID (rm_SequenceID a) (rm_SequenceID b) \<le> 0) msgs"
  shows "in_order (polled_log lid selfID L th msgs)"
proof -
  let ?ms = "filter (deliverable L th) msgs"
  have seq: "seq_of m = rm_SequenceID m" if "m \<in> set msgs" for m
    using num that by (simp add: list_all_iff numericID_trimmed)
  have "distinct (map (\<lambda>m. trim_space (rm_MessageID m)) ?ms)"
    using ids
  proof (induction msgs)
    case (Cons m msgs)
    then show ?case by (auto simp: deliverable_def split: if_splits)
  qed simp
  then have "distinct (map (\<lambda>m. (seq_of m, trim_space (rm_MessageID m))) ?ms)"
    by (auto simp: distinct_map inj_on_def)
  moreover have "sorted_wrt (\<lambda>a b. CompareSequenceID (seq_of a) (seq_of b) \<le> 0) ?ms"
    using sorted_wrt_filter [OF sorted, of "deliverable L th"]
    by (rule sorted_wrt_mono_rel [rotated]) (simp add: seq)
  ultimately show ?thesis
    by (simp add: in_order_def polled_log_def sorted_wrt_map comp_def)
qed

lemma polled_log_fresh:
  assumes "list_all (\<lambda>m. numericID (rm_SequenceID m)) msgs" and "trim_space (ts_LastSequenceID th) = q"
  shows "list_all (\<lambda>e. numericID (event_seq e) \<and> (q = [] \<or> 0 < CompareSequenceID (event_seq e) q))
    (polled_log lid selfID L th msgs)"
  using assms by (auto simp: polled_log_def list_all_iff deliverable_def behind_cursor_def numericID_trimmed)

lemma pollThread_log:
  assumes "fetched E th st = Inr msgs" and "pollThread E th now st = (n, err, th', st')"
    and num: "list_all (\<lambda>m. numericID (rm_SequenceID m)) msgs"
    and "o_fault E ''thread.cursor'' = None" and "trimmed (ts_ThreadID th)" "ts_ThreadID th \<noteq> []"
  obtains selfID cursor ts where
    "deliveries (sy_events st') = deliveries (sy_events st) @ polled_log (o_login E) selfID (o_lib E) th msgs"
    and "sy_threads st' = (if cursor = [] then sy_threads st
      else modify (set_cursor cursor ts) (o_bridge E, o_login E, ts_ThreadID th) (sy_threads st))"
    and "cursor = [] \<Longrightarrow> polled_log (o_login E) selfID (o_lib E) th msgs = []"
    and "cursor \<noteq> [] \<Longrightarrow> numericID cursor \<and> covers cursor (polled_log (o_login E) selfID (o_lib E) th msgs)
      \<and> (trim_space (ts_LastSequenceID th) = [] \<or> 0 < CompareSequenceID cursor (trim_space (ts_LastSequenceID th)))"
proof -
  let ?q = "trim_space (ts_LastSequenceID th)"
  from assms(1,2) obtain st1 st2 acc herr where t: "sync_token E st = (None, st1)"
    and acc: "acc = poll_messages E th now st1 msgs"
    and s2: "sy_threads st2 = (if pa_maxSeq acc \<noteq> []
      then snd (ThreadState_UpdateCursor (Some (o_bridge E)) (o_fault E ''thread.cursor'') (o_login E)
             (ts_ThreadID th) (pa_maxSeq acc) (pa_maxTS acc) (sy_threads st1)) else sy_threads st1)"
      "sy_events st2 = sy_events (pa_state acc)"
    and h: "pollConsumptionHorizons E th' now st2 = (herr, st')"
    by (rule pollThread_result)
  note frame = sync_token_frame(1,2) [OF t] pollConsumptionHorizons_frame(1,2) [OF h]
  let ?new = "polled_log (o_login E) (self_id st1) (o_lib E) th msgs"
  have fold: "acc = foldl (poll_message E th now ?q (self_id st1))
      \<lparr>pa_maxSeq = [], pa_maxTS = 0, pa_ingested = 0, pa_state = st1\<rparr> msgs"
    by (simp add: acc poll_messages_def)
  have num': "list_all (\<lambda>m. fresh ?q m \<longrightarrow> numericID (seq_of m)) msgs"
    using num by (auto simp: list_all_iff numericID_trimmed)
  from maxSeq_greatest [OF num', where acc = "\<lparr>pa_maxSeq = [], pa_maxTS = 0, pa_ingested = 0, pa_state = st1\<rparr>"]
  have great: "CompareSequenceID (seq_of m) (pa_maxSeq acc) \<le> 0 \<and> numericID (pa_maxSeq acc)"
    if "m \<in> set msgs" "fresh ?q m" for m
    using that by (simp add: fold)
  have sub: "e \<in> set ?new \<Longrightarrow> \<exists>m \<in> set msgs. fresh ?q m \<and> e = message_event (o_login E) th (self_id st1) m" for e
    by (auto simp: polled_log_def deliverable_def fresh_def)
  show ?thesis
  proof (rule that [of "self_id st1" "pa_maxSeq acc" "pa_maxTS acc"])
    show "deliveries (sy_events st') = deliveries (sy_events st) @ ?new"
      using frame s2(2) polled_delivers [of E th now "self_id st1"] by (simp add: fold polled_log_def)
    show "sy_threads st' = (if pa_maxSeq acc = [] then sy_threads st
        else modify (set_cursor (pa_maxSeq acc) (pa_maxTS acc)) (o_bridge E, o_login E, ts_ThreadID th) (sy_threads st))"
      using frame s2(1) assms(4-6)
      by (simp add: ThreadState_UpdateCursor_def trim_space_trimmed set_cursor_def [abs_def])
    show "?new = []" if "pa_maxSeq acc = []"
    proof (rule ccontr)
      assume "?new \<noteq> []"
      then obtain e where "e \<in> set ?new" by (cases ?new) auto
      with sub obtain m where "m \<in> set msgs" "fresh ?q m" by blast
      from great [OF this] that numericID_nonempty show False by blast
    qed
    show "numericID (pa_maxSeq acc) \<and> covers (pa_maxSeq acc) ?new
        \<and> (?q = [] \<or> 0 < CompareSequenceID (pa_maxSeq acc) ?q)" if "pa_maxSeq acc \<noteq> []"
    proof -
      from that obtain m where m: "m \<in> set msgs" "fresh ?q m" "pa_maxSeq acc = seq_of m"
        using maxSeq_source [of E th now ?q "self_id st1"
            "\<lparr>pa_maxSeq = [], pa_maxTS = 0, pa_ingested = 0, pa_state = st1\<rparr>" msgs] by (auto simp: fold)
      have "numericID (event_seq e) \<and> CompareSequenceID (event_seq e) (pa_maxSeq acc) \<le> 0" if "e \<in> set ?new" for e
        using sub [OF that] great num by (auto simp: list_all_iff numericID_trimmed)
      with great [OF m(1,2)] m show ?thesis
        by (auto simp: covers_def list_all_iff fresh_def behind_cursor_def)
    qed
  qed
qed

lemma delivery_poll:
  assumes "at_home bid lid E" and calm: "calm_poll E th st" and inv: "delivery_inv bid lid st"
    and row: "row_of bid lid st th" and poll: "pollThread E th now st = (n, err, th', st')"
    and tables: "tables_inv st'"
  shows "delivery_inv bid lid st'"
proof (cases "fetched E th st")
  case (Inl e)
  obtain e' st1 where t: "sync_token E st = (e', st1)" by (cases "sync_token E st")
  have "st' = st1" using Inl poll t by (simp add: pollThread_error)
  with inv tables sync_token_frame(1,2) [OF t] show ?thesis
    by (simp add: delivery_inv_def row_cursor_def thread_log_def)
next
  case (Inr msgs)
  have E: "o_bridge E = bid" "o_login E = lid" using assms(1) by (simp_all add: at_home_def)
  have num: "list_all (\<lambda>m. numericID (rm_SequenceID m)) msgs" and srt: "slice_sorter (o_sort E)"
    and fault: "o_fault E ''thread.cursor'' = None"
    using calm Inr by (simp_all add: calm_poll_def)
  from Inr obtain st1 where "sync_token E st = (None, st1)"
    and l: "ListMessages (o_lib E) (o_sort E) (o_http E) (o_until E)
          (Some (newConsumer (sy_session st1))) (ts_Conversation th) (ts_LastSequenceID th) = Inr msgs"
    by (auto simp: fetched_def split: prod.splits option.splits)
  have page: "in_order (polled_log lid selfID (o_lib E) th msgs)" for selfID
    by (rule ListMessages_sorted [OF srt l], rule polled_log_in_order [OF num]) (simp_all add: num)
  let ?t = "ts_ThreadID th" and ?q = "row_cursor bid lid st (ts_ThreadID th)"
  have i: "tables_inv st" using inv by (simp add: delivery_inv_def)
  note trimmed = row_of_trimmed [OF i row]
  have q: "ts_LastSequenceID th = ?q"
  proof -
    from row obtain r where r: "map_of (sy_threads st) (bid, lid, ?t) = Some r" "th = thread_state_of bid lid ?t r"
      by (auto simp: row_of_def)
    have "ts_LastSequenceID (thread_state_of bid lid ?t r) = tr_last_sequence_id r" by (simp add: thread_state_of_def)
    with r show ?thesis by (metis option.simps(5) row_cursor_def)
  qed
  have old: "?q = [] \<or> numericID ?q" "in_order (thread_log lid ?t st)" "covers ?q (thread_log lid ?t st)"
    using inv trimmed by (simp_all add: delivery_inv_def)
  have q': "trim_space (ts_LastSequenceID th) = ?q"
    using old(1) q numericID_trimmed by auto
  from pollThread_log [OF Inr poll num fault trimmed [THEN conjunct1] trimmed [THEN conjunct2]]
  obtain selfID cursor ts where
    ev: "deliveries (sy_events st') = deliveries (sy_events st) @ polled_log lid selfID (o_lib E) th msgs"
    and thr: "sy_threads st' = (if cursor = [] then sy_threads st
      else modify (set_cursor cursor ts) (bid, lid, ?t) (sy_threads st))"
    and none: "cursor = [] \<Longrightarrow> polled_log lid selfID (o_lib E) th msgs = []"
    and some: "cursor \<noteq> [] \<Longrightarrow> numericID cursor \<and> covers cursor (polled_log lid selfID (o_lib E) th msgs)
      \<and> (?q = [] \<or> 0 < CompareSequenceID cursor ?q)"
    unfolding E q' by blast
  let ?new = "polled_log lid selfID (o_lib E) th msgs"
  have cur: "row_cursor bid lid st' t = (if t = ?t \<and> cursor \<noteq> [] then cursor else row_cursor bid lid st t)" for t
    using row by (auto simp: row_cursor_def thr rows.find_change row_of_def set_cursor_def split: option.split)
  have new_log: "filter (\<lambda>e. me_PortalKey e = portalKey lid t) ?new = (if t = ?t then ?new else [])" if "trimmed t" for t
    using that trimmed
    by (auto simp: polled_log_def filter_empty_conv portalKey_def trim_space_trimmed intro!: filter_True)
  have log: "thread_log lid t st' = thread_log lid t st @ (if t = ?t then ?new else [])" if "trimmed t" for t
    using new_log [OF that] by (simp add: thread_log_def ev)
  have "in_order (thread_log lid ?t st @ ?new)"
    by (rule in_order_append [OF old(2,3) page polled_log_fresh [OF num q']])
  moreover have "covers cursor (thread_log lid ?t st @ ?new)" if "cursor \<noteq> []"
  proof -
    have "covers cursor (thread_log lid ?t st)"
    proof (cases "?q = []")
      case True
      with old(3) have "thread_log lid ?t st = []" by (intro covers_blank) simp
      then show ?thesis by (simp add: covers_def)
    next
      case False
      with some [OF that] show ?thesis by (intro covers_mono [OF old(3)]) auto
    qed
    with some [OF that] show ?thesis by (simp add: covers_append)
  qed
  ultimately show ?thesis
    using inv tables some none
    by (auto simp: delivery_inv_def cur log)
qed

lemma discover_thread_cursor:
  "row_cursor bid lid (discover_thread E u st conv) t = row_cursor bid lid st t"
  "deliveries (sy_events (discover_thread E u st conv)) = deliveries (sy_events st)"
  by (auto simp: row_cursor_def discover_thread_def ThreadState_Upsert_def queue_event_def Let_def rows.find_put
      keep_cursor_def split: option.split)

lemma refreshThreads_cursor:
  "row_cursor bid lid (snd (refreshThreads E st)) t = row_cursor bid lid st t"
  "deliveries (sy_events (snd (refreshThreads E st))) = deliveries (sy_events st)"
proof -
  have f: "row_cursor bid lid (foldl (discover_thread E u) st convs) t = row_cursor bid lid st t"
    "deliveries (sy_events (foldl (discover_thread E u) st convs)) = deliveries (sy_events st)" for u convs st
    by (induction convs arbitrary: st) (simp_all add: discover_thread_cursor)
  obtain e st1 where t: "sync_token E st = (e, st1)" by (cases "sync_token E st")
  have "row_cursor bid lid st1 t = row_cursor bid lid st t" "sy_events st1 = sy_events st"
    using sync_token_frame(1,2) [OF t] by (simp_all add: row_cursor_def)
  then show "row_cursor bid lid (snd (refreshThreads E st)) t = row_cursor bid lid st t"
    "deliveries (sy_events (snd (refreshThreads E st))) = deliveries (sy_events st)"
    by (simp_all add: refreshThreads_def t f Let_def split: option.split sum.split)
qed

interpretation delivery: bridge_invariant "delivery_inv bid lid" calm_poll bid lid for bid lid
proof
  show "delivery_inv bid lid st \<Longrightarrow> same_tables st st' \<Longrightarrow> delivery_inv bid lid st'" for st st'
    using tables.unrelated by (simp add: delivery_inv_def same_tables_def row_cursor_def thread_log_def tables_inv_def tables_ok_def)
  show "delivery_inv bid lid st \<Longrightarrow> delivery_inv bid lid (snd (refreshThreads E st))" if "at_home bid lid E" for E st
    using tables.discovery [OF that]
    by (simp add: delivery_inv_def thread_log_def refreshThreads_cursor)
  fix E E' st threads th now n err th' st'
  assume a: "at_home bid lid E" "at_home bid lid E'" "delivery_inv bid lid st" "list_threads E' st = Inr threads"
    "th \<in> set threads" "calm_poll E th st" "pollThread E th now st = (n, err, th', st')"
  have i: "tables_inv st" using a(3) by (simp add: delivery_inv_def)
  have "row_of bid lid st th" using listed_row_of [OF i a(2,4)] a(5) by simp
  moreover have "tables_inv st'" by (rule tables.polling [OF a(1,2) i a(4,5) TrueI a(7)])
  ultimately show "delivery_inv bid lid st'" using delivery_poll a by blast
qed


section \<open>Read positions grow\<close>

lemma horizons_grow_refl [simp]: "horizons_grow t t"
  by (simp add: horizons_grow_def)

lemma horizons_grow_trans: "horizons_grow a b \<Longrightarrow> horizons_grow b c \<Longrightarrow> horizons_grow a c"
  unfolding horizons_grow_def by (metis order_trans)

lemma pollThread_horizons:
  assumes "pollThread E th now st = (n, err, th', st')"
  shows "horizons_grow (sy_horizons st) (sy_horizons st')"
proof (cases "fetched E th st")
  case (Inl e)
  obtain e' st1 where "sync_token E st = (e', st1)" by (cases "sync_token E st")
  from sync_token_frame(3) [OF this] this Inl assms show ?thesis by (simp add: pollThread_error)
next
  case (Inr msgs)
  then obtain st1 where t: "sync_token E st = (None, st1)"
    and l: "ListMessages (o_lib E) (o_sort E) (o_http E) (o_until E)
          (Some (newConsumer (sy_session st1))) (ts_Conversation th) (ts_LastSequenceID th) = Inr msgs"
    by (auto simp: fetched_def split: prod.splits option.splits)
  have "sy_horizons (pa_state (poll_messages E th now st1 msgs)) = sy_horizons st"
    using sync_token_frame(3) [OF t] by (simp add: poll_messages_def)
  moreover have "\<exists>th2 st2. sy_horizons st2 = sy_horizons (pa_state (poll_messages E th now st1 msgs))
      \<and> st' = snd (pollConsumptionHorizons E th2 now st2)"
  proof (cases "pa_maxSeq (poll_messages E th now st1 msgs) = []")
    case True
    with assms t l show ?thesis by (auto simp: pollThread_def Let_def split: prod.splits) (metis snd_conv)
  next
    case False
    let ?acc = "poll_messages E th now st1 msgs"
    let ?st2 = "(pa_state ?acc)\<lparr>sy_threads := snd (ThreadState_UpdateCursor (Some (o_bridge E))
        (o_fault E ''thread.cursor'') (o_login E) (ts_ThreadID th) (pa_maxSeq ?acc) (pa_maxTS ?acc)
        (sy_threads (pa_state ?acc)))\<rparr>"
    have "st' = snd (pollConsumptionHorizons E
        (th\<lparr>ts_LastSequenceID := pa_maxSeq ?acc, ts_LastMessageTS := pa_maxTS ?acc\<rparr>) now ?st2)"
      using assms t l False by (auto simp: pollThread_def Let_def split: prod.splits)
    moreover have "sy_horizons ?st2 = sy_horizons (pa_state ?acc)" by simp
    ultimately show ?thesis by blast
  qed
  ultimately show ?thesis using pollConsumptionHorizons_grow by (metis prod.collapse)
qed

lemma refreshThreads_horizons: "sy_horizons (snd (refreshThreads E st)) = sy_horizons st"
proof -
  have "sy_horizons (discover_thread E u st c) = sy_horizons st" for u st c
    by (simp add: discover_thread_def queue_event_def Let_def case_prod_beta split: option.split)
  then have "sy_horizons (foldl (discover_thread E u) st convs) = sy_horizons st" for u convs st
    by (induction convs arbitrary: st) simp_all
  moreover obtain e st1 where t: "sync_token E st = (e, st1)" by (cases "sync_token E st")
  ultimately show ?thesis
    using sync_token_frame(3) [OF t]
    by (simp add: refreshThreads_def t Let_def split: option.split sum.split)
qed

interpretation horizons: bridge_invariant "\<lambda>st. horizons_grow h (sy_horizons st)" Q bid lid for h Q bid lid
  by unfold_locales
    (auto simp: same_tables_def refreshThreads_horizons dest: pollThread_horizons intro: horizons_grow_trans)

text \<open>
  C25: In every run of the bridge, restarts included, the read position that is stored for a user in a thread
  never goes back and is never lost.
\<close>

theorem read_positions_grow:
  assumes "bridge_run Q bid lid b b'" and "map_of (sy_horizons (br_sync b)) k = Some old"
  shows "\<exists>new. map_of (sy_horizons (br_sync b')) k = Some new \<and> old \<le> new"
  using horizons.run [OF assms(1), of "sy_horizons (br_sync b)"] assms(2) unfolding horizons_grow_def by blast

section \<open>Examples\<close>

lemma sample_home: "at_home ''b'' ''8:me'' (poll_outside srt)"
  by (simp add: at_home_def)

lemma sample_tables: "tables_inv poll_sync"
proof -
  have "trimmed ''t''" by code_simp
  then show ?thesis by (simp add: tables_inv_def tables_ok_def table_ok_def keys_trimmed_def poll_sync_def)
qed

lemma sample_listing: "list_threads sample_outside poll_sync = Inr [poll_thread]"
  by (simp add: list_threads_def ThreadState_ListForLogin_def poll_sync_def thread_state_of_def poll_thread_def)

lemma sample_calm: "calm_poll sample_outside poll_thread poll_sync"
proof -
  have "rm_SequenceID (posted ''a'' ''9'') = ''9''" "rm_SequenceID (posted ''b'' ''10'') = ''10''" by code_simp+
  then have "list_all (\<lambda>m. numericID (rm_SequenceID m)) [posted ''a'' ''9'', posted ''b'' ''10'']"
    by (simp add: numericID_def parse_uint_def is_digit_def)
  moreover have "slice_sorter (o_sort sample_outside)"
    by (simp add: poll_outside_def go_insertion_sort.slice_sorter_axioms)
  ultimately show ?thesis by (simp add: calm_poll_def sample_poll)
qed

lemma sample_poll_step:
  assumes "Q sample_outside poll_thread poll_sync"
    and "pollThread sample_outside poll_thread 0 poll_sync = (n, err, th', st')"
  shows "bridge_run Q ''b'' ''8:me'' sample_bridge (with_sync sample_bridge st')"
  using bridge_step.poll [OF sample_home sample_home _ _ _ assms(2)[folded sample_bridge_simps(4)], of insertion_sort "[poll_thread]" Q]
    assms(1)
  by (simp add: sample_listing)

lemma sample_delivery: "delivery_inv ''b'' ''8:me'' poll_sync"
proof -
  have "row_cursor ''b'' ''8:me'' poll_sync t = []" for t by (simp add: row_cursor_def poll_sync_def)
  moreover have "thread_log ''8:me'' t poll_sync = []" for t by (simp add: thread_log_def poll_sync_def)
  ultimately show ?thesis
    by (simp add: delivery_inv_def sample_tables in_order_def covers_def)
qed


theorem tables_stay_ok_witness:
  "tables_inv (snd (snd (snd (pollThread sample_outside poll_thread 0 poll_sync))))"
proof -
  obtain n err th' st' where p: "pollThread sample_outside poll_thread 0 poll_sync = (n, err, th', st')"
    by (metis prod_cases4)
  from tables_stay_ok [OF sample_poll_step [where Q = "\<lambda>_ _ _. True", OF TrueI p]] sample_tables p
  show ?thesis by (simp add: with_sync_def)
qed


theorem read_positions_grow_witness:
  "\<exists>new. map_of (sy_horizons (br_sync (sample_bridge\<lparr>br_sync := LoadUserLogin (poll_sync\<lparr>sy_horizons :=
       [((''b'', ''8:me'', ''t'', ''8:ann''), 5)]\<rparr>), br_counter := 0, br_pending := []\<rparr>)))
     (''b'', ''8:me'', ''t'', ''8:ann'') = Some new \<and> 5 \<le> new"
  by (rule read_positions_grow [where b = "with_sync sample_bridge (poll_sync\<lparr>sy_horizons := [((''b'', ''8:me'', ''t'', ''8:ann''), 5)]\<rparr>)"
      and Q = "\<lambda>_ _ _. True" and bid = "''b''" and lid = "''8:me''"])
    (use bridge_step.restart [of "\<lambda>_ _ _. True" "''b''" "''8:me''"
        "with_sync sample_bridge (poll_sync\<lparr>sy_horizons := [((''b'', ''8:me'', ''t'', ''8:ann''), 5)]\<rparr>)"] in \<open>simp_all add: with_sync_def\<close>)

end
