(* ===== verification/StateFile.thy ===== *)
theory StateFile
  imports Auth
begin

text \<open>
  The tokens on disk: \<open>StateStore\<close> of \<open>internal/teams/auth/state.go\<close>, and \<open>writeFileAtomic\<close>, which the cookie
  store uses too.

  A disk maps paths to files; a file knows whether its bytes were synced. The calls of \<open>os\<close> are fields of
  \<open>osys\<close>: each fails or not. A run is the list of the disks it passes through, the latest first, so
  that what a crash leaves behind can be stated.
\<close>

section \<open>Paths and files\<close>

text \<open>\<open>filepath.Clean\<close> and \<open>filepath.Dir\<close> on Unix.\<close>

definition clean_step :: "bool \<Rightarrow> string \<Rightarrow> string list \<Rightarrow> string list" where
  "clean_step rooted seg out =
     (if seg = [] \<or> seg = ''.'' then out
      else if seg = ''..'' then
        (case out of
           [] \<Rightarrow> if rooted then [] else [''..'']
         | s # rest \<Rightarrow> if s = ''..'' then ''..'' # out else rest)
      else seg # out)"

definition filepath_clean :: "string \<Rightarrow> string" where
  "filepath_clean path =
     (if path = [] then ''.''
      else
        (let rooted = (hd path = CHR ''/'');
             body = join (rev (fold (clean_step rooted) (split_byte path (CHR ''/'')) [])) ''/''
         in if rooted then ''/'' @ body else if body = [] then ''.'' else body))"

definition filepath_dir :: "string \<Rightarrow> string" where
  "filepath_dir path = filepath_clean (rev (dropWhile (\<lambda>c. c \<noteq> CHR ''/'') (rev path)))"

record stored_file =
  fl_data :: string
  fl_synced :: bool
  fl_perm :: nat

type_synonym disk = "string \<Rightarrow> stored_file option"

record osys =
  os_random :: "string \<Rightarrow> disk \<Rightarrow> go_error + string" \<comment> \<open>\<open>CreateTemp\<close>: the text in place of the star\<close>
  os_chmod :: "string \<Rightarrow> go_error option"
  os_write :: "string \<Rightarrow> (nat \<times> go_error) option" \<comment> \<open>an error, and the bytes written before it\<close>
  os_sync :: "string \<Rightarrow> go_error option"
  os_close :: "string \<Rightarrow> go_error option"
  os_rename :: "string \<Rightarrow> string \<Rightarrow> go_error option"
  os_remove :: "string \<Rightarrow> go_error option"
  os_mkdir :: "string \<Rightarrow> go_error option" \<comment> \<open>\<open>MkdirAll\<close>\<close>
  os_read :: "string \<Rightarrow> go_error option" \<comment> \<open>\<open>ReadFile\<close> of a file that exists\<close>
  os_indent :: "json \<Rightarrow> string" \<comment> \<open>\<open>json.MarshalIndent\<close>\<close>

text \<open>A temporary file is in the directory; its name is that of no file yet.\<close>

definition temp_name :: "string \<Rightarrow> string \<Rightarrow> string" where
  "temp_name dir s = (if dir \<noteq> [] \<and> last dir = CHR ''/'' then dir else dir @ ''/'') @ ''.tmp-auth-'' @ s"

definition lawful_os :: "osys \<Rightarrow> bool" where
  "lawful_os OS \<longleftrightarrow> (\<forall>dir d s. os_random OS dir d = Inr s \<longrightarrow> d (temp_name dir s) = None)"

section \<open>writeFileAtomic\<close>

definition change :: "(disk \<Rightarrow> disk) \<Rightarrow> disk list \<Rightarrow> disk list" where
  "change f h = f (hd h) # h"

definition on_file :: "string \<Rightarrow> (stored_file \<Rightarrow> stored_file) \<Rightarrow> disk \<Rightarrow> disk" where
  "on_file p f d = d(p := map_option f (d p))"

definition written :: "string \<Rightarrow> stored_file \<Rightarrow> stored_file" where
  "written bytes f = f\<lparr>fl_data := fl_data f @ bytes, fl_synced := False\<rparr>"

definition move :: "string \<Rightarrow> string \<Rightarrow> disk \<Rightarrow> disk" where
  "move src dst d = (d(dst := d src))(src := None)"

definition fill_temp ::
  "osys \<Rightarrow> string \<Rightarrow> string \<Rightarrow> nat \<Rightarrow> string \<Rightarrow> disk list \<Rightarrow> go_error option \<times> disk list" where
  "fill_temp OS path data perm tmp h =
     (case os_chmod OS tmp of Some err \<Rightarrow> (Some err, h)
      | None \<Rightarrow>
        (let h = change (on_file tmp (fl_perm_update (\<lambda>_. perm))) h
         in case os_write OS data of
           Some (n, err) \<Rightarrow> (Some err, change (on_file tmp (written (take n data))) h)
         | None \<Rightarrow>
           (let h = change (on_file tmp (written data)) h
            in case os_sync OS tmp of Some err \<Rightarrow> (Some err, h)
            | None \<Rightarrow>
              (let h = change (on_file tmp (fl_synced_update (\<lambda>_. True))) h
               in case os_close OS tmp of Some err \<Rightarrow> (Some err, h)
               | None \<Rightarrow>
                 (case os_rename OS tmp path of Some err \<Rightarrow> (Some err, h)
                  | None \<Rightarrow> (None, change (move tmp path) h))))))"

definition writeFileAtomic ::
  "osys \<Rightarrow> string \<Rightarrow> string \<Rightarrow> nat \<Rightarrow> disk list \<Rightarrow> go_error option \<times> disk list" where
  "writeFileAtomic OS path data perm h =
     (let dir = filepath_dir path
      in case os_random OS dir (hd h) of
        Inl err \<Rightarrow> (Some err, h)
      | Inr s \<Rightarrow>
        (let tmp = temp_name dir s;
             h = change (\<lambda>d. d(tmp \<mapsto> \<lparr>fl_data = [], fl_synced = False, fl_perm = 0x180\<rparr>)) h;
             (err, h) = fill_temp OS path data perm tmp h
         in (err, if os_remove OS tmp = None then change (\<lambda>d. d(tmp := None)) h else h)))"

section \<open>StateStore\<close>

text \<open>The members of a marshalled struct; \<open>omitempty\<close> drops empty strings and zeros.\<close>

definition omit_string :: "string \<Rightarrow> string \<Rightarrow> (string \<times> json) list" where
  "omit_string name s = (if s = [] then [] else [(name, JString s)])"

definition omit_int :: "string \<Rightarrow> int \<Rightarrow> (string \<times> json) list" where
  "omit_int name i = (if i = 0 then [] else [(name, JNumber (format_int i))])"

definition auth_tree :: "AuthState \<Rightarrow> json" where
  "auth_tree st = json_map
     ([(''access_token'', JString (as_AccessToken st)), (''refresh_token'', JString (as_RefreshToken st)),
       (''expires_at'', JNumber (format_int (as_ExpiresAtUnix st)))]
      @ omit_string ''id_token'' (as_IDToken st)
      @ omit_string ''skype_token'' (as_SkypeToken st)
      @ omit_int ''skype_token_expires_at'' (as_SkypeTokenExpiresAt st)
      @ omit_string ''graph_access_token'' (as_GraphAccessToken st)
      @ omit_int ''graph_expires_at'' (as_GraphExpiresAt st)
      @ omit_string ''teams_user_id'' (as_TeamsUserID st))"

definition auth_members :: "(string \<times> AuthState member) list" where
  "auth_members =
     [(''access_token'', put_string as_AccessToken_update), (''refresh_token'', put_string as_RefreshToken_update),
      (''expires_at'', put_int64 as_ExpiresAtUnix_update), (''id_token'', put_string as_IDToken_update),
      (''skype_token'', put_string as_SkypeToken_update),
      (''skype_token_expires_at'', put_int64 as_SkypeTokenExpiresAt_update),
      (''graph_access_token'', put_string as_GraphAccessToken_update),
      (''graph_expires_at'', put_int64 as_GraphExpiresAt_update),
      (''teams_user_id'', put_string as_TeamsUserID_update)]"

definition ReadFile :: "osys \<Rightarrow> string \<Rightarrow> disk \<Rightarrow> go_error option + string" where
  \<comment> \<open>\<open>Inl None\<close>: the file does not exist\<close>
  "ReadFile OS path d =
     (case d path of None \<Rightarrow> Inl None
      | Some f \<Rightarrow> (case os_read OS path of Some err \<Rightarrow> Inl (Some err) | None \<Rightarrow> Inr (fl_data f)))"

definition Load :: "golib \<Rightarrow> osys \<Rightarrow> string \<Rightarrow> disk \<Rightarrow> go_error + AuthState option" where
  "Load L OS path d =
     (case ReadFile OS path d of
        Inl None \<Rightarrow> Inr None
      | Inl (Some err) \<Rightarrow> Inl err
      | Inr data \<Rightarrow>
        (case Option.bind (lib_json L data) (\<lambda>v. decode_struct L auth_members v no_auth) of
           None \<Rightarrow> Inl (ErrNew ''json'')
         | Some state \<Rightarrow> Inr (if hasAnyToken (Some state) then Some state else None)))"

definition Save :: "osys \<Rightarrow> string \<Rightarrow> AuthState option \<Rightarrow> disk list \<Rightarrow> go_error option \<times> disk list" where
  "Save OS path state h =
     (case state of None \<Rightarrow> (Some (ErrNew ''auth state is nil''), h)
      | Some st \<Rightarrow>
        (case os_mkdir OS (filepath_dir path) of Some err \<Rightarrow> (Some err, h)
         | None \<Rightarrow> writeFileAtomic OS path (os_indent OS (auth_tree st)) 0x180 h))"

section \<open>Crashes\<close>

text \<open>
  What a path holds after a crash: a synced file has its bytes, one that was not synced has any. At the
  latest the operations that were completed are on the disk in their order.
\<close>

definition after_crash :: "disk \<Rightarrow> string \<Rightarrow> string option \<Rightarrow> bool" where
  "after_crash d p c =
     (case d p of None \<Rightarrow> c = None | Some f \<Rightarrow> if fl_synced f then c = Some (fl_data f) else c \<noteq> None)"

lemma change_simps [simp]: "hd (change f h) = f (hd h)" "set (change f h) = insert (f (hd h)) (set h)"
  by (simp_all add: change_def)

definition temporary :: "string \<Rightarrow> bool" where "temporary p \<longleftrightarrow> contains p ''.tmp-auth-''"

lemma temporary_temp_name: "temporary (temp_name dir s)"
proof -
  have "sublist ''.tmp-auth-'' (p @ ''.tmp-auth-'' @ s)" for p
    by (rule sublist_appendI)
  from this [of "if dir \<noteq> [] \<and> last dir = CHR ''/'' then dir else dir @ ''/''"]
  show ?thesis by (simp only: temporary_def temp_name_def contains_iff_sublist)
qed

text \<open>
  A disk is sound when everything but temporary files and the written path is as it was, and that path is
  as it was or holds the new file.
\<close>

definition sound_disk :: "disk \<Rightarrow> string \<Rightarrow> stored_file \<Rightarrow> disk \<Rightarrow> bool" where
  "sound_disk d0 path new d \<longleftrightarrow>
     (\<forall>p. \<not> temporary p \<longrightarrow> p \<noteq> path \<longrightarrow> d p = d0 p) \<and> (d path = d0 path \<or> d path = Some new)"

lemma sound_temp:
  "sound_disk d0 path new d \<Longrightarrow> temporary tmp \<Longrightarrow> \<not> temporary path \<Longrightarrow> sound_disk d0 path new (d(tmp := x))"
  by (auto simp: sound_disk_def)

lemma sound_new: "sound_disk d0 path new d \<Longrightarrow> sound_disk d0 path new (d(path \<mapsto> new))"
  by (auto simp: sound_disk_def)

lemma fill_temp_sound:
  assumes f: "fill_temp OS path data perm tmp h = (err, h')" and t: "temporary tmp" "\<not> temporary path"
    and fresh: "hd h tmp = Some \<lparr>fl_data = [], fl_synced = s, fl_perm = m\<rparr>"
    and h: "list_all (sound_disk d0 path \<lparr>fl_data = data, fl_synced = True, fl_perm = perm\<rparr>) h" "h \<noteq> []"
    and old: "hd h path = d0 path"
  shows "list_all (sound_disk d0 path \<lparr>fl_data = data, fl_synced = True, fl_perm = perm\<rparr>) h'
    \<and> hd h' path = (if err = None then Some \<lparr>fl_data = data, fl_synced = True, fl_perm = perm\<rparr> else d0 path)
    \<and> h' \<noteq> []"
proof -
  have hd: "sound_disk d0 path \<lparr>fl_data = data, fl_synced = True, fl_perm = perm\<rparr> (hd h)"
    using h by (cases h) simp_all
  have ne: "tmp \<noteq> path" using t by auto
  show ?thesis
    using f fresh h hd old t ne
    by (auto simp: fill_temp_def Let_def change_def written_def on_file_def move_def
        intro!: sound_temp sound_new split: option.splits prod.splits)
qed

lemma writeFileAtomic_sound:
  assumes law: "lawful_os OS" and w: "writeFileAtomic OS path data perm [d0] = (err, h)"
    and path: "\<not> temporary path"
  shows "list_all (sound_disk d0 path \<lparr>fl_data = data, fl_synced = True, fl_perm = perm\<rparr>) h
    \<and> hd h path = (if err = None then Some \<lparr>fl_data = data, fl_synced = True, fl_perm = perm\<rparr> else d0 path)"
proof (cases "os_random OS (filepath_dir path) d0")
  case (Inl e)
  with w show ?thesis by (auto simp: writeFileAtomic_def sound_disk_def)
next
  case (Inr s)
  let ?tmp = "temp_name (filepath_dir path) s" and ?new = "\<lparr>fl_data = data, fl_synced = True, fl_perm = perm\<rparr>"
  let ?d1 = "d0(?tmp \<mapsto> \<lparr>fl_data = [], fl_synced = False, fl_perm = 0x180\<rparr>)"
  have t: "temporary ?tmp" "?tmp \<noteq> path" using temporary_temp_name path by metis+
  have s0: "sound_disk d0 path ?new d0" by (simp add: sound_disk_def)
  obtain h' where f: "fill_temp OS path data perm ?tmp [?d1, d0] = (err, h')"
    and h: "h = (if os_remove OS ?tmp = None then change (\<lambda>d. d(?tmp := None)) h' else h')"
    using w Inr by (auto simp: writeFileAtomic_def change_def Let_def split: prod.splits)
  have "list_all (sound_disk d0 path ?new) h' \<and> hd h' path = (if err = None then Some ?new else d0 path) \<and> h' \<noteq> []"
    by (rule fill_temp_sound [OF f t(1) path]) (use t path s0 in \<open>auto intro!: sound_temp\<close>)
  moreover from this have "sound_disk d0 path ?new (hd h')" by (cases h') simp_all
  ultimately show ?thesis
    using t path by (auto simp: h change_def intro!: sound_temp)
qed

text \<open>
  C12: Writing a file is atomic. Whatever call of the operating system fails, and whenever the machine
  crashes in between, the path holds its old file or the complete new one, never a part; no other file is
  touched, temporary ones apart. When the function returns no error, the path holds the new bytes, synced
  and with the wanted permissions; when it returns one, the old file.
\<close>

theorem writeFileAtomic_atomic:
  assumes "lawful_os OS" and "\<not> temporary path"
    and "writeFileAtomic OS path data perm [d0] = (err, h)"
  shows "list_all (\<lambda>d. (\<forall>c. after_crash d path c \<longrightarrow> after_crash d0 path c \<or> c = Some data)
           \<and> (\<forall>p. \<not> temporary p \<longrightarrow> p \<noteq> path \<longrightarrow> d p = d0 p)) h
    \<and> hd h path = (if err = None then Some \<lparr>fl_data = data, fl_synced = True, fl_perm = perm\<rparr> else d0 path)"
  using writeFileAtomic_sound [OF assms(1,3,2)]
  by (auto simp: sound_disk_def after_crash_def elim!: list.pred_mono_strong)

definition sample_os :: osys where
  "sample_os = \<lparr>os_random = (\<lambda>dir d. if d (temp_name dir ''7'') = None then Inr ''7'' else Inl (ErrNew ''exists'')),
     os_chmod = (\<lambda>_. None), os_write = (\<lambda>b. if length b < 9 then None else Some (4, ErrNew ''no space'')),
     os_sync = (\<lambda>_. None), os_close = (\<lambda>_. None), os_rename = (\<lambda>_ _. None), os_remove = (\<lambda>_. None),
     os_mkdir = (\<lambda>_. None), os_read = (\<lambda>_. None), os_indent = (\<lambda>_. ''{}'')\<rparr>"

lemma sample_os_lawful: "lawful_os sample_os"
  by (auto simp: lawful_os_def sample_os_def split: if_splits)

text \<open>A write that runs out of space after four bytes, and one that succeeds.\<close>

theorem writeFileAtomic_atomic_witness:
  "hd (snd (writeFileAtomic sample_os ''/d/auth'' ''123456789'' 0x180 [(\<lambda>_. None)])) ''/d/auth'' = None
   \<and> hd (snd (writeFileAtomic sample_os ''/d/auth'' ''12345678'' 0x180 [(\<lambda>_. None)])) ''/d/auth''
      = Some \<lparr>fl_data = ''12345678'', fl_synced = True, fl_perm = 0x180\<rparr>"
proof -
  have t: "\<not> temporary ''/d/auth''" by code_simp
  have e: "fst (writeFileAtomic sample_os ''/d/auth'' ''123456789'' 0x180 [(\<lambda>_. None)]) = Some (ErrNew ''no space'')"
    "fst (writeFileAtomic sample_os ''/d/auth'' ''12345678'' 0x180 [(\<lambda>_. None)]) = None"
    by (simp_all add: writeFileAtomic_def sample_os_def fill_temp_def change_def Let_def split: prod.split)
  show ?thesis
    using writeFileAtomic_atomic [OF sample_os_lawful t surjective_pairing [of "writeFileAtomic sample_os ''/d/auth'' ''123456789'' 0x180 [(\<lambda>_. None)]"]]
      writeFileAtomic_atomic [OF sample_os_lawful t surjective_pairing [of "writeFileAtomic sample_os ''/d/auth'' ''12345678'' 0x180 [(\<lambda>_. None)]"]]
    by (simp add: e)
qed

section \<open>Marshalled structs read back\<close>

text \<open>
  A tree without the source texts of its parts. The decoders of strings, numbers and structs do not look
  at those, so what a text decodes to depends on its bare tree only.
\<close>

fun bare :: "json \<Rightarrow> json" where
  "bare (JArray es) = JArray (map (\<lambda>(raw, v). ([], bare v)) es)"
| "bare (JObject ms) = JObject (map (\<lambda>(key, raw, v). (key, [], bare v)) ms)"
| "bare v = v"

definition text_blind :: "'r member \<Rightarrow> bool" where
  "text_blind p \<longleftrightarrow> (\<forall>raw v r. p raw v r = p [] (bare v) r)"

lemma text_blind_put [simp]:
  "text_blind (put_string f)" "text_blind (put_int64 g)" "text_blind (put_bool h)"
proof -
  show "text_blind (put_string f)"
    unfolding text_blind_def by (intro allI, rename_tac raw v r, case_tac v) simp_all
  show "text_blind (put_int64 g)"
    unfolding text_blind_def by (intro allI, rename_tac raw v r, case_tac v) simp_all
  show "text_blind (put_bool h)"
    unfolding text_blind_def by (intro allI, rename_tac raw v r, case_tac v) simp_all
qed

lemma text_blind_list:
  assumes "\<And>v. dec v = dec (bare v)"
  shows "text_blind (put_list dec f)"
proof -
  have "decode_all dec (map snd es) = decode_all dec (map (bare \<circ> snd) es)" for es :: "(string \<times> json) list"
    by (induction es) (simp_all flip: assms)
  then show ?thesis
    unfolding text_blind_def
    by (intro allI, rename_tac raw v r, case_tac v) (simp_all add: comp_def case_prod_beta)
qed

lemma struct_members_bare:
  assumes "list_all (\<lambda>(name, p). text_blind p) fs"
  shows "struct_members L fs ms r = struct_members L fs (map (\<lambda>(key, raw, v). (key, [], bare v)) ms) r"
proof (induction ms arbitrary: r)
  case (Cons m ms)
  obtain key raw v where m: "m = (key, raw, v)" by (cases m)
  have "p raw v r = p [] (bare v) r" if "find (\<lambda>(name, _). field_is L name key) fs = Some (name, p)" for name p
  proof -
    have "(name, p) \<in> set fs" using that by (metis find_Some_iff nth_mem)
    then show ?thesis using assms by (auto simp: list_all_iff text_blind_def)
  qed
  then show ?case
    by (auto simp: m Cons.IH [abs_def] split: option.split intro!: arg_cong2 [where f = Option.bind])
qed simp

lemma decode_struct_bare:
  assumes "list_all (\<lambda>(name, p). text_blind p) fs"
  shows "decode_struct L fs (bare v) r = decode_struct L fs v r"
  using struct_members_bare [OF assms, symmetric] by (cases v) simp_all

text \<open>Members are read in turn; one that \<open>omitempty\<close> dropped leaves the zero that is there.\<close>

lemma json_map_append: "decode_struct L fs (json_map (as @ bs)) r
    = Option.bind (decode_struct L fs (json_map as) r) (decode_struct L fs (json_map bs))"
  by (induction as arbitrary: r)
    (auto simp: json_map_def fun_eq_iff split: option.split intro!: arg_cong2 [where f = Option.bind])

lemma json_map_Cons:
  "decode_struct L fs (json_map (a # b # bs)) r
    = Option.bind (decode_struct L fs (json_map [a]) r) (decode_struct L fs (json_map (b # bs)))"
  "decode_struct L fs (json_map (a # cs @ ds)) r
    = Option.bind (decode_struct L fs (json_map [a]) r) (decode_struct L fs (json_map (cs @ ds)))"
  using json_map_append [of L fs "[a]" "b # bs"] json_map_append [of L fs "[a]" "cs @ ds"] by simp_all

lemma decode_string_member:
  assumes "find (\<lambda>(name, _). field_is L name key) fs = Some (name, put_string upd)"
  shows "decode_struct L fs (json_map [(key, JString s)]) r = Some (upd (\<lambda>_. s) r)"
  using assms by (simp add: json_map_def)

lemma decode_int_member:
  assumes "find (\<lambda>(name, _). field_is L name key) fs = Some (name, put_int64 upd)"
    and "- (2 ^ 63) \<le> i" "i < 2 ^ 63"
  shows "decode_struct L fs (json_map [(key, JNumber (format_int i))]) r = Some (upd (\<lambda>_. i) r)"
  using assms parse_int_format_int by (simp add: json_map_def)

lemma decode_omit_string:
  assumes "find (\<lambda>(name, _). field_is L name key) fs = Some (name, put_string upd)"
    and "s = [] \<Longrightarrow> upd (\<lambda>_. []) r = r"
  shows "decode_struct L fs (json_map (omit_string key s)) r = Some (upd (\<lambda>_. s) r)"
  using assms by (auto simp: omit_string_def decode_string_member) (simp add: json_map_def)

lemma decode_omit_int:
  assumes "find (\<lambda>(name, _). field_is L name key) fs = Some (name, put_int64 upd)"
    and "- (2 ^ 63) \<le> i" "i < 2 ^ 63" and "i = 0 \<Longrightarrow> upd (\<lambda>_. 0) r = r"
  shows "decode_struct L fs (json_map (omit_int key i)) r = Some (upd (\<lambda>_. i) r)"
  using assms by (auto simp: omit_int_def decode_int_member) (simp add: json_map_def)

text \<open>Lower-case field names match only themselves.\<close>

definition plain_name :: "string \<Rightarrow> bool" where
  "plain_name s \<longleftrightarrow> list_all (\<lambda>c. is_ascii c \<and> ascii_lower c = c) s"

lemma field_is_plain: "plain_name a \<Longrightarrow> plain_name b \<Longrightarrow> field_is L a b \<longleftrightarrow> a = b"
proof -
  have m: "list_all is_ascii s \<and> map ascii_lower s = s" if "plain_name s" for s
    using that by (induction s) (auto simp: plain_name_def)
  show "plain_name a \<Longrightarrow> plain_name b \<Longrightarrow> field_is L a b \<longleftrightarrow> a = b"
    using m [of a] m [of b] by (auto simp: field_is_def equal_fold_def)
qed

lemma auth_names_plain:
  "plain_name ''access_token''" "plain_name ''refresh_token''" "plain_name ''expires_at''"
  "plain_name ''id_token''" "plain_name ''skype_token''" "plain_name ''skype_token_expires_at''"
  "plain_name ''graph_access_token''" "plain_name ''graph_expires_at''" "plain_name ''teams_user_id''"
  by code_simp+

definition int64_range :: "int \<Rightarrow> bool" where
  "int64_range i \<longleftrightarrow> - (2 ^ 63) \<le> i \<and> i < 2 ^ 63"

lemma auth_tree_decodes:
  assumes "int64_range (as_ExpiresAtUnix st)" "int64_range (as_SkypeTokenExpiresAt st)"
    "int64_range (as_GraphExpiresAt st)"
  shows "decode_struct L auth_members (auth_tree st) no_auth = Some st"
proof -
  note finds = auth_names_plain auth_members_def field_is_plain
  show ?thesis
    unfolding auth_tree_def
    using assms
    by (simp add: finds json_map_append json_map_Cons decode_string_member decode_int_member
         decode_omit_string decode_omit_int int64_range_def no_auth_def)
qed

lemma auth_members_blind: "list_all (\<lambda>(name, p). text_blind p) auth_members"
  by (simp add: auth_members_def)

text \<open>
  C27: The stored tokens come back: after a successful \<open>Save\<close>, \<open>Load\<close> returns the state that was saved, or
  none if the state holds no token at all. The JSON parser is asked to give back the tree that was written.
\<close>

theorem Load_after_Save:
  assumes "lawful_os OS" and "\<not> temporary path"
    and saved: "Save OS path (Some st) [d0] = (None, h)"
    and "int64_range (as_ExpiresAtUnix st)" "int64_range (as_SkypeTokenExpiresAt st)"
      "int64_range (as_GraphExpiresAt st)"
    and parse: "map_option bare (lib_json L (os_indent OS (auth_tree st))) = Some (auth_tree st)"
    and "os_read OS path = None"
  shows "Load L OS path (hd h) = Inr (if hasAnyToken (Some st) then Some st else None)"
proof -
  from saved have "writeFileAtomic OS path (os_indent OS (auth_tree st)) 0x180 [d0] = (None, h)"
    by (simp add: Save_def split: option.splits)
  from writeFileAtomic_sound [OF assms(1) this assms(2)]
  have on_disk: "hd h path = Some \<lparr>fl_data = os_indent OS (auth_tree st), fl_synced = True, fl_perm = 0x180\<rparr>"
    by simp
  from parse obtain t where t: "lib_json L (os_indent OS (auth_tree st)) = Some t" "bare t = auth_tree st"
    by auto
  have "decode_struct L auth_members t no_auth = Some st"
    using decode_struct_bare [OF auth_members_blind, of L t no_auth] auth_tree_decodes [OF assms(4-6)] t(2) by simp
  with on_disk t(1) assms(8) show ?thesis by (simp add: Load_def ReadFile_def)
qed

definition sample_state :: AuthState where
  "sample_state = no_auth\<lparr>as_RefreshToken := ''r'', as_SkypeToken := ''s'', as_SkypeTokenExpiresAt := 1700000000\<rparr>"

definition state_lib :: golib where
  "state_lib = plain_lib\<lparr>lib_json := (\<lambda>text. if text = ''{}'' then Some (auth_tree sample_state) else None)\<rparr>"

theorem Load_after_Save_witness:
  "Load state_lib sample_os ''/d/auth'' (hd (snd (Save sample_os ''/d/auth'' (Some sample_state) [(\<lambda>_. None)])))
    = Inr (Some sample_state)"
proof -
  have "fst (Save sample_os ''/d/auth'' (Some sample_state) [(\<lambda>_. None)]) = None"
    by (simp add: Save_def writeFileAtomic_def sample_os_def fill_temp_def change_def Let_def split: prod.split)
  then have s: "Save sample_os ''/d/auth'' (Some sample_state) [(\<lambda>_. None)]
      = (None, snd (Save sample_os ''/d/auth'' (Some sample_state) [(\<lambda>_. None)]))"
    by (metis prod.collapse)
  have "\<not> temporary ''/d/auth''" by code_simp
  moreover have "bare (auth_tree sample_state) = auth_tree sample_state"
    by (simp add: auth_tree_def sample_state_def no_auth_def omit_string_def omit_int_def json_map_def)
  ultimately show ?thesis
    using Load_after_Save [OF sample_os_lawful _ s, of state_lib]
    by (simp add: int64_range_def state_lib_def sample_os_def) (simp add: sample_state_def no_auth_def hasAnyToken_def)
qed

end
