(* ===== verification/Startup.thy ===== *)
theory Startup
  imports System StateFile
begin

text \<open>
  How the parts are put together: \<open>teamsdb/database.go\<close>, \<open>config.go\<close>, \<open>capabilities.go\<close>, \<open>dbmeta.go\<close>,
  \<open>login_lifecycle.go\<close> of the connector, \<open>GetName\<close> of \<open>connector.go\<close>, the metadata of a login as JSON
  (\<open>teamsid/dbmeta.go\<close>), and the capabilities that \<open>client.go\<close> advertises. At the end, the background sync of
  theory \<open>Matrix\<close> as a run of the bridge.

  Parameters: the merging of configuration files (\<open>copy\<close>), and JSON text, as in theory \<open>StateFile\<close>.
\<close>

section \<open>The database\<close>

text \<open>A query object is the ID of its bridge; the tables are the same for all bridges of a database.\<close>

record Database =
  db_ThreadState :: "string option"
  db_Profile :: "string option"
  db_ConsumptionHorizon :: "string option"

definition New :: "string \<Rightarrow> Database" where
  "New bridgeID = \<lparr>db_ThreadState = Some bridgeID, db_Profile = Some bridgeID,
     db_ConsumptionHorizon = Some bridgeID\<rparr>"

text \<open>\<open>ProfileQuery.scan\<close>: a column that is null leaves the zero value.\<close>

definition Profile_scan ::
  "string \<Rightarrow> go_error + string option \<times> string option \<times> int option \<Rightarrow> go_error + Profile option" where
  "Profile_scan bridge row =
     (case row of
        Inl err \<Rightarrow> Inl err
      | Inr (teamsUserID, displayName, lastSeenMS) \<Rightarrow>
          Inr (Some \<lparr>pr_BridgeID = bridge,
            pr_TeamsUserID = (case teamsUserID of Some s \<Rightarrow> s | None \<Rightarrow> []),
            pr_DisplayName = (case displayName of Some s \<Rightarrow> s | None \<Rightarrow> []),
            pr_LastSeenTS = (case lastSeenMS of Some ms \<Rightarrow> ms * 1000000 | None \<Rightarrow> zero_time)\<rparr>))"

text \<open>The schema has no null columns: a row that is there is read as theory \<open>TeamsDB\<close> has it.\<close>

lemma Profile_scan_row:
  assumes "trim_space i \<noteq> []"
  shows "Profile_GetByTeamsUserID (Some bridge) None i t =
     Profile_scan bridge (case map_of t (bridge, trim_space i) of
        None \<Rightarrow> Inl ErrNoRows
      | Some (name, ms) \<Rightarrow> Inr (Some (trim_space i), Some name, Some ms))"
  using assms
  by (simp add: Profile_GetByTeamsUserID_def Profile_scan_def Let_def split: option.split)

section \<open>Configuration\<close>

record TeamsConfig =
  tc_ClientID :: string

definition upgradeConfig :: "(string \<Rightarrow> 'cfg \<Rightarrow> 'cfg) \<Rightarrow> 'cfg \<Rightarrow> 'cfg" where
  "upgradeConfig copy = copy ''client_id''"

definition GetConfig ::
  "string \<Rightarrow> TeamsConfig \<Rightarrow> (string \<Rightarrow> 'cfg \<Rightarrow> 'cfg) \<Rightarrow> string \<times> TeamsConfig \<times> ('cfg \<Rightarrow> 'cfg)" where
  "GetConfig exampleConfig config copy = (exampleConfig, config, upgradeConfig copy)"

section \<open>Metadata\<close>

text \<open>The members of \<open>UserLoginMetadata\<close>, all of them \<open>omitempty\<close>; the other metadata types have none.\<close>

definition metadata_tree :: "UserLoginMetadata \<Rightarrow> json" where
  "metadata_tree m = json_map
     (omit_string ''refresh_token'' (um_RefreshToken m)
      @ omit_int ''access_token_expires_at'' (um_AccessTokenExpiresAt m)
      @ omit_string ''oauth_client_id'' (um_OAuthClientID m)
      @ omit_string ''skype_token'' (um_SkypeToken m)
      @ omit_int ''skype_token_expires_at'' (um_SkypeTokenExpiresAt m)
      @ omit_string ''graph_access_token'' (um_GraphAccessToken m)
      @ omit_int ''graph_expires_at'' (um_GraphExpiresAt m)
      @ omit_string ''teams_user_id'' (um_TeamsUserID m))"

definition metadata_members :: "(string \<times> UserLoginMetadata member) list" where
  "metadata_members =
     [(''refresh_token'', put_string um_RefreshToken_update),
      (''access_token_expires_at'', put_int64 um_AccessTokenExpiresAt_update),
      (''oauth_client_id'', put_string um_OAuthClientID_update),
      (''skype_token'', put_string um_SkypeToken_update),
      (''skype_token_expires_at'', put_int64 um_SkypeTokenExpiresAt_update),
      (''graph_access_token'', put_string um_GraphAccessToken_update),
      (''graph_expires_at'', put_int64 um_GraphExpiresAt_update),
      (''teams_user_id'', put_string um_TeamsUserID_update)]"

text \<open>
  \<open>GetDBMetaTypes\<close>: for each table the value into which the framework decodes its column. Only that of
  user logins has fields.
\<close>

record MetaTypes =
  mt_Portal :: unit
  mt_Ghost :: unit
  mt_Message :: unit
  mt_Reaction :: unit
  mt_UserLogin :: UserLoginMetadata

definition GetDBMetaTypes :: MetaTypes where
  "GetDBMetaTypes = \<lparr>mt_Portal = (), mt_Ghost = (), mt_Message = (), mt_Reaction = (), mt_UserLogin = no_metadata\<rparr>"

text \<open>What the framework reads from the column of a login.\<close>

definition stored_metadata :: "golib \<Rightarrow> string \<Rightarrow> UserLoginMetadata option" where
  "stored_metadata L column =
     Option.bind (lib_json L column) (\<lambda>v. decode_struct L metadata_members v (mt_UserLogin GetDBMetaTypes))"

section \<open>Starting a login\<close>

datatype go_context = Background | Given_Context string

definition loginConnectBaseCtx :: "go_context option option option \<Rightarrow> go_context" where
  \<comment> \<open>the connector, its bridge, its context: each may be nil\<close>
  "loginConnectBaseCtx main =
     (case main of Some (Some (Some ctx)) \<Rightarrow> ctx | _ \<Rightarrow> Background)"

text \<open>The client whose \<open>Connect\<close> is started, and in which context.\<close>

definition startLoginConnect :: "'c option option \<Rightarrow> go_context option \<Rightarrow> ('c \<times> go_context) option" where
  "startLoginConnect login baseCtx =
     (case login of
        Some (Some client) \<Rightarrow> Some (client, case baseCtx of Some ctx \<Rightarrow> ctx | None \<Rightarrow> Background)
      | _ \<Rightarrow> None)"

section \<open>Capabilities\<close>

datatype CapLevel = CapLevelFullySupported

record FileFeatures =
  ff_MimeTypes :: "(string \<times> CapLevel) list"
  ff_Caption :: CapLevel
  ff_MaxSize :: int

record RoomFeatures =
  rf_ID :: string
  rf_File :: "(MsgType \<times> FileFeatures) list"
  rf_Reaction :: CapLevel
  rf_TypingNotifications :: bool
  rf_ReadReceipts :: bool
  rf_PerMessageProfileRelay :: bool

definition GetCapabilities :: RoomFeatures where
  "GetCapabilities =
     (let fileFeatures = \<lparr>ff_MimeTypes = [(''*/*'', CapLevelFullySupported)],
            ff_Caption = CapLevelFullySupported, ff_MaxSize = MaxAttachmentBytesV0\<rparr>
      in \<lparr>rf_ID = ''fi.mau.teams.capabilities.2026_02_12_3'',
          rf_File = [(MsgFile, fileFeatures), (MsgImage, fileFeatures), (MsgVideo, fileFeatures),
                     (MsgAudio, fileFeatures)],
          rf_Reaction = CapLevelFullySupported, rf_TypingNotifications = True, rf_ReadReceipts = True,
          rf_PerMessageProfileRelay = True\<rparr>)"

text \<open>What the connector says of itself; its general capabilities are the zero value.\<close>

definition GetBridgeInfoVersion :: "int \<times> int" where
  "GetBridgeInfoVersion = (1, 9)"

record BridgeName =
  bn_DisplayName :: string
  bn_NetworkURL :: string
  bn_NetworkIcon :: string
  bn_NetworkID :: string
  bn_BeeperBridgeType :: string
  bn_DefaultPort :: nat

definition GetName :: BridgeName where
  "GetName = \<lparr>bn_DisplayName = ''Microsoft Teams'', bn_NetworkURL = ''https://www.microsoft.com/microsoft-teams'',
     bn_NetworkIcon = [], bn_NetworkID = ''msteams'', bn_BeeperBridgeType = ''msteams'', bn_DefaultPort = 29340\<rparr>"

section \<open>A background sync is a run of the bridge\<close>

lemma poll_all_run:
  assumes P: "\<And>n. at_home bid lid (P n)" and E: "at_home bid lid E" "o_fault E ''thread.list'' = None"
  shows "tables_inv st \<Longrightarrow> distinct (map (ts_ThreadID \<circ> snd) ths) \<Longrightarrow> list_all (row_of bid lid st \<circ> snd) ths
    \<Longrightarrow> bridge_run (\<lambda>_ _ _. True) bid lid (with_sync b st)
         (with_sync b (foldl (\<lambda>st (i, th). snd (snd (snd (pollThread (P i) th (clk i) st)))) st ths))"
proof (induction ths arbitrary: st)
  case (Cons x ths)
  obtain i th where x: "x = (i, th)" by fastforce
  obtain n err th' st' where p: "pollThread (P i) th (clk i) st = (n, err, th', st')" by (metis prod_cases4)
  have here: "row_of bid lid st th" using Cons.prems(3) x by simp
  obtain threads where l: "list_threads E st = Inr threads"
    using E(2) by (simp add: list_threads_def ThreadState_ListForLogin_def)
  have "th \<in> set threads" using here listed_row_of [OF Cons.prems(1) E(1) l] by simp
  then have s: "bridge_step (\<lambda>_ _ _. True) bid lid (with_sync b st) (with_sync b st')"
    using bridge_step.poll [where b = "with_sync b st" and Q = "\<lambda>_ _ _. True", OF P E(1) _ _ TrueI, of threads th i "clk i"]
      l p by (simp add: with_sync_def)
  have i': "tables_inv st'" using tables.step [OF s] Cons.prems(1) by (simp add: with_sync_def)
  have "row_of bid lid st' y" if "(j, y) \<in> set ths" for j y
  proof (rule row_of_poll_other [OF Cons.prems(1) here _ _ p P])
    show "row_of bid lid st y" using Cons.prems(3) that by (auto simp: list_all_iff)
    show "ts_ThreadID y \<noteq> ts_ThreadID th" using Cons.prems(2) that x by force
  qed
  then have "list_all (row_of bid lid st' \<circ> snd) ths" by (auto simp: list_all_iff)
  then have "bridge_run (\<lambda>_ _ _. True) bid lid (with_sync b st')
      (with_sync b (foldl (\<lambda>st (i, th). snd (snd (snd (pollThread (P i) th (clk i) st)))) st' ths))"
    using Cons.IH [OF i'] Cons.prems(2) by (simp add: comp_def)
  with s show ?case by (simp add: x p converse_rtranclp_into_rtranclp)
qed simp



section \<open>Properties of the pieces\<close>

text \<open>
  What one bridge writes leaves the rows of another alone.
\<close>

lemma filter_upsert_other:
  "(\<And>r. \<not> P (k, r)) \<Longrightarrow> filter P (upsert merge k r t) = filter P t"
  by (induction t) (auto simp: upsert_def split: if_splits option.splits)

lemma filter_modify_other:
  "(\<And>r. \<not> P (k, r)) \<Longrightarrow> filter P (modify f k t) = filter P t"
  by (induction t) (auto simp: modify_def split: if_splits option.splits)

lemma map_of_upsert_other: "k' \<noteq> k \<Longrightarrow> map_of (upsert merge k r t) k' = map_of t k'"
  by (simp add: rows.find_put_other)

lemma map_of_modify_other: "k' \<noteq> k \<Longrightarrow> map_of (modify f k t) k' = map_of t k'"
  by (simp add: rows.find_change_other)

lemma other_bridge_reads:
  assumes "filter (\<lambda>((b, l, tid), r). b = b' \<and> l = login) t' = filter (\<lambda>((b, l, tid), r). b = b' \<and> l = login) t"
    and "map_of t' (b', login, trim_space thread) = map_of t (b', login, trim_space thread)"
  shows "ThreadState_ListForLogin (Some b') f login t' = ThreadState_ListForLogin (Some b') f login t
    \<and> ThreadState_Get (Some b') f login thread t' = ThreadState_Get (Some b') f login thread t"
  using assms by (cases f) (simp_all add: ThreadState_ListForLogin_def ThreadState_Get_def Let_def)

lemma threads_isolated:
  assumes "b \<noteq> b'"
  shows "ThreadState_ListForLogin (Some b') f login (snd (snd (ThreadState_Upsert (Some b) fault state t)))
      = ThreadState_ListForLogin (Some b') f login t"
    and "ThreadState_Get (Some b') f login thread (snd (snd (ThreadState_Upsert (Some b) fault state t)))
      = ThreadState_Get (Some b') f login thread t"
    and "ThreadState_ListForLogin (Some b') f login (snd (ThreadState_UpdateCursor (Some b) fault login' thread' seq ts t))
      = ThreadState_ListForLogin (Some b') f login t"
    and "ThreadState_Get (Some b') f login thread (snd (ThreadState_UpdateCursor (Some b) fault login' thread' seq ts t))
      = ThreadState_Get (Some b') f login thread t"
proof -
  let ?t1 = "snd (snd (ThreadState_Upsert (Some b) fault state t))"
  let ?t2 = "snd (ThreadState_UpdateCursor (Some b) fault login' thread' seq ts t)"
  have "?t1 = t \<or> (\<exists>l i r. ?t1 = upsert keep_cursor (b, l, i) r t)"
    by (auto simp: ThreadState_Upsert_def Let_def split: option.split)
  with assms other_bridge_reads [of b' login ?t1 t thread f] show
    "ThreadState_ListForLogin (Some b') f login ?t1 = ThreadState_ListForLogin (Some b') f login t"
    "ThreadState_Get (Some b') f login thread ?t1 = ThreadState_Get (Some b') f login thread t"
    by (auto simp: filter_upsert_other map_of_upsert_other)
  have "?t2 = t \<or> (\<exists>l i g. ?t2 = modify g (b, l, i) t)"
    by (auto simp: ThreadState_UpdateCursor_def Let_def split: option.split)
  with assms other_bridge_reads [of b' login ?t2 t thread f] show
    "ThreadState_ListForLogin (Some b') f login ?t2 = ThreadState_ListForLogin (Some b') f login t"
    "ThreadState_Get (Some b') f login thread ?t2 = ThreadState_Get (Some b') f login thread t"
    by (auto simp: filter_modify_other map_of_modify_other)
qed

lemma profiles_isolated:
  assumes "b \<noteq> b'"
  shows "Profile_GetByTeamsUserID (Some b') f user (snd (Profile_Upsert (Some b) fault user' name seen p))
      = Profile_GetByTeamsUserID (Some b') f user p"
proof -
  let ?p = "snd (Profile_Upsert (Some b) fault user' name seen p)"
  have "?p = p \<or> (\<exists>i r. ?p = upsert (\<lambda>_ new. new) (b, i) r p)"
    by (auto simp: Profile_Upsert_def Let_def split: option.split)
  with assms have "map_of ?p (b', trim_space user) = map_of p (b', trim_space user)"
    by (auto simp: map_of_upsert_other)
  then show ?thesis by (cases f) (simp_all add: Profile_GetByTeamsUserID_def Let_def)
qed

lemma horizons_isolated:
  assumes "b \<noteq> b'"
  shows "ConsumptionHorizon_Get (Some b') f login thread user
      (snd (ConsumptionHorizon_UpsertLastRead (Some b) fault login' thread' user' read h))
      = ConsumptionHorizon_Get (Some b') f login thread user h"
proof -
  let ?h = "snd (ConsumptionHorizon_UpsertLastRead (Some b) fault login' thread' user' read h)"
  have "?h = h \<or> (\<exists>l i u r. ?h = upsert (\<lambda>_ new. new) (b, l, i, u) r h)"
    by (auto simp: ConsumptionHorizon_UpsertLastRead_def Let_def split: option.split)
  with assms have "map_of ?h (b', login, i, u) = map_of h (b', login, i, u)" for i u
    by (auto simp: map_of_upsert_other)
  then show ?thesis by (cases f) (simp_all add: ConsumptionHorizon_Get_def Let_def)
qed

text \<open>
  Bridges that share a database do not see each other. Whatever one bridge writes through its queries, to
  whichever login, thread or user, every query of another bridge answers as before.
\<close>

theorem bridges_isolated:
  assumes "b \<noteq> b'"
  defines "own \<equiv> New b" and "other \<equiv> New b'"
  shows "list_all (\<lambda>t'. ThreadState_ListForLogin (db_ThreadState other) f login t'
             = ThreadState_ListForLogin (db_ThreadState other) f login t
           \<and> ThreadState_Get (db_ThreadState other) f login thread t' = ThreadState_Get (db_ThreadState other) f login thread t)
         [snd (snd (ThreadState_Upsert (db_ThreadState own) fault state t)),
          snd (ThreadState_UpdateCursor (db_ThreadState own) fault login' thread' seq ts t)]
     \<and> Profile_GetByTeamsUserID (db_Profile other) f user
         (snd (Profile_Upsert (db_Profile own) fault user' name seen p)) = Profile_GetByTeamsUserID (db_Profile other) f user p
     \<and> ConsumptionHorizon_Get (db_ConsumptionHorizon other) f login thread user
         (snd (ConsumptionHorizon_UpsertLastRead (db_ConsumptionHorizon own) fault login' thread' user' read h))
       = ConsumptionHorizon_Get (db_ConsumptionHorizon other) f login thread user h"
  unfolding own_def other_def New_def
  using assms(1)
  by (simp add: threads_isolated profiles_isolated horizons_isolated)

theorem bridges_isolated_witness:
  "ThreadState_ListForLogin (db_ThreadState (New ''b'')) None ''8:me''
      (snd (ThreadState_UpdateCursor (db_ThreadState (New ''c'')) None ''8:me'' ''t'' ''7'' 7 (sy_threads poll_sync)))
   = ThreadState_ListForLogin (db_ThreadState (New ''b'')) None ''8:me'' (sy_threads poll_sync)"
  using bridges_isolated [of "''c''" "''b''" None "''8:me''" "sy_threads poll_sync" "''t''" None None "''8:me''" "''t''" "''7''" 7]
  by simp

lemma metadata_names_plain:
  "plain_name ''oauth_client_id''" "plain_name ''access_token_expires_at''"
  by code_simp+

text \<open>
  The metadata of a login survive a restart. What the framework stores as JSON after a save is decoded, when the
  login is loaded, into the same tokens, expiry times and IDs. The JSON parser is asked to give back the tree written.
\<close>

theorem metadata_roundtrip:
  assumes "int64_range (um_AccessTokenExpiresAt m)" "int64_range (um_SkypeTokenExpiresAt m)"
      "int64_range (um_GraphExpiresAt m)"
    and "lib_json L column = Some (metadata_tree m)"
  shows "stored_metadata L column = Some m"
proof -
  have "decode_struct L metadata_members (metadata_tree m) no_metadata = Some m"
    unfolding metadata_tree_def
    using assms(1-3)
    by (simp add: auth_names_plain metadata_names_plain metadata_members_def field_is_plain json_map_append
        decode_omit_string decode_omit_int int64_range_def no_metadata_def)
  with assms(4) show ?thesis by (simp add: stored_metadata_def GetDBMetaTypes_def)
qed

theorem metadata_roundtrip_witness:
  "stored_metadata (plain_lib\<lparr>lib_json := \<lambda>_. Some (metadata_tree old_metadata)\<rparr>) ''{}'' = Some old_metadata"
  by (rule metadata_roundtrip) (simp_all add: old_metadata_def no_metadata_def int64_range_def)

text \<open>
  The bridge keeps what it advertises. A Matrix message is taken for a file exactly if the capabilities list its
  type, and a file that was downloaded is refused for its size exactly if it is larger than the size they name.
\<close>

theorem capabilities_kept:
  "(ExtractMatrixFileInfo mxc (Some m) = Inl (ErrNew ''not a file message'')
      \<longleftrightarrow> map_of (rf_File GetCapabilities) (mx_MsgType m) = None)
   \<and> (\<forall>features info b. map_of (rf_File GetCapabilities) (mx_MsgType m) = Some features \<longrightarrow>
        ExtractMatrixFileInfo mxc (Some m) = Inr info \<longrightarrow> download (mf_MXCURL info) (mf_Encrypted info) = Inr b \<longrightarrow>
        HandleOutboundMatrixFile mxc threadID (Some m) download send s =
          (if ff_MaxSize features < int (length b)
           then Some (Some (ErrNew (''attachment exceeds max size: '' @ format_int (int (length b)) @ '' > ''
                  @ format_int (ff_MaxSize features))), s)
           else send (trim_space threadID) (mf_FileName info) b (mf_Caption info) s))"
  by (cases "mx_MsgType m")
    (auto simp: GetCapabilities_def ExtractMatrixFileInfo_def HandleOutboundMatrixFile_def Let_def split: if_splits)

end
