(* ===== verification/Interleave.thy ===== *)
theory Interleave
  imports System
begin

text \<open>
  Handlers in the middle of a poll. \<open>bridge_step\<close> of theory \<open>System\<close> takes a poll as one step, but the goroutine of
  \<open>syncLoop\<close> (\<open>handleteams.go\<close>) holds no lock while it goes through the messages of a thread: a Matrix handler may
  run between two of them. Here the loop of \<open>pollThread\<close> over the messages is taken message by message, with
  handlers in between, and compared with the undisturbed loop.

  What the two share: the login, whose tokens a handler may renew; the own messages, to which a handler adds the one
  it has sent (under a mutex, so whole); and the marks of unread threads.
\<close>

section \<open>The fine steps\<close>

inductive matrix_step :: "Bridge \<Rightarrow> Bridge \<Rightarrow> bool" where
  on_message: "HandleMatrixMessage X msg b = Some (res, b') \<Longrightarrow> matrix_step b b'"
| on_attachment: "SendAttachmentMessage X t f content caption b = Some (res', b') \<Longrightarrow> matrix_step b b'"
| on_prereaction: "PreHandleMatrixReaction X r b = (res2, b') \<Longrightarrow> matrix_step b b'"
| on_reaction: "HandleMatrixReaction X r b = (res3, b') \<Longrightarrow> matrix_step b b'"
| on_unreaction: "HandleMatrixReactionRemove X t target b = (err, b') \<Longrightarrow> matrix_step b b'"
| on_typing: "HandleMatrixTyping X t isTyping b = (err, b') \<Longrightarrow> matrix_step b b'"
| on_receipt: "HandleMatrixReadReceipt X t b = (err, b') \<Longrightarrow> matrix_step b b'"

definition user_of :: "Sync \<Rightarrow> string" where
  "user_of st = (case se_Meta (sy_session st) of Some m \<Rightarrow> um_TeamsUserID m | None \<Rightarrow> [])"

text \<open>
  The state of the loop, the rest of the bridge, and the messages to come. A handler may renew the tokens in between,
  for the same user.
\<close>

type_synonym fine_state = "poll_acc \<times> Bridge \<times> RemoteMessage list"

inductive fine_step ::
  "outside \<Rightarrow> ThreadState \<Rightarrow> instant \<Rightarrow> string \<Rightarrow> string \<Rightarrow> fine_state \<Rightarrow> fine_state \<Rightarrow> bool"
  for E th now lastSeq selfID where
  next_message: "fine_step E th now lastSeq selfID (acc, b, msg # msgs)
     (poll_message E th now lastSeq selfID acc msg, b, msgs)"
| handler: "matrix_step (with_sync b (pa_state acc)) b' \<Longrightarrow> user_of (br_sync b') = user_of (pa_state acc) \<Longrightarrow>
     fine_step E th now lastSeq selfID (acc, b, msgs) (acc\<lparr>pa_state := br_sync b'\<rparr>, b', msgs)"

inductive_cases fine_stepE: "fine_step E th now lastSeq selfID x y"

abbreviation fine_run ::
  "outside \<Rightarrow> ThreadState \<Rightarrow> instant \<Rightarrow> string \<Rightarrow> string \<Rightarrow> fine_state \<Rightarrow> fine_state \<Rightarrow> bool" where
  "fine_run E th now lastSeq selfID \<equiv> (fine_step E th now lastSeq selfID)\<^sup>*\<^sup>*"

section \<open>What the loop depends on\<close>

text \<open>Two states that agree in the tables, the events, the records of the polls, and the user.\<close>

definition poll_alike :: "Sync \<Rightarrow> Sync \<Rightarrow> bool" where
  "poll_alike st st' \<longleftrightarrow> same_records st st' \<and> user_of st' = user_of st"

lemma poll_alikeD:
  assumes "poll_alike st st'"
  shows "sy_threads st' = sy_threads st" "sy_profiles st' = sy_profiles st" "sy_horizons st' = sy_horizons st"
    "sy_events st' = sy_events st" "sy_reactionSeen st' = sy_reactionSeen st"
    "sy_receiptPoll st' = sy_receiptPoll st" "user_of st' = user_of st"
  using assms by (simp_all add: poll_alike_def same_records_def same_tables_def)

lemma poll_alikeI:
  assumes "sy_threads st' = sy_threads st" "sy_profiles st' = sy_profiles st" "sy_horizons st' = sy_horizons st"
    "sy_events st' = sy_events st" "sy_reactionSeen st' = sy_reactionSeen st"
    "sy_receiptPoll st' = sy_receiptPoll st" "user_of st' = user_of st"
  shows "poll_alike st st'"
  using assms by (simp add: poll_alike_def same_records_def same_tables_def)

lemma poll_alike_refl [simp]: "poll_alike st st"
  by (rule poll_alikeI) simp_all

lemma matrix_step_records: "matrix_step b b' \<Longrightarrow> same_records (br_sync b) (br_sync b')"
  by (induction rule: matrix_step.induct)
    (auto simp: SendAttachmentMessage_def intro: HandleMatrixMessage_records sendAttachment_records handlers_records)

lemma user_of_session: "sy_session st' = sy_session st \<Longrightarrow> user_of st' = user_of st"
  by (simp add: user_of_def)

text \<open>Each piece of the loop keeps two such states alike.\<close>

lemma queue_event_alike: "poll_alike st st' \<Longrightarrow> poll_alike (queue_event e st) (queue_event e st')"
  by (auto simp: queue_event_def user_of_def dest: poll_alikeD intro!: poll_alikeI)

lemma sync_reactions_alike:
  assumes "poll_alike st st'"
  shows "poll_alike (sync_reactions_of E th msg i st) (sync_reactions_of E th msg i st')"
proof -
  note d = poll_alikeD [OF assms]
  have seen: "poll_alike (st\<lparr>sy_reactionSeen := s\<rparr>) (st'\<lparr>sy_reactionSeen := s\<rparr>)" for s
    using d by (intro poll_alikeI) (simp_all add: user_of_def)
  show ?thesis
    using d(7) seen
    by (auto simp: sync_reactions_of_def d(5) user_of_def split: prod.split option.split intro!: queue_event_alike)
qed

lemma poll_alike_frame [simp]:
  "poll_alike (st\<lparr>sy_selfMessages := m\<rparr>) st' = poll_alike st st'"
  "poll_alike st (st'\<lparr>sy_selfMessages := m\<rparr>) = poll_alike st st'"
  "poll_alike (markUnread t st) st' = poll_alike st st'"
  "poll_alike st (markUnread t st') = poll_alike st st'"
  by (simp_all add: poll_alike_def same_records_def same_tables_def user_of_def markUnread_def)

lemma poll_alike_update:
  assumes "poll_alike st st'"
  shows "poll_alike (st\<lparr>sy_profiles := p\<rparr>) (st'\<lparr>sy_profiles := p\<rparr>)"
    and "poll_alike (st\<lparr>sy_reactionSeen := r\<rparr>) (st'\<lparr>sy_reactionSeen := r\<rparr>)"
  using poll_alikeD [OF assms] by (auto intro!: poll_alikeI simp: user_of_def)

text \<open>An own message is queued in the same way whether it has been recorded or not.\<close>

lemma ingest_message_alike:
  assumes "poll_alike st st'"
  shows "poll_alike (ingest_message E th now selfID msg st) (ingest_message E th now selfID msg st')"
proof -
  define evt where "evt = message_event (o_login E) th selfID msg"
  define start :: "Sync \<Rightarrow> Sync" where "start = (\<lambda>st. let st = st\<lparr>sy_profiles := snd (Profile_Upsert (Some (o_bridge E)) (o_fault E ''profile'')
        (NormalizeTeamsUserID (rm_SenderID msg)) (display_name msg) now (sy_profiles st))\<rparr>;
      effective = effectiveRemoteMessageID msg
    in if effective \<noteq> [] \<and> rm_Reactions msg \<noteq> []
       then st\<lparr>sy_reactionSeen := snd (markReactionSeen effective True (sy_reactionSeen st))\<rparr> else st)"
  define finish :: "Sync \<Rightarrow> Sync" where "finish = (\<lambda>st. sync_reactions_of E th (me_Data evt) (me_ID evt) (queue_event (Message_Event evt) st))"
  have shape: "\<exists>m g. ingest_message E th now selfID msg st = g (finish ((start st)\<lparr>sy_selfMessages := m\<rparr>))
      \<and> (\<forall>a b. poll_alike (g a) b = poll_alike a b) \<and> (\<forall>a b. poll_alike a (g b) = poll_alike a b)" for st
  proof -
    have "\<exists>m c. ingest_message E th now selfID msg st
        = (if c then markUnread (ts_ThreadID th) else id) (finish ((start st)\<lparr>sy_selfMessages := m\<rparr>))"
    proof (cases "es_IsFromMe (me_Sender evt)")
      case True
      then show ?thesis
        by (intro exI [of _ "snd (consumeSelfMessage (o_now E) (me_TransactionID evt) (sy_selfMessages (start st)))"]
            exI [of _ False])
          (simp add: ingest_message_def start_def finish_def evt_def [symmetric] Let_def case_prod_beta)
    next
      case False
      then show ?thesis
        by (intro exI [of _ "sy_selfMessages (start st)"] exI [of _ "trim_space (ts_ThreadID th) \<noteq> []"])
          (simp add: ingest_message_def start_def finish_def evt_def [symmetric] Let_def case_prod_beta)
    qed
    then obtain m c where e: "ingest_message E th now selfID msg st
        = (if c then markUnread (ts_ThreadID th) else id) (finish ((start st)\<lparr>sy_selfMessages := m\<rparr>))" by blast
    then show ?thesis
      by (intro exI [of _ m] exI [of _ "if c then markUnread (ts_ThreadID th) else id"]) auto
  qed
  from shape [of st] obtain m g where
    e: "ingest_message E th now selfID msg st = g (finish ((start st)\<lparr>sy_selfMessages := m\<rparr>))"
    and g: "\<forall>a b. poll_alike (g a) b = poll_alike a b" by blast
  from shape [of st'] obtain m' g' where
    e': "ingest_message E th now selfID msg st' = g' (finish ((start st')\<lparr>sy_selfMessages := m'\<rparr>))"
    and g': "\<forall>a b. poll_alike a (g' b) = poll_alike a b" by blast
  note d = poll_alikeD [OF assms]
  have "poll_alike (start st) (start st')"
    by (simp add: start_def Let_def d(2,5) poll_alike_update [OF assms]
        poll_alike_update(2) [OF poll_alike_update(1) [OF assms]])
  then have "poll_alike (finish ((start st)\<lparr>sy_selfMessages := m\<rparr>)) (finish ((start st')\<lparr>sy_selfMessages := m'\<rparr>))"
    unfolding finish_def by (intro sync_reactions_alike queue_event_alike) simp
  then show ?thesis by (simp add: e e' g g')
qed

text \<open>Two accumulators that agree but for what a handler may touch.\<close>

definition acc_alike :: "poll_acc \<Rightarrow> poll_acc \<Rightarrow> bool" where
  "acc_alike acc acc' \<longleftrightarrow> pa_maxSeq acc' = pa_maxSeq acc \<and> pa_maxTS acc' = pa_maxTS acc
     \<and> pa_ingested acc' = pa_ingested acc \<and> poll_alike (pa_state acc) (pa_state acc')"

lemma poll_message_alike:
  assumes "acc_alike acc acc'"
  shows "acc_alike (poll_message E th now q selfID acc msg) (poll_message E th now q selfID acc' msg)"
  using assms
  by (simp add: poll_message_def acc_alike_def Let_def ingest_message_alike sync_reactions_alike)

lemma handler_alike:
  assumes "matrix_step (with_sync b (pa_state acc)) b'" and "user_of (br_sync b') = user_of (pa_state acc)"
  shows "acc_alike acc (acc\<lparr>pa_state := br_sync b'\<rparr>)"
  using matrix_step_records [OF assms(1)] assms(2)
  by (simp add: acc_alike_def poll_alike_def with_sync_def)

lemma poll_alike_trans: "poll_alike a b \<Longrightarrow> poll_alike b c \<Longrightarrow> poll_alike a c"
  by (auto simp: poll_alike_def intro: same_records_trans)

lemma acc_alike_trans: "acc_alike a b \<Longrightarrow> acc_alike b c \<Longrightarrow> acc_alike a c"
  by (auto simp: acc_alike_def intro: poll_alike_trans)

lemma poll_messages_from_alike:
  "acc_alike acc acc' \<Longrightarrow>
     acc_alike (foldl (poll_message E th now q selfID) acc msgs) (foldl (poll_message E th now q selfID) acc' msgs)"
  by (induction msgs arbitrary: acc acc') (auto intro: poll_message_alike)

text \<open>A disturbed run against the loop that has still to come.\<close>

lemma fine_step_alike:
  assumes "fine_step E th now q selfID x y"
  shows "case x of (acc, b, msgs) \<Rightarrow> case y of (acc', b', msgs') \<Rightarrow>
     acc_alike (foldl (poll_message E th now q selfID) acc msgs) (foldl (poll_message E th now q selfID) acc' msgs')"
  using assms
  by (induction rule: fine_step.induct)
    (auto intro!: poll_messages_from_alike handler_alike simp: acc_alike_def [of x x for x])

lemma fine_run_alike:
  assumes "fine_run E th now q selfID x y"
  shows "case x of (acc, b, msgs) \<Rightarrow> case y of (acc', b', msgs') \<Rightarrow>
     acc_alike (foldl (poll_message E th now q selfID) acc msgs) (foldl (poll_message E th now q selfID) acc' msgs')"
  using assms
proof (induction rule: rtranclp_induct)
  case base
  then show ?case by (auto simp: acc_alike_def split: prod.split)
next
  case (step y z)
  with fine_step_alike [OF step.hyps(2)] show ?case by (auto split: prod.splits intro: acc_alike_trans)
qed

section \<open>Properties\<close>

text \<open>
  C3: a poll is not disturbed by the handlers that run in the middle of it. Whichever Matrix events are handled between
  any two messages of the poll, the loop queues the same events in the same order and leaves the same tables, records
  of reactions and cursor values as the loop that runs alone; only the own messages, the marks of unread threads and
  the tokens may differ.
\<close>

theorem poll_not_disturbed:
  assumes "fine_run E th now (trim_space (ts_LastSequenceID th)) (self_id st)
      (\<lparr>pa_maxSeq = [], pa_maxTS = 0, pa_ingested = 0, pa_state = st\<rparr>, b, msgs) (acc, b', [])"
  defines "alone \<equiv> poll_messages E th now st msgs"
  shows "pa_maxSeq acc = pa_maxSeq alone \<and> pa_maxTS acc = pa_maxTS alone \<and> pa_ingested acc = pa_ingested alone
     \<and> same_records (pa_state alone) (pa_state acc)"
  using fine_run_alike [OF assms(1)]
  by (auto simp: alone_def poll_messages_def acc_alike_def poll_alike_def)

text \<open>The sample poll, with a read receipt from Matrix between its two messages.\<close>

definition first_acc :: poll_acc where
  "first_acc = \<lparr>pa_maxSeq = [], pa_maxTS = 0, pa_ingested = 0, pa_state = poll_sync\<rparr>"

definition between_acc :: poll_acc where
  "between_acc = poll_message sample_outside poll_thread 0 [] ''8:me'' first_acc (posted ''a'' ''9'')"

lemma between_unread: "sy_unreadSeen (pa_state between_acc) ''t''" "\<not> sy_unreadSent (pa_state between_acc) ''t''"
  by code_simp+

lemma between_session: "sy_session (pa_state between_acc) = poll_session"
  by (simp add: between_acc_def first_acc_def poll_sync_session)

lemma HandleMatrixReadReceipt_session:
  assumes "admit (he_out X 0) b = (None, b)" and "HandleMatrixReadReceipt X t b = (err, b')"
  shows "sy_session (br_sync b') = sy_session (br_sync b)"
  using assms
  by (auto simp: HandleMatrixReadReceipt_def Let_def dest!: teams_call_frame(1) split: prod.splits if_splits)

lemma disturbed_run:
  "\<exists>acc b'. fine_run sample_outside poll_thread 0 [] ''8:me''
      (first_acc, sample_bridge, [posted ''a'' ''9'', posted ''b'' ''10'']) (acc, b', []) \<and> br_log b' \<noteq> ([], [])"
proof -
  let ?b = "sample_bridge\<lparr>br_sync := pa_state between_acc\<rparr>"
  let ?step = "fine_step sample_outside poll_thread 0 [] ''8:me''"
  have step1: "?step (first_acc, sample_bridge, [posted ''a'' ''9'', posted ''b'' ''10''])
      (between_acc, sample_bridge, [posted ''b'' ''10''])"
    unfolding between_acc_def by (rule next_message)
  obtain b1 err where receipt: "HandleMatrixReadReceipt sample_handler ''t'' ?b = (err, b1)" "br_log b1 \<noteq> ([], [])"
    using sample_receipt [OF between_unread between_session] by blast
  have "admit (he_out sample_handler 0) ?b = (None, ?b)"
  proof -
    have "IsLoggedIn poll_session t" for t by (simp add: IsLoggedIn_def poll_session_def)
    with poll_session_fresh show ?thesis by (simp add: admit_def between_session) (simp add: poll_outside_def between_session)
  qed
  then have "user_of (br_sync b1) = user_of (pa_state between_acc)"
    using HandleMatrixReadReceipt_session [OF _ receipt(1)] by (intro user_of_session) simp
  then have step2: "?step (between_acc, sample_bridge, [posted ''b'' ''10''])
      (between_acc\<lparr>pa_state := br_sync b1\<rparr>, b1, [posted ''b'' ''10''])"
    using on_receipt [OF receipt(1)] by (intro handler) (simp_all add: with_sync_def)
  have "?step (between_acc\<lparr>pa_state := br_sync b1\<rparr>, b1, [posted ''b'' ''10''])
      (poll_message sample_outside poll_thread 0 [] ''8:me'' (between_acc\<lparr>pa_state := br_sync b1\<rparr>)
         (posted ''b'' ''10''), b1, [])"
    by (rule next_message)
  with step1 step2 receipt(2) show ?thesis
    by (meson converse_rtranclp_into_rtranclp r_into_rtranclp)
qed

theorem poll_not_disturbed_witness:
  "\<exists>acc b'. br_log b' \<noteq> ([], [])
     \<and> fine_run sample_outside poll_thread 0 [] ''8:me''
         (first_acc, sample_bridge, [posted ''a'' ''9'', posted ''b'' ''10'']) (acc, b', [])
     \<and> pa_ingested acc = pa_ingested (poll_messages sample_outside poll_thread 0 poll_sync
         [posted ''a'' ''9'', posted ''b'' ''10''])"
proof -
  from disturbed_run obtain acc b' where r: "fine_run sample_outside poll_thread 0 [] ''8:me''
      (first_acc, sample_bridge, [posted ''a'' ''9'', posted ''b'' ''10'']) (acc, b', [])" "br_log b' \<noteq> ([], [])"
    by blast
  have "trim_space (ts_LastSequenceID poll_thread) = []" "self_id poll_sync = ''8:me''" by code_simp+
  with r poll_not_disturbed [of sample_outside poll_thread 0 poll_sync sample_bridge
      "[posted ''a'' ''9'', posted ''b'' ''10'']" acc b'] show ?thesis
    by (intro exI [of _ acc] exI [of _ b']) (simp add: first_acc_def)
qed

end
