(* ===== verification/Lifecycle.thy ===== *)
theory Lifecycle
  imports Session
begin

text \<open>
  What overlaps in a login: the goroutine of the sync loop with the operations that start and stop it
  (\<open>startSyncLoop\<close>, \<open>stopSyncLoop\<close> of \<open>handleteams.go\<close>), and a refresh of the tokens with a logout (\<open>client.go\<close>).
  Theory \<open>Session\<close> takes each of these as one step; here they are taken apart where another goroutine can come
  in between.
\<close>

section \<open>The goroutine of the sync loop\<close>

text \<open>
  A loop is known by its number, which also names the context it was given and the channel made with it. The
  argument of the deferred \<open>close\<close> is read when the goroutine begins, without the mutex, from \<open>syncDone\<close> as it is
  then. The goroutine ends whenever \<open>syncLoop\<close> returns.
\<close>

datatype loop_goroutine =
    Spawned
  | In_Loop "nat option" \<comment> \<open>in \<open>syncLoop\<close>, with the channel it will close\<close>
  | Exited

text \<open>A call of \<open>stopSyncLoop\<close> after its locked part; the flag says whether it waits with a timer.\<close>

datatype stopping =
    Cancelling "nat option" "nat option" bool
  | Awaiting nat bool
  | Stopped "nat option" \<comment> \<open>returned after this channel was closed, or with nothing to wait for\<close>
  | Timed_Out nat

record sync_control =
  sl_cancel :: "nat option"
  sl_done :: "nat option"
  sl_loops :: "loop_goroutine list"
  sl_stops :: "stopping list"
  sl_cancelled :: "nat list"
  sl_closed :: "nat list"
  sl_panic :: bool

definition no_loop :: sync_control where
  "no_loop = \<lparr>sl_cancel = None, sl_done = None, sl_loops = [], sl_stops = [], sl_cancelled = [], sl_closed = [],
     sl_panic = False\<rparr>"

text \<open>\<open>startSyncLoop\<close>, under the mutex.\<close>

definition start_loop :: "sync_control \<Rightarrow> sync_control" where
  "start_loop s =
     (if sl_cancel s \<noteq> None then s
      else s\<lparr>sl_cancel := Some (length (sl_loops s)), sl_done := Some (length (sl_loops s)),
             sl_loops := sl_loops s @ [Spawned]\<rparr>)"

text \<open>\<open>stopSyncLoop\<close>: what it does under the mutex, and the call of \<open>cancel\<close> after it.\<close>

definition take_handles :: "bool \<Rightarrow> sync_control \<Rightarrow> sync_control" where
  "take_handles timed s = s\<lparr>sl_cancel := None, sl_done := None,
     sl_stops := sl_stops s @ [Cancelling (sl_cancel s) (sl_done s) timed]\<rparr>"

definition set_stop :: "nat \<Rightarrow> stopping \<Rightarrow> sync_control \<Rightarrow> sync_control" where
  "set_stop j w s = s\<lparr>sl_stops := (sl_stops s)[j := w]\<rparr>"

definition call_cancel :: "nat \<Rightarrow> nat option \<Rightarrow> nat option \<Rightarrow> bool \<Rightarrow> sync_control \<Rightarrow> sync_control" where
  "call_cancel j cancel done timed s =
     (let s = (case cancel of Some n \<Rightarrow> s\<lparr>sl_cancelled := n # sl_cancelled s\<rparr> | None \<Rightarrow> s)
      in set_stop j (case done of None \<Rightarrow> Stopped None | Some n \<Rightarrow> Awaiting n timed) s)"

text \<open>The goroutine: its first statement, and the deferred \<open>close\<close>, which panics for nil and for a closed channel.\<close>

definition begin_loop :: "nat \<Rightarrow> sync_control \<Rightarrow> sync_control" where
  "begin_loop i s = s\<lparr>sl_loops := (sl_loops s)[i := In_Loop (sl_done s)]\<rparr>"

definition exit_loop :: "nat \<Rightarrow> nat option \<Rightarrow> sync_control \<Rightarrow> sync_control" where
  "exit_loop i ch s =
     (let s = s\<lparr>sl_loops := (sl_loops s)[i := Exited]\<rparr>
      in case ch of
           None \<Rightarrow> s\<lparr>sl_panic := True\<rparr>
         | Some n \<Rightarrow> if n \<in> set (sl_closed s) then s\<lparr>sl_panic := True\<rparr> else s\<lparr>sl_closed := n # sl_closed s\<rparr>)"

definition loop_at :: "sync_control \<Rightarrow> nat \<Rightarrow> loop_goroutine \<Rightarrow> bool" where
  "loop_at s i g \<longleftrightarrow> i < length (sl_loops s) \<and> sl_loops s ! i = g"

definition stop_at :: "sync_control \<Rightarrow> nat \<Rightarrow> stopping \<Rightarrow> bool" where
  "stop_at s j w \<longleftrightarrow> j < length (sl_stops s) \<and> sl_stops s ! j = w"

text \<open>\<open>Q\<close> restricts the states in which \<open>stopSyncLoop\<close> is called. A panic ends the program.\<close>

inductive control_step :: "(sync_control \<Rightarrow> bool) \<Rightarrow> sync_control \<Rightarrow> sync_control \<Rightarrow> bool" for Q where
  start: "\<not> sl_panic s \<Longrightarrow> control_step Q s (start_loop s)"
| stop: "\<not> sl_panic s \<Longrightarrow> Q s \<Longrightarrow> control_step Q s (take_handles timed s)"
| cancel: "\<not> sl_panic s \<Longrightarrow> stop_at s j (Cancelling c d timed) \<Longrightarrow> control_step Q s (call_cancel j c d timed s)"
| signalled: "\<not> sl_panic s \<Longrightarrow> stop_at s j (Awaiting n timed) \<Longrightarrow> n \<in> set (sl_closed s) \<Longrightarrow>
     control_step Q s (set_stop j (Stopped (Some n)) s)"
| times_out: "\<not> sl_panic s \<Longrightarrow> stop_at s j (Awaiting n True) \<Longrightarrow> control_step Q s (set_stop j (Timed_Out n) s)"
| begins: "\<not> sl_panic s \<Longrightarrow> loop_at s i Spawned \<Longrightarrow> control_step Q s (begin_loop i s)"
| ends: "\<not> sl_panic s \<Longrightarrow> loop_at s i (In_Loop ch) \<Longrightarrow> control_step Q s (exit_loop i ch s)"

abbreviation control_run :: "(sync_control \<Rightarrow> bool) \<Rightarrow> sync_control \<Rightarrow> sync_control \<Rightarrow> bool" where
  "control_run Q \<equiv> (control_step Q)\<^sup>*\<^sup>*"

section \<open>One loop at a time\<close>

definition being_stopped :: "sync_control \<Rightarrow> nat \<Rightarrow> bool" where
  "being_stopped s n \<longleftrightarrow> n \<in> set (sl_cancelled s) \<or> (\<exists>d timed. Cancelling (Some n) d timed \<in> set (sl_stops s))"

definition handles_ok :: "sync_control \<Rightarrow> bool" where
  "handles_ok s \<longleftrightarrow> sl_done s = sl_cancel s
     \<and> (\<forall>n. sl_cancel s = Some n \<longrightarrow> n < length (sl_loops s))
     \<and> (\<forall>n < length (sl_loops s). being_stopped s n \<or> sl_cancel s = Some n)"

lemma set_stop_simps [simp]:
  "sl_cancel (set_stop j w s) = sl_cancel s" "sl_done (set_stop j w s) = sl_done s"
  "sl_loops (set_stop j w s) = sl_loops s" "sl_cancelled (set_stop j w s) = sl_cancelled s"
  "sl_closed (set_stop j w s) = sl_closed s" "sl_panic (set_stop j w s) = sl_panic s"
  "sl_stops (set_stop j w s) = (sl_stops s)[j := w]"
  by (simp_all add: set_stop_def)

lemma call_cancel_simps [simp]:
  "sl_cancel (call_cancel j c d timed s) = sl_cancel s" "sl_done (call_cancel j c d timed s) = sl_done s"
  "sl_loops (call_cancel j c d timed s) = sl_loops s" "sl_closed (call_cancel j c d timed s) = sl_closed s"
  "sl_panic (call_cancel j c d timed s) = sl_panic s"
  "sl_cancelled (call_cancel j c d timed s) = (case c of Some n \<Rightarrow> n # sl_cancelled s | None \<Rightarrow> sl_cancelled s)"
  "sl_stops (call_cancel j c d timed s)
     = (sl_stops s)[j := (case d of None \<Rightarrow> Stopped None | Some n \<Rightarrow> Awaiting n timed)]"
  by (simp_all add: call_cancel_def Let_def split: option.split)

lemma exit_loop_simps [simp]:
  "sl_cancel (exit_loop i ch s) = sl_cancel s" "sl_done (exit_loop i ch s) = sl_done s"
  "sl_loops (exit_loop i ch s) = (sl_loops s)[i := Exited]" "sl_stops (exit_loop i ch s) = sl_stops s"
  "sl_cancelled (exit_loop i ch s) = sl_cancelled s"
  by (simp_all add: exit_loop_def Let_def split: option.split)

lemma in_update_iff: "j < length ws \<Longrightarrow> w \<noteq> ws ! j \<Longrightarrow> w \<in> set ws \<Longrightarrow> w \<in> set (ws[j := w'])"
  by (metis in_set_conv_nth length_list_update nth_list_update_neq)

lemma being_stopped_set_stop:
  assumes "stop_at s j (Awaiting m timed)" and "being_stopped s n"
  shows "being_stopped (set_stop j w s) n"
proof -
  have "Cancelling (Some n) d t \<in> set ((sl_stops s)[j := w])" if "Cancelling (Some n) d t \<in> set (sl_stops s)" for d t
    using assms(1) that by (intro in_update_iff) (auto simp: stop_at_def)
  with assms(2) show ?thesis by (auto simp: being_stopped_def)
qed

lemma being_stopped_call_cancel:
  assumes "stop_at s j (Cancelling c d timed)" and "being_stopped s n"
  shows "being_stopped (call_cancel j c d timed s) n"
proof (cases "c = Some n \<or> n \<in> set (sl_cancelled s)")
  case True
  then show ?thesis by (auto simp: being_stopped_def split: option.split)
next
  case False
  have "Cancelling (Some n) d' t \<in> set ((sl_stops s)[j := w])" if "Cancelling (Some n) d' t \<in> set (sl_stops s)" for d' t w
    using assms(1) that False by (intro in_update_iff) (auto simp: stop_at_def)
  moreover from assms(2) False obtain d' t where "Cancelling (Some n) d' t \<in> set (sl_stops s)"
    by (auto simp: being_stopped_def)
  ultimately show ?thesis unfolding being_stopped_def call_cancel_simps by blast
qed

lemma handles_ok_step: "control_step Q s s' \<Longrightarrow> handles_ok s \<Longrightarrow> handles_ok s'"
proof (induction rule: control_step.induct)
  case (start s)
  then show ?case by (auto simp: handles_ok_def start_loop_def being_stopped_def less_Suc_eq)
next
  case (stop s timed)
  then show ?case by (fastforce simp: handles_ok_def take_handles_def being_stopped_def)
next
  case (cancel s j c d timed)
  then show ?case by (auto simp: handles_ok_def intro: being_stopped_call_cancel)
next
  case (signalled s j n timed)
  then show ?case by (auto simp: handles_ok_def intro: being_stopped_set_stop)
next
  case (times_out s j n)
  then show ?case by (auto simp: handles_ok_def intro: being_stopped_set_stop)
next
  case (begins s i)
  then show ?case by (auto simp: handles_ok_def begin_loop_def being_stopped_def)
next
  case (ends s i ch)
  then show ?case by (auto simp: handles_ok_def being_stopped_def)
qed

lemma handles_ok_run: "control_run Q no_loop s \<Longrightarrow> handles_ok s"
proof (induction rule: rtranclp_induct)
  case base
  then show ?case by (simp add: handles_ok_def no_loop_def)
qed (rule handles_ok_step)

section \<open>Stopping at leisure\<close>

text \<open>What holds if \<open>stopSyncLoop\<close> is never called before the goroutine it stops has begun.\<close>

definition all_begun :: "sync_control \<Rightarrow> bool" where
  "all_begun s \<longleftrightarrow> Spawned \<notin> set (sl_loops s)"

definition loop_ok :: "nat option \<Rightarrow> nat list \<Rightarrow> nat \<Rightarrow> loop_goroutine \<Rightarrow> bool" where
  "loop_ok handle closed n g =
     (case g of Spawned \<Rightarrow> handle = Some n \<and> n \<notin> set closed | In_Loop ch \<Rightarrow> ch = Some n \<and> n \<notin> set closed
      | Exited \<Rightarrow> n \<in> set closed)"

definition loops_ok :: "sync_control \<Rightarrow> bool" where
  "loops_ok s \<longleftrightarrow> \<not> sl_panic s
     \<and> (\<forall>n < length (sl_loops s). loop_ok (sl_cancel s) (sl_closed s) n (sl_loops s ! n))
     \<and> (\<forall>n. Stopped (Some n) \<in> set (sl_stops s) \<longrightarrow> n \<in> set (sl_closed s))
     \<and> (\<forall>n \<in> set (sl_closed s). n < length (sl_loops s))"

lemma loop_ok_handle: "loop_ok c closed n g \<Longrightarrow> g \<noteq> Spawned \<or> c = None \<Longrightarrow> loop_ok c' closed n g"
  by (auto simp: loop_ok_def split: loop_goroutine.splits)

lemma loop_ok_closed: "loop_ok c closed n g \<Longrightarrow> n \<noteq> m \<Longrightarrow> loop_ok c (m # closed) n g"
  by (auto simp: loop_ok_def split: loop_goroutine.splits)

lemma set_stop_in:
  "w' \<in> set ((sl_stops s)[j := w]) \<Longrightarrow> w' = w \<or> w' \<in> set (sl_stops s)"
  using set_update_subset_insert by fastforce

lemma loops_ok_start:
  assumes "loops_ok s"
  shows "loops_ok (start_loop s)"
proof (cases "sl_cancel s")
  case None
  have "loop_ok (Some m) (sl_closed s) n (sl_loops s ! n)" if "n < length (sl_loops s)" for n m
    using assms None that loop_ok_handle [of None "sl_closed s" n "sl_loops s ! n"] by (auto simp: loops_ok_def)
  moreover have "loop_ok (Some (length (sl_loops s))) (sl_closed s) (length (sl_loops s)) Spawned"
    using assms by (auto simp: loops_ok_def loop_ok_def)
  ultimately show ?thesis
    using assms None by (auto simp: loops_ok_def start_loop_def nth_append less_Suc_eq)
qed (use assms in \<open>simp add: start_loop_def\<close>)

lemma loops_ok_step:
  assumes "control_step all_begun s s'" and "handles_ok s" and ok: "loops_ok s"
  shows "loops_ok s'"
  using assms(1)
proof cases
  case start
  with ok show ?thesis by (simp add: loops_ok_start)
next
  case (stop timed)
  then have "sl_loops s ! n \<noteq> Spawned" if "n < length (sl_loops s)" for n
    using that by (metis all_begun_def nth_mem)
  with ok have "loop_ok None (sl_closed s) n (sl_loops s ! n)" if "n < length (sl_loops s)" for n
    using that loop_ok_handle by (auto simp: loops_ok_def)
  with ok stop show ?thesis by (auto simp: loops_ok_def take_handles_def)
next
  case (cancel j c d timed)
  with ok show ?thesis by (auto simp: loops_ok_def dest!: set_stop_in split: option.splits)
next
  case (signalled j n timed)
  with ok show ?thesis by (auto simp: loops_ok_def dest!: set_stop_in)
next
  case (times_out j n)
  with ok show ?thesis by (auto simp: loops_ok_def dest!: set_stop_in)
next
  case (begins i)
  then have i: "i < length (sl_loops s)" "sl_loops s ! i = Spawned" by (auto simp: loop_at_def)
  with ok have "loop_ok (sl_cancel s) (sl_closed s) i Spawned" by (auto simp: loops_ok_def dest!: spec [of _ i])
  with assms(2) have "loop_ok (sl_cancel s) (sl_closed s) i (In_Loop (sl_done s))"
    by (simp add: loop_ok_def handles_ok_def)
  with ok i begins show ?thesis by (auto simp: loops_ok_def begin_loop_def nth_list_update)
next
  case (ends i ch)
  then have i: "i < length (sl_loops s)" "sl_loops s ! i = In_Loop ch" by (auto simp: loop_at_def)
  with ok have "loop_ok (sl_cancel s) (sl_closed s) i (In_Loop ch)" by (auto simp: loops_ok_def dest!: spec [of _ i])
  then have ch: "ch = Some i" "i \<notin> set (sl_closed s)" by (simp_all add: loop_ok_def)
  have "loop_ok (sl_cancel s) (i # sl_closed s) n ((sl_loops s)[i := Exited] ! n)" if "n < length (sl_loops s)" for n
    using ok i that loop_ok_closed [of "sl_cancel s" "sl_closed s" n "sl_loops s ! n" i]
    by (cases "n = i") (auto simp: loops_ok_def loop_ok_def [of _ _ _ Exited])
  with ok i ch ends show ?thesis by (auto simp: loops_ok_def exit_loop_def)
qed

lemma loops_ok_run: "control_run all_begun no_loop s \<Longrightarrow> loops_ok s"
proof (induction rule: rtranclp_induct)
  case base
  then show ?case by (simp add: loops_ok_def no_loop_def)
next
  case (step s s')
  then show ?case using loops_ok_step handles_ok_run by blast
qed

section \<open>A refresh beside a logout\<close>

text \<open>
  \<open>ensureValidSkypeToken\<close> taken apart at its two requests. It holds \<open>authMu\<close> throughout, so a second refresh waits;
  \<open>LogoutRemote\<close> does not take that mutex.
\<close>

datatype refreshing =
    Asking_Token string AuthClient \<comment> \<open>the refresh token\<close>
  | Asking_Skype AuthClient AuthState bool \<comment> \<open>the answer, and whether the refresh token has been rotated\<close>
  | Refreshed "go_error option"

definition change_meta :: "(UserLoginMetadata \<Rightarrow> UserLoginMetadata) \<Rightarrow> Session \<Rightarrow> Session" where
  "change_meta f s = s\<lparr>se_Meta := map_option f (se_Meta s)\<rparr>"

definition check_token :: "string \<Rightarrow> instant \<Rightarrow> Session \<Rightarrow> refreshing" where
  "check_token configClientID now s =
     (case se_Meta s of
        None \<Rightarrow> Refreshed (Some (ErrNew ''missing login metadata''))
      | Some meta \<Rightarrow>
          if skype_token_fresh meta now then Refreshed None
          else if trim_space (um_RefreshToken meta) = []
            then Refreshed (Some (ErrNew ''missing refresh token, re-login required''))
          else Asking_Token (trim_space (um_RefreshToken meta))
                 ((newRefreshAuthClient configClientID (Some meta))\<lparr>ac_Scopes := skypeRefreshScopes (Some meta)\<rparr>))"

definition token_answer ::
  "golib \<Rightarrow> exchange \<Rightarrow> instant \<Rightarrow> string \<Rightarrow> AuthClient \<Rightarrow> Session \<Rightarrow> refreshing \<times> Session" where
  "token_answer L http now refresh authClient s =
     (case RefreshAccessToken L http now authClient refresh of
        Inl err \<Rightarrow> (Refreshed (Some err), s)
      | Inr state \<Rightarrow>
        (let rt = trim_space (as_RefreshToken state)
         in (Asking_Skype authClient state (rt \<noteq> [] \<and> rt \<noteq> refresh),
             if rt \<noteq> [] then change_meta (um_RefreshToken_update (\<lambda>_. rt)) s else s)))"

definition skype_answer ::
  "golib \<Rightarrow> exchange \<Rightarrow> instant \<Rightarrow> go_error option \<Rightarrow> AuthClient \<Rightarrow> AuthState \<Rightarrow> bool \<Rightarrow> Session
     \<Rightarrow> go_error option \<times> Session" where
  "skype_answer L http now fault authClient state rotated s =
     (case AcquireSkypeToken L http now authClient (as_AccessToken state) of
        Inl err \<Rightarrow> (Some err, if rotated then snd (login_save fault s) else s)
      | Inr (skypeToken, skypeExpiresAt, skypeID) \<Rightarrow>
        (let s = change_meta (\<lambda>meta. meta\<lparr>um_AccessTokenExpiresAt := as_ExpiresAtUnix state,
                   um_SkypeToken := skypeToken, um_SkypeTokenExpiresAt := skypeExpiresAt\<rparr>) s;
             s = (if trim_space (as_GraphAccessToken state) \<noteq> [] \<and> as_GraphExpiresAt state \<noteq> 0
                  then change_meta (\<lambda>meta. meta\<lparr>um_GraphAccessToken := trim_space (as_GraphAccessToken state),
                         um_GraphExpiresAt := as_GraphExpiresAt state\<rparr>) s
                  else s);
             s = change_meta (um_TeamsUserID_update (\<lambda>_. auth_NormalizeTeamsUserID skypeID)) s
         in (None, snd (login_save fault (s\<lparr>se_RemoteName := auth_NormalizeTeamsUserID skypeID\<rparr>)))))"

text \<open>Undisturbed, the parts make up \<open>ensureValidSkypeToken\<close>.\<close>

lemma refresh_in_parts:
  "ensureValidSkypeToken L http clk fault configClientID s =
     (case check_token configClientID (clk 0) s of
        Asking_Token refresh authClient \<Rightarrow>
          (case token_answer L http (clk 1) refresh authClient s of
             (Asking_Skype authClient state rotated, s) \<Rightarrow>
               skype_answer L http (clk 2) fault authClient state rotated s
           | (Refreshed err, s) \<Rightarrow> (err, s)
           | (Asking_Token _ _, s) \<Rightarrow> (None, s))
      | Refreshed err \<Rightarrow> (err, s)
      | Asking_Skype _ _ _ \<Rightarrow> (None, s))"
proof (cases "se_Meta s")
  case None
  then show ?thesis by (simp add: ensureValidSkypeToken_def check_token_def)
next
  case (Some meta)
  then show ?thesis
    by (simp add: ensureValidSkypeToken_def check_token_def token_answer_def skype_answer_def change_meta_def
        Let_def split: sum.split prod.split)
qed

text \<open>
  The steps of a login whose tokens are used by several goroutines: \<open>None\<close> is a free \<open>authMu\<close>. The operations that
  take the mutex wait until it is free; those that do not may come at any time.
\<close>

definition unlocked :: "refreshing \<Rightarrow> refreshing option" where
  "unlocked r = (case r of Refreshed err \<Rightarrow> None | _ \<Rightarrow> Some r)"

inductive login_step :: "refreshing option \<times> Session \<Rightarrow> refreshing option \<times> Session \<Rightarrow> bool" where
  refresh: "login_step (None, s) (unlocked (check_token configClientID now s), s)"
| token: "token_answer L http now rt authClient s = (r, s') \<Longrightarrow>
     login_step (Some (Asking_Token rt authClient), s) (unlocked r, s')"
| skype: "skype_answer L http now fault authClient state rotated s = (err, s') \<Longrightarrow>
     login_step (Some (Asking_Skype authClient state rotated), s) (None, s')"
| graph: "ensureValidGraphToken L http clk fault configClientID s = (err, s') \<Longrightarrow> login_step (None, s) (None, s')"
| connect: "login_step (None, s) (None, Connect L http clk fault configClientID s)"
| disconnect: "login_step (r, s) (r, Disconnect s)"
| logout: "login_step (r, s) (r, LogoutRemote fault s)"

inductive_cases login_stepE: "login_step (r, s) y"

abbreviation login_run :: "refreshing option \<times> Session \<Rightarrow> refreshing option \<times> Session \<Rightarrow> bool" where
  "login_run \<equiv> login_step\<^sup>*\<^sup>*"

definition logged_out :: "refreshing option \<times> Session \<Rightarrow> bool" where
  "logged_out = (\<lambda>(r, s). r = None \<and> se_Meta s = Some no_metadata \<and> se_Stored s = Some no_metadata \<and> \<not> se_LoggedIn s)"

lemma check_token_logged_out:
  "se_Meta s = Some no_metadata \<Longrightarrow>
     check_token c now s = Refreshed (Some (ErrNew ''missing refresh token, re-login required''))"
  by (simp add: check_token_def no_metadata_def skype_token_fresh_def)

lemma logged_out_step: "login_step x y \<Longrightarrow> logged_out x \<Longrightarrow> logged_out y"
proof (induction rule: login_step.induct)
  case (refresh s configClientID now)
  then show ?case by (simp add: logged_out_def check_token_logged_out unlocked_def)
next
  case (graph L http clk fault configClientID s err s')
  then show ?case
    by (auto simp: logged_out_def ensureValidGraphToken_def no_metadata_def GraphTokenValid_def Let_def split: if_splits)
next
  case (connect s L http clk fault configClientID)
  then show ?case
    by (simp add: logged_out_def Connect_def refresh_in_parts check_token_logged_out Let_def)
next
  case (disconnect r s)
  then show ?case by (simp add: logged_out_def Disconnect_def stopSyncLoop_def)
next
  case (logout r s fault)
  then show ?case by (simp add: logged_out_def LogoutRemote_def stopSyncLoop_def login_save_def Let_def)
qed (simp_all add: logged_out_def)

lemma logged_out_run: "login_run x y \<Longrightarrow> logged_out x \<Longrightarrow> logged_out y"
  by (induction rule: rtranclp_induct) (auto intro: logged_out_step)

section \<open>Properties\<close>

text \<open>
  C6: the sync loop is stopped cleanly, if every goroutine has begun when it is stopped. Then nothing panics, in
  whatever order loops are started, stopped and end; every loop but the current one has been cancelled or is about
  to be; a stop that has returned at the signal left behind a loop that has ended; and a stop that waits for a loop
  that has ended can return.
\<close>

theorem sync_loop_stopped:
  assumes "control_run all_begun no_loop s"
  shows "\<not> sl_panic s
    \<and> (\<forall>n < length (sl_loops s). sl_cancel s = Some n \<or> being_stopped s n)
    \<and> (\<forall>n. Stopped (Some n) \<in> set (sl_stops s) \<longrightarrow> loop_at s n Exited)
    \<and> (\<forall>j n timed. stop_at s j (Awaiting n timed) \<longrightarrow> loop_at s n Exited \<longrightarrow>
         control_step all_begun s (set_stop j (Stopped (Some n)) s))"
proof -
  note ok = handles_ok_run [OF assms] loops_ok_run [OF assms]
  have exited: "n \<in> set (sl_closed s) \<longleftrightarrow> loop_at s n Exited" for n
  proof (cases "n < length (sl_loops s)")
    case True
    with ok(2) have "loop_ok (sl_cancel s) (sl_closed s) n (sl_loops s ! n)" by (simp add: loops_ok_def)
    with True show ?thesis by (auto simp: loop_at_def loop_ok_def split: loop_goroutine.splits)
  qed (use ok(2) in \<open>auto simp: loops_ok_def loop_at_def\<close>)
  from ok have calm: "\<not> sl_panic s"
    and "\<forall>n < length (sl_loops s). sl_cancel s = Some n \<or> being_stopped s n"
    and "\<forall>n. Stopped (Some n) \<in> set (sl_stops s) \<longrightarrow> loop_at s n Exited"
    by (simp_all add: loops_ok_def handles_ok_def disj_commute flip: exited)
  then show ?thesis using signalled [OF calm] by (simp flip: exited)
qed

definition stopped_loop :: sync_control where
  "stopped_loop = \<lparr>sl_cancel = None, sl_done = None, sl_loops = [Exited], sl_stops = [Stopped (Some 0)],
     sl_cancelled = [0], sl_closed = [0], sl_panic = False\<rparr>"

lemma stopped_loop_run: "control_run all_begun no_loop stopped_loop"
proof -
  let ?s1 = "no_loop\<lparr>sl_cancel := Some 0, sl_done := Some 0, sl_loops := [Spawned]\<rparr>"
  let ?s2 = "?s1\<lparr>sl_loops := [In_Loop (Some 0)]\<rparr>"
  let ?s3 = "?s2\<lparr>sl_cancel := None, sl_done := None, sl_stops := [Cancelling (Some 0) (Some 0) True]\<rparr>"
  let ?s4 = "?s3\<lparr>sl_stops := [Awaiting 0 True], sl_cancelled := [0]\<rparr>"
  let ?s5 = "?s4\<lparr>sl_loops := [Exited], sl_closed := [0]\<rparr>"
  note defs = no_loop_def stopped_loop_def stop_at_def loop_at_def
  have "control_step all_begun no_loop ?s1"
    using start [of no_loop all_begun] by (simp add: defs start_loop_def)
  moreover have "control_step all_begun ?s1 ?s2"
    using begins [of ?s1 0 all_begun] by (simp add: defs begin_loop_def)
  moreover have "control_step all_begun ?s2 ?s3"
    using stop [of ?s2 all_begun True] by (simp add: defs take_handles_def all_begun_def)
  moreover have "control_step all_begun ?s3 ?s4"
    using cancel [of ?s3 0 "Some 0" "Some 0" True all_begun] by (simp add: defs call_cancel_def set_stop_def)
  moreover have "control_step all_begun ?s4 ?s5"
    using ends [of ?s4 0 "Some 0" all_begun] by (simp add: defs exit_loop_def)
  moreover have "control_step all_begun ?s5 stopped_loop"
    using signalled [of ?s5 0 0 True all_begun] by (simp add: defs set_stop_def)
  ultimately show ?thesis by (meson converse_rtranclp_into_rtranclp r_into_rtranclp)
qed

theorem sync_loop_stopped_witness: "loop_at stopped_loop 0 Exited"
  using sync_loop_stopped [OF stopped_loop_run] by (simp add: stopped_loop_def)

text \<open>
  But a loop that is stopped before its goroutine has begun brings down the bridge: the goroutine then reads a nil
  \<open>syncDone\<close>, and the deferred \<open>close\<close> panics when the loop returns. So a panic can be reached from every state.
\<close>

theorem early_stop_panics:
  assumes "\<not> sl_panic s"
  shows "\<exists>s'. control_run (\<lambda>_. True) s s' \<and> sl_panic s'"
proof -
  let ?n = "length (sl_loops s)"
  define s1 where "s1 = start_loop (take_handles True s)"
  define s2 where "s2 = begin_loop ?n (take_handles True s1)"
  have p: "\<not> sl_panic (take_handles True s)" "\<not> sl_panic s1" "\<not> sl_panic (take_handles True s1)" "\<not> sl_panic s2"
    using assms by (simp_all add: s1_def s2_def start_loop_def take_handles_def begin_loop_def)
  have l: "loop_at (take_handles True s1) ?n Spawned" "loop_at s2 ?n (In_Loop None)"
    by (simp_all add: s1_def s2_def start_loop_def take_handles_def begin_loop_def loop_at_def)
  let ?step = "control_step (\<lambda>_. True)"
  have "?step s (take_handles True s)" using assms by (rule stop) simp
  moreover have "?step (take_handles True s) s1" unfolding s1_def using p(1) by (rule start)
  moreover have "?step s1 (take_handles True s1)" using p(2) by (rule stop) simp
  moreover have "?step (take_handles True s1) s2" unfolding s2_def using p(3) l(1) by (rule begins)
  moreover have "control_step (\<lambda>_. True) s2 (exit_loop ?n None s2)" using p(4) l(2) by (rule ends)
  ultimately have "control_run (\<lambda>_. True) s (exit_loop ?n None s2)"
    by (meson converse_rtranclp_into_rtranclp r_into_rtranclp)
  moreover have "sl_panic (exit_loop ?n None s2)" by (simp add: exit_loop_def)
  ultimately show ?thesis by blast
qed

text \<open>
  And a loop that ends by itself, as it does when the threads cannot be listed, is not replaced: \<open>syncCancel\<close> is
  still set, so \<open>startSyncLoop\<close> returns at once, and no thread is polled until someone stops the loop.
\<close>

theorem dead_loop_not_replaced:
  assumes "control_run (\<lambda>_. False) s s'" and "sl_cancel s = Some n" and "list_all (\<lambda>g. g = Exited) (sl_loops s)"
  shows "sl_loops s' = sl_loops s"
proof -
  from assms have "sl_cancel s' = Some n \<and> sl_loops s' = sl_loops s"
  proof (induction rule: rtranclp_induct)
    case (step s1 s2)
    then have "sl_loops s1 ! i = Exited" if "i < length (sl_loops s1)" for i
      using that by (auto simp: list_all_length)
    with step.hyps(2) step.IH [OF step.prems] show ?case
      by cases (auto simp: start_loop_def loop_at_def)
  qed simp
  then show ?thesis ..
qed

text \<open>
  C30: a logout sticks, unless a refresh is under way. After it no refresh, connection or further logout, in any
  order, brings back a token: the metadata in memory and in the database stay empty, and the user is not logged in.
\<close>

theorem logout_sticks:
  assumes "login_run (None, LogoutRemote None s) (r, s')" and "se_Meta s \<noteq> None"
  shows "se_Meta s' = Some no_metadata \<and> se_Stored s' = Some no_metadata \<and> \<not> IsLoggedIn s' now"
proof -
  have "logged_out (None, LogoutRemote None s)"
    using assms(2) by (auto simp: logged_out_def LogoutRemote_def login_save_def stopSyncLoop_def)
  from logged_out_run [OF assms(1) this] show ?thesis
    by (simp add: logged_out_def IsLoggedIn_def) (simp add: no_metadata_def)
qed

theorem logout_sticks_witness:
  "se_Stored (Connect session_lib session_server (\<lambda>_. 0) None [] (LogoutRemote None old_session)) = Some no_metadata"
proof -
  have "login_run (None, LogoutRemote None old_session)
      (None, Connect session_lib session_server (\<lambda>_. 0) None [] (LogoutRemote None old_session))"
    by (rule r_into_rtranclp) (rule connect)
  from logout_sticks [OF this] show ?thesis by (simp add: old_session_def)
qed

text \<open>
  But a refresh that is under way undoes a logout: \<open>LogoutRemote\<close> does not wait for it. When the two answers come in
  after the logout, the database holds the new tokens, the refresh token among them, and until the Skype token
  expires the user counts as logged in.
\<close>

theorem logout_undone_by_refresh:
  assumes "se_Meta s \<noteq> None" and "RefreshAccessToken L http now authClient rt = Inr state"
    and "AcquireSkypeToken L http now authClient (as_AccessToken state) = Inr (skype, expires, i)"
    and "trim_space (as_RefreshToken state) \<noteq> []"
  shows "\<exists>s' m. login_run (Some (Asking_Token rt authClient), LogoutRemote None s) (None, s')
    \<and> se_Stored s' = Some m \<and> um_RefreshToken m = trim_space (as_RefreshToken state) \<and> um_SkypeToken m = skype
    \<and> (skype \<noteq> [] \<and> expires \<noteq> 0 \<and> t + SkypeTokenExpirySkew < from_unix expires \<longrightarrow> IsLoggedIn s' t)"
proof -
  let ?s0 = "LogoutRemote None s"
  obtain rot s1 where t: "token_answer L http now rt authClient ?s0 = (Asking_Skype authClient state rot, s1)"
    and s1: "se_Meta s1 = Some (no_metadata\<lparr>um_RefreshToken := trim_space (as_RefreshToken state)\<rparr>)"
    using assms(1,2,4)
    by (auto simp: token_answer_def change_meta_def LogoutRemote_def login_save_def stopSyncLoop_def Let_def)
  obtain s2 where k: "skype_answer L http now None authClient state rot s1 = (None, s2)"
    and s2: "se_Stored s2 = se_Meta s2" "\<exists>m. se_Meta s2 = Some m \<and> um_SkypeToken m = skype
      \<and> um_SkypeTokenExpiresAt m = expires \<and> um_RefreshToken m = trim_space (as_RefreshToken state)"
    using assms(3) s1
    by (simp add: skype_answer_def change_meta_def login_save_def Let_def)
  have "login_run (Some (Asking_Token rt authClient), ?s0) (None, s2)"
    using login_step.token [OF t] login_step.skype [OF k]
    by (simp add: unlocked_def converse_rtranclp_into_rtranclp)
  moreover from s2 obtain m where "se_Stored s2 = Some m" "se_Meta s2 = Some m" "um_SkypeToken m = skype"
      "um_SkypeTokenExpiresAt m = expires" "um_RefreshToken m = trim_space (as_RefreshToken state)" by auto
  ultimately show ?thesis
    by (intro exI [of _ s2] exI [of _ m]) (simp add: IsLoggedIn_def)
qed

lemma session_answers:
  "case RefreshAccessToken session_lib session_server 0 NewAuthClient ''r1'' of
     Inl err \<Rightarrow> False
   | Inr state \<Rightarrow> trim_space (as_RefreshToken state) = ''r2''
       \<and> (case AcquireSkypeToken session_lib session_server 0 NewAuthClient (as_AccessToken state) of
            Inl err \<Rightarrow> False | Inr (skype, expires, i) \<Rightarrow> skype = ''S'')"
  by code_simp

theorem logout_undone_by_refresh_witness:
  "\<exists>s' m. login_run (Some (Asking_Token ''r1'' NewAuthClient), LogoutRemote None old_session) (None, s')
     \<and> se_Stored s' = Some m \<and> um_RefreshToken m = ''r2'' \<and> um_SkypeToken m = ''S''"
proof -
  from session_answers obtain state e i where
    "RefreshAccessToken session_lib session_server 0 NewAuthClient ''r1'' = Inr state"
    "AcquireSkypeToken session_lib session_server 0 NewAuthClient (as_AccessToken state) = Inr (''S'', e, i)"
    "trim_space (as_RefreshToken state) = ''r2''"
    by (auto split: sum.splits prod.splits)
  with logout_undone_by_refresh [of old_session session_lib session_server 0 NewAuthClient "''r1''" state "''S''" e i]
  show ?thesis by (simp add: old_session_def) blast
qed

end
