(* ===== verification/Receipts.thy ===== *)
theory Receipts
  imports Polling
begin

text \<open>
  \<open>getLastSentMessagePartAtOrBeforeTime\<close> of \<open>connector/handleteams.go\<close>: the query that finds the message a
  read receipt points at, in the message table of the framework, and what it means for the receipts that
  \<open>pollConsumptionHorizons\<close> queues, whose parameter \<open>o_last_sent\<close> it is.

  The order in which the database reads the rows is a parameter (\<open>scan\<close>): SQL does not say which of two rows
  comes first that agree in timestamp and part. So is the collation of the part ID (\<open>part_after\<close>).
\<close>

section \<open>The query\<close>

text \<open>The columns of \<open>message\<close> that the query names; a timestamp is in nanoseconds.\<close>

record message_row =
  mr_bridge_id :: string
  mr_room_id :: string
  mr_room_receiver :: string
  mr_sender_id :: string
  mr_timestamp :: int
  mr_id :: string
  mr_part_id :: string

type_synonym scan_order = "message_row list \<Rightarrow> message_row list"

text \<open>\<open>Time.UnixNano\<close>: 64 bits, so times after the year 2262 wrap around.\<close>

definition unix_nano :: "instant \<Rightarrow> int" where
  "unix_nano t = sint (word_of_int t :: int64)"

definition sent_before :: "string \<Rightarrow> PortalKey \<Rightarrow> string \<Rightarrow> instant \<Rightarrow> message_row \<Rightarrow> bool" where
  "sent_before bridge portal senderID maxTS row \<longleftrightarrow>
     mr_bridge_id row = bridge \<and> mr_room_id row = pk_ID portal \<and> mr_room_receiver row = pk_Receiver portal
     \<and> mr_sender_id row = senderID \<and> mr_timestamp row \<le> unix_nano maxTS"

text \<open>\<open>ORDER BY timestamp DESC, part_id DESC LIMIT 1\<close>: a later row replaces the best only if it comes before it.\<close>

definition comes_before :: "(string \<Rightarrow> string \<Rightarrow> bool) \<Rightarrow> message_row \<Rightarrow> message_row \<Rightarrow> bool" where
  "comes_before part_after a b \<longleftrightarrow>
     mr_timestamp b < mr_timestamp a
     \<or> mr_timestamp a = mr_timestamp b \<and> part_after (mr_part_id a) (mr_part_id b)"

fun first_row :: "(string \<Rightarrow> string \<Rightarrow> bool) \<Rightarrow> message_row option \<Rightarrow> message_row list \<Rightarrow> message_row option" where
  "first_row part_after best [] = best"
| "first_row part_after best (row # rows) =
     first_row part_after
       (case best of None \<Rightarrow> Some row
        | Some b \<Rightarrow> if comes_before part_after row b then Some row else Some b) rows"

definition getLastSentMessagePartAtOrBeforeTime ::
  "(string \<Rightarrow> string \<Rightarrow> bool) \<Rightarrow> scan_order \<Rightarrow> string option \<Rightarrow> go_error option \<Rightarrow> message_row list
     \<Rightarrow> PortalKey \<Rightarrow> string \<Rightarrow> instant \<Rightarrow> go_error + string"
where
  "getLastSentMessagePartAtOrBeforeTime part_after scan db fault t portal senderID maxTS =
     (case db of None \<Rightarrow> Inr []
      | Some bridge \<Rightarrow>
        if senderID = [] then Inr []
        else case fault of Some e \<Rightarrow> Inl e
        | None \<Rightarrow>
          (case first_row part_after None (filter (sent_before bridge portal senderID maxTS) (scan t)) of
             None \<Rightarrow> Inr [] \<comment> \<open>\<open>sql.ErrNoRows\<close>\<close>
           | Some row \<Rightarrow> Inr (mr_id row)))"

section \<open>The latest row\<close>

lemma first_row_None: "first_row part_after best rows = None \<longleftrightarrow> best = None \<and> rows = []"
  by (induction rows arbitrary: best) (auto split: option.split)

lemma first_row_latest:
  assumes "first_row part_after best rows = Some row"
  shows "row \<in> set_option best \<union> set rows
     \<and> (\<forall>r \<in> set_option best \<union> set rows. mr_timestamp r \<le> mr_timestamp row)"
  using assms
proof (induction rows arbitrary: best)
  case (Cons x rows)
  define best' where "best' = (case best of None \<Rightarrow> Some x
    | Some b \<Rightarrow> if comes_before part_after x b then Some x else Some b)"
  then obtain y where y: "best' = Some y" by (cases best) (auto split: if_splits)
  from Cons.prems have "first_row part_after best' rows = Some row" by (simp add: best'_def)
  from Cons.IH [OF this] y have
    row: "row = y \<or> row \<in> set rows" "\<And>r. r = y \<or> r \<in> set rows \<Longrightarrow> mr_timestamp r \<le> mr_timestamp row"
    by auto
  from y have "y \<in> set_option best \<union> {x}" "\<And>r. r \<in> set_option best \<union> {x} \<Longrightarrow> mr_timestamp r \<le> mr_timestamp y"
    by (auto simp: best'_def comes_before_def split: option.splits if_splits)
  with row show ?case by (auto intro: order_trans)
qed auto

lemma unix_nano_id: "- (2 ^ 63) \<le> t \<Longrightarrow> t < 2 ^ 63 \<Longrightarrow> unix_nano t = t"
  by (simp add: unix_nano_def sint_sbintrunc' signed_take_bit_int_eq_self)

text \<open>What the answer of the query says about the table.\<close>

definition latest_sent :: "message_row list \<Rightarrow> string \<Rightarrow> PortalKey \<Rightarrow> string \<Rightarrow> instant \<Rightarrow> string \<Rightarrow> bool" where
  "latest_sent t bridge portal senderID maxTS i \<longleftrightarrow>
     (\<exists>row \<in> set t. mr_id row = i \<and> sent_before bridge portal senderID maxTS row
        \<and> list_all (\<lambda>r. sent_before bridge portal senderID maxTS r \<longrightarrow> mr_timestamp r \<le> mr_timestamp row) t)"

lemma getLast_answer:
  assumes "getLastSentMessagePartAtOrBeforeTime part_after scan (Some bridge) fault t portal senderID maxTS = Inr i"
    and "senderID \<noteq> []" and "set (scan t) = set t"
  shows "if list_all (\<lambda>r. \<not> sent_before bridge portal senderID maxTS r) t then i = []
         else latest_sent t bridge portal senderID maxTS i"
proof (cases "first_row part_after None (filter (sent_before bridge portal senderID maxTS) (scan t))")
  case None
  then have "filter (sent_before bridge portal senderID maxTS) (scan t) = []" by (simp add: first_row_None)
  with None assms show ?thesis
    by (auto simp: getLastSentMessagePartAtOrBeforeTime_def list_all_iff filter_empty_conv split: option.splits)
next
  case (Some row)
  from first_row_latest [OF Some] assms(3) have
    row: "row \<in> set t" "sent_before bridge portal senderID maxTS row"
      "\<And>r. r \<in> set t \<Longrightarrow> sent_before bridge portal senderID maxTS r \<Longrightarrow> mr_timestamp r \<le> mr_timestamp row"
    by auto
  from Some assms(1,2) have "i = mr_id row"
    by (simp add: getLastSentMessagePartAtOrBeforeTime_def split: option.splits)
  with row show ?thesis by (auto simp: latest_sent_def list_all_iff)
qed

section \<open>The target of a read receipt\<close>

text \<open>The outside of a poll whose database holds these messages.\<close>

definition reads_messages ::
  "(string \<Rightarrow> string \<Rightarrow> bool) \<Rightarrow> scan_order \<Rightarrow> go_error option \<Rightarrow> message_row list \<Rightarrow> outside \<Rightarrow> bool" where
  "reads_messages part_after scan fault t E \<longleftrightarrow>
     o_last_sent E = getLastSentMessagePartAtOrBeforeTime part_after scan (Some (o_bridge E)) fault t"

lemma pollConsumptionHorizons_target:
  assumes "pollConsumptionHorizons E th now st = (err, st')"
  obtains (quiet) "sy_events st' = sy_events st"
  | (receipt) r i where "sy_events st' = sy_events st @ [Read_Receipt r]"
      "re_PortalKey r = portalKey (o_login E) (trim_space (ts_ThreadID th))" "self_id st \<noteq> []"
      "o_last_sent E (re_PortalKey r) (teamsUserIDToNetworkUserID (self_id st)) (re_ReadUpTo r) = Inr i"
      "re_Target r = (if i \<noteq> [] then Some i else None)"
proof -
  have self: "self_id (st\<lparr>sy_receiptPoll := m\<rparr>) = self_id st" for m by (simp add: self_id_def)
  show ?thesis
    using assms unfolding pollConsumptionHorizons_def Let_def
    by (auto simp: self queue_event_def split: prod.splits if_splits sum.splits option.splits
        intro: quiet receipt)
qed


text \<open>The other user has read up to 5 ms; of the own messages at 2 ms and 4 ms the later one is the target.\<close>

definition own_messages :: "message_row list" where
  "own_messages = map (\<lambda>(i, sender, ts). \<lparr>mr_bridge_id = ''b'', mr_room_id = ''t'', mr_room_receiver = ''8:me'',
     mr_sender_id = sender, mr_timestamp = ts, mr_id = i, mr_part_id = []\<rparr>)
     [(''m1'', ''8:me'', 2000000), (''m2'', ''8:me'', 4000000), (''a1'', ''8:ann'', 4500000), (''m3'', ''8:me'', 6000000)]"

definition horizon_page :: json where
  "horizon_page = JObject [(''consumptionhorizons'', [], JArray [([], JObject
     [(''id'', [], JString ''8:ann''), (''consumptionhorizon'', [], JString ''0;5;0'')])])]"

definition read_lib :: golib where "read_lib = poll_lib\<lparr>lib_json := \<lambda>_. Some horizon_page\<rparr>"

definition read_outside :: outside where
  "read_outside = sample_outside\<lparr>o_lib := read_lib,
     o_last_sent := getLastSentMessagePartAtOrBeforeTime (\<lambda>_ _. False) (\<lambda>t. t) (Some ''b'') None own_messages\<rparr>"

abbreviation ann_horizon :: ConsumptionHorizon where
  "ann_horizon \<equiv> \<lparr>ch_ID = ''8:ann'', ch_ConsumptionHorizon = ''0;5;0'', ch_MessageVisibilityTime = 0\<rparr>"

lemma read_horizons:
  "GetConsumptionHorizons read_lib page_server (\<lambda>_. None) (Some (newConsumer poll_session)) ''t''
     = Inr \<lparr>hr_ID = [], hr_Version = [], hr_Horizons = [ann_horizon]\<rparr>"
proof -
  have "decode_horizons read_lib horizon_page = Some \<lparr>hr_ID = [], hr_Version = [], hr_Horizons = [ann_horizon]\<rparr>"
    and "trim_space ''t'' = ''t''"
    by code_simp+
  moreover have "lib_json read_lib s = Some horizon_page" "lib_url read_lib s \<noteq> None" for s
    by (simp_all add: read_lib_def poll_lib_def)
  ultimately show ?thesis
    by (simp add: GetConsumptionHorizons_def fetchConsumptionHorizonsJSON_def fetch_json_def new_request_def
        client_ready_def newConsumer_def NewClient_def poll_session_def no_metadata_def page_server_def
        read_all_def Let_def)
qed

lemma read_receipt_queued:
  "sy_events (snd (pollConsumptionHorizons read_outside poll_thread 0 poll_sync)) =
     [Read_Receipt \<lparr>re_PortalKey = \<lparr>pk_ID = ''t'', pk_Receiver = ''8:me''\<rparr>, re_Sender = ''8:ann'',
        re_ReadUpTo = 5000000, re_Target = Some ''m2''\<rparr>]"
proof -
  have t: "trim_space ''t'' = ''t''" "trim_space ''8:ann'' = ''8:ann''" "trim_space ''8:me'' = ''8:me''"
    by code_simp+
  have "\<not> isLikelyThreadID read_lib ''8:ann''" "\<not> eq_fold read_lib ''8:ann'' ''t''"
    by code_simp+
  then have r: "remote_horizon read_lib ''8:me'' ''t'' None [ann_horizon] = Some (''8:ann'', ann_horizon)"
    by (simp add: NormalizeTeamsUserID_def t Let_def)
  have "trim_space ''5'' = ''5''" by code_simp
  then have p: "ParseConsumptionHorizonLatestReadTS ''0;5;0'' = Some 5"
    by (simp add: ParseConsumptionHorizonLatestReadTS_def parse_int_def parse_uint_def is_digit_def)
  have q: "getLastSentMessagePartAtOrBeforeTime (\<lambda>_ _. False) (\<lambda>t. t) (Some ''b'') None own_messages
      \<lparr>pk_ID = ''t'', pk_Receiver = ''8:me''\<rparr> ''8:me'' 5000000 = Inr ''m2''"
    by (simp add: getLastSentMessagePartAtOrBeforeTime_def own_messages_def sent_before_def comes_before_def
        unix_nano_def)
  have me: "self_id (poll_sync\<lparr>sy_receiptPoll := m\<rparr>) = ''8:me''" for m
    by (simp add: self_id_def poll_sync_session NormalizeTeamsUserID_def t) (simp add: poll_session_def NormalizeTeamsUserID_def t)
  have outside: "o_lib read_outside = read_lib" "o_http read_outside = page_server" "o_until read_outside = (\<lambda>_. None)"
      "o_bridge read_outside = ''b''" "o_login read_outside = ''8:me''" "o_fault read_outside = (\<lambda>_. None)"
      "o_last_sent read_outside = getLastSentMessagePartAtOrBeforeTime (\<lambda>_ _. False) (\<lambda>t. t) (Some ''b'') None own_messages"
    by (simp_all add: read_outside_def poll_outside_def)
  have sync: "sy_receiptPoll poll_sync = (\<lambda>_. None)" "sy_horizons poll_sync = []" "sy_events poll_sync = []"
    by (simp_all add: poll_sync_def)
  show ?thesis
    by (simp add: pollConsumptionHorizons_def shouldPollReceipts_def poll_sync_session me outside sync
        read_horizons r p t q queue_event_def Let_def case_prod_beta portalKey_def
        teamsUserIDToNetworkUserID_def ConsumptionHorizon_Get_def del: remote_horizon.simps)
qed


text \<open>
  A read position after the year 2262, in milliseconds, is beyond the 64 bits of \<open>UnixNano\<close>: the query then asks for
  messages from before 1970 and finds none, so the receipt has no target although every message has been read.
\<close>

theorem far_read_position_finds_nothing:
  assumes "\<forall>m \<in> set t. 0 \<le> mr_timestamp m" and "set (scan t) = set t"
  shows "getLastSentMessagePartAtOrBeforeTime part_after scan (Some bridge) None t portal senderID
           (9999999999999 * 1000000) = Inr []"
proof -
  have "unix_nano (9999999999999 * 1000000) < 0"
    by (simp add: unix_nano_def)
  then have "filter (sent_before bridge portal senderID (9999999999999 * 1000000)) (scan t) = []"
    using assms by (force simp: filter_empty_conv sent_before_def)
  then show ?thesis by (simp add: getLastSentMessagePartAtOrBeforeTime_def)
qed

end
