(* ===== verification/RequestLog.thy ===== *)
theory RequestLog
  imports ConsumerClient Auth
begin

text \<open>
  What the requests leave in the log: the log functions of \<open>client/executor.go\<close> with the request
  metadata they read from the context, \<open>debugRequest\<close> of \<open>client/messages.go\<close>, the \<open>Error\<close> methods of
  the clients, and the log lines of \<open>auth/token.go\<close> and \<open>auth/skype_token.go\<close>.

  A logger is the list of its context fields. The operations of theories \<open>Executor\<close>, \<open>ConsumerClient\<close>
  and \<open>Auth\<close> return here the lines they write besides their result; forgetting the lines gives back the
  operation of those theories (\<open>log_erasure\<close>). The logger of a client may be nil: \<open>None\<close>.
\<close>

named_theorems log_erasure \<comment> \<open>without its lines a logged operation is the plain one\<close>

section \<open>Lines\<close>

datatype log_level = Debug_Level | Info_Level | Warn_Level | Error_Level

datatype log_value =
    LInt int
  | LDur duration
  | LStr string
  | LHeaders "(string \<times> string) list"

record log_line =
  ll_level :: log_level
  ll_fields :: "(string \<times> log_value) list"
  ll_msg :: string

type_synonym logger = "(string \<times> log_value) list"

definition line :: "log_level \<Rightarrow> logger \<Rightarrow> (string \<times> log_value) list \<Rightarrow> string \<Rightarrow> log_line" where
  "line level logger own msg = \<lparr>ll_level = level, ll_fields = logger @ own, ll_msg = msg\<rparr>"

section \<open>The text of an error\<close>

text \<open>
  The \<open>Error\<close> methods of the two clients: a constant per kind, whatever status and body the error
  carries. \<open>render\<close> is the text of an error that is not made there.
\<close>

fun status_error_text :: "status_error_kind \<Rightarrow> string" where
  "status_error_text MessagesError = ''messages request failed''"
| "status_error_text SendMessageError = ''send message request failed''"
| "status_error_text ReactionError = ''reaction request failed''"
| "status_error_text ReceiptError = ''receipt request failed''"
| "status_error_text TypingError = ''typing request failed''"
| "status_error_text ConversationsError = ''conversations request failed''"
| "status_error_text ConsumptionHorizonsError = ''consumption horizons request failed''"
| "status_error_text GraphUploadError = ''graph upload request failed''"
| "status_error_text GraphUploadSessionError = ''graph upload session request failed''"
| "status_error_text GraphChunkUploadError = ''graph chunk upload request failed''"
| "status_error_text GraphCreateLinkError = ''graph createLink request failed''"
| "status_error_text GraphDriveItemError = ''graph drive item request failed''"
| "status_error_text GraphDriveItemContentError = ''graph drive item content request failed''"

fun error_text :: "(go_error \<Rightarrow> string) \<Rightarrow> go_error \<Rightarrow> string" where
  "error_text render (RetryableError status retry_after (Some cause)) = error_text render cause"
| "error_text render (RetryableError status retry_after None) = ''teams request retryable error''"
| "error_text render (StatusError kind status body) = status_error_text kind"
| "error_text render e = render e"

section \<open>Request metadata\<close>

record RequestMeta =
  rq_ThreadID :: string
  rq_ClientMessageID :: string
  rq_TeamsMessageID :: string
  rq_EmotionKey :: string
  rq_Operation :: string

definition no_meta :: RequestMeta where
  "no_meta = \<lparr>rq_ThreadID = [], rq_ClientMessageID = [], rq_TeamsMessageID = [], rq_EmotionKey = [],
     rq_Operation = []\<rparr>"

text \<open>Of a context only the value under \<open>requestMetaKey\<close> matters here.\<close>

type_synonym log_context = "RequestMeta option"

definition WithRequestMeta :: "log_context \<Rightarrow> RequestMeta \<Rightarrow> log_context" where
  "WithRequestMeta ctx meta = Some meta"

definition requestMetaFromContext :: "log_context \<Rightarrow> RequestMeta \<times> bool" where
  "requestMetaFromContext ctx = (case ctx of Some meta \<Rightarrow> (meta, True) | None \<Rightarrow> (no_meta, False))"

definition with_field :: "string \<Rightarrow> string \<Rightarrow> logger \<Rightarrow> logger" where
  "with_field key value logger = (if value \<noteq> [] then logger @ [(key, LStr value)] else logger)"

definition logWithMeta :: "logger \<Rightarrow> log_context \<Rightarrow> logger" where
  "logWithMeta logger ctx =
     (let (meta, ok) = requestMetaFromContext ctx
      in if ok
         then with_field ''emotion_key'' (rq_EmotionKey meta)
                (with_field ''teams_message_id'' (rq_TeamsMessageID meta)
                  (with_field ''client_message_id'' (rq_ClientMessageID meta)
                    (with_field ''thread_id'' (rq_ThreadID meta) logger)))
         else logger)"

definition logPrefix :: "log_context \<Rightarrow> string" where
  "logPrefix ctx =
     (let (meta, ok) = requestMetaFromContext ctx
      in if ok \<and> rq_Operation meta \<noteq> [] then rq_Operation meta else ''teams send'')"

section \<open>The lines of the executor\<close>

definition logRetry :: "logger \<Rightarrow> string \<Rightarrow> int \<Rightarrow> int \<Rightarrow> duration \<Rightarrow> log_line" where
  "logRetry logger pref attempt status retryAfter =
     line Warn_Level logger
       ([(''attempt'', LInt attempt)]
        @ (if status \<noteq> 0 then [(''status'', LInt status)] else [])
        @ (if 0 <s retryAfter then [(''retry_after'', LDur retryAfter)] else []))
       (pref @ '' retry'')"

definition logBackoff :: "logger \<Rightarrow> string \<Rightarrow> int \<Rightarrow> duration \<Rightarrow> log_line" where
  "logBackoff logger pref attempt backoff =
     line Info_Level logger [(''attempt'', LInt attempt), (''duration'', LDur backoff)]
       (pref @ '' backoff'')"

definition logSuccess :: "logger \<Rightarrow> string \<Rightarrow> int \<Rightarrow> log_line" where
  "logSuccess logger pref attempts_made =
     line Info_Level logger [(''attempts'', LInt attempts_made)] (pref @ '' succeeded'')"

definition logFailure :: "(go_error \<Rightarrow> string) \<Rightarrow> logger \<Rightarrow> string \<Rightarrow> int \<Rightarrow> go_error \<Rightarrow> log_line" where
  "logFailure render logger pref attempts_made err =
     line Warn_Level logger [(''attempts'', LInt attempts_made), (''error'', LStr (error_text render err))]
       (pref @ '' failed'')"

text \<open>
  The retry loop with its lines. The two lines of a retry are written before the sleep, so they are
  there even if the sleep is interrupted; only an exchange or a classifier ends with a line of failure.
\<close>

definition back_off_logged ::
  "logger \<Rightarrow> string \<Rightarrow> exec_env \<Rightarrow> nat \<Rightarrow> request \<Rightarrow> int \<Rightarrow> duration \<Rightarrow> duration \<Rightarrow> exec_event list
     \<Rightarrow> log_line list \<Rightarrow> exec_result \<times> log_line list + exec_event list \<times> log_line list"
where
  "back_off_logged logger pref env retry attemptReq status retryAfter backoff log ls =
     (let ls = ls @ [logRetry logger pref (int retry + 1) status retryAfter,
                     logBackoff logger pref (int retry + 1) backoff]
      in map_sum (\<lambda>res. (res, ls)) (\<lambda>log. (log, ls)) (back_off env retry attemptReq backoff log))"

definition do_round_logged ::
  "(go_error \<Rightarrow> string) \<Rightarrow> logger \<Rightarrow> string \<Rightarrow> exec_env \<Rightarrow> (response option \<Rightarrow> go_error option)
     \<Rightarrow> request \<Rightarrow> nat \<Rightarrow> duration \<Rightarrow> duration \<Rightarrow> nat \<Rightarrow> exec_event list \<Rightarrow> log_line list
     \<Rightarrow> exec_result \<times> log_line list + exec_event list \<times> log_line list"
where
  "do_round_logged render logger pref env classify req maxRetries base mx retries log ls =
     (case env_ctx env (Suc retries) of
        Some e \<Rightarrow> Inl ((None, Some (CtxErr e), log), ls)
      | None \<Rightarrow>
        (case requestForAttempt req (Suc retries) of
           Inl err \<Rightarrow> Inl ((None, Some err, log), ls)
         | Inr attemptReq \<Rightarrow>
           (case env_http env (Suc retries) attemptReq of
              Inl err \<Rightarrow>
                if isRetryableNetworkError (env_ctx_net env (Suc retries)) err \<and> retries < maxRetries
                then back_off_logged logger pref env (Suc retries) attemptReq 0 0
                       (computeBackoff env base mx (Suc retries)) log ls
                else Inl ((None, Some (NetErr err), log @ [Attempt attemptReq]),
                          ls @ [logFailure render logger pref (int (Suc retries)) (NetErr err)])
            | Inr resp \<Rightarrow>
                (case classify (Some resp) of
                   None \<Rightarrow>
                     Inl ((Some resp, None, log @ [Attempt attemptReq]),
                          if 0 < retries then ls @ [logSuccess logger pref (int retries + 1)] else ls)
                 | Some classifyErr \<Rightarrow>
                   (let failed = Inl ((Some resp, Some classifyErr, log @ [Attempt attemptReq]),
                          ls @ [logFailure render logger pref (int retries + 1) classifyErr])
                    in case as_retryable classifyErr of
                      Some (status, retryAfter) \<Rightarrow>
                        if retries < maxRetries then
                          (let backoff = (if retryAfter \<le>s 0 then computeBackoff env base mx (Suc retries)
                                          else retryAfter)
                           in back_off_logged logger pref env (Suc retries) attemptReq status backoff
                                backoff log ls)
                        else failed
                    | None \<Rightarrow> failed)))))"

lemma back_off_erase:
  "map_sum fst fst (back_off_logged logger pref env retry q status ra d log ls)
     = back_off env retry q d log"
  by (cases "back_off env retry q d log") (simp_all add: back_off_logged_def Let_def)

lemma do_round_erase:
  "map_sum fst fst (do_round_logged render logger pref env classify req mr b mx n log ls)
     = do_round env classify req mr b mx n log"
  by (simp add: do_round_logged_def do_round_def Let_def back_off_erase split: option.split sum.split)

lemma do_round_logged_Inr:
  "do_round_logged render logger pref env classify req mr b mx n log ls = Inr (log', ls') \<Longrightarrow>
     do_round env classify req mr b mx n log = Inr log'"
  using do_round_erase [of render logger pref env classify req mr b mx n log ls] by simp

function do_loop_logged ::
  "(go_error \<Rightarrow> string) \<Rightarrow> logger \<Rightarrow> string \<Rightarrow> exec_env \<Rightarrow> (response option \<Rightarrow> go_error option)
     \<Rightarrow> request \<Rightarrow> nat \<Rightarrow> duration \<Rightarrow> duration \<Rightarrow> nat \<Rightarrow> exec_event list \<Rightarrow> log_line list
     \<Rightarrow> exec_result \<times> log_line list"
where
  "do_loop_logged render logger pref env classify req maxRetries base mx retries log ls =
     (case do_round_logged render logger pref env classify req maxRetries base mx retries log ls of
        Inl res \<Rightarrow> res
      | Inr (log', ls') \<Rightarrow>
          do_loop_logged render logger pref env classify req maxRetries base mx (Suc retries) log' ls')"
  by pat_completeness auto

termination
  by (relation "measure (\<lambda>(_, _, _, _, _, _, maxRetries, _, _, retries, _, _). maxRetries - retries)")
    (auto dest!: do_round_logged_Inr do_round_Inr)

declare do_loop_logged.simps [simp del]

definition Do_logged ::
  "(go_error \<Rightarrow> string) \<Rightarrow> logger \<Rightarrow> log_context \<Rightarrow> exec_env \<Rightarrow> executor option \<Rightarrow> request option
     \<Rightarrow> (response option \<Rightarrow> go_error option) option \<Rightarrow> exec_result \<times> log_line list"
where
  "Do_logged render executorLog ctx env exec req classify =
     (case exec of
        None \<Rightarrow> ((None, Some (ErrNew ''consumer client missing http client''), []), [])
      | Some e \<Rightarrow>
        if \<not> ex_has_http e then ((None, Some (ErrNew ''consumer client missing http client''), []), [])
        else case req of
          None \<Rightarrow> ((None, Some (ErrNew ''missing request''), []), [])
        | Some r \<Rightarrow>
          (case classify of
             None \<Rightarrow> ((None, Some (ErrNew ''missing response classifier''), []), [])
           | Some cl \<Rightarrow>
             (let maxRetries = (if ex_max_retries e < 0 then 0 else ex_max_retries e);
                  baseBackoff = (if ex_base_backoff e \<le>s 0 then 500 * millisecond
                                 else ex_base_backoff e);
                  maxBackoff = (if ex_max_backoff e \<le>s 0 then 10 * second else ex_max_backoff e);
                  logger = logWithMeta executorLog ctx;
                  pref = logPrefix ctx
              in do_loop_logged render logger pref env cl r (nat maxRetries) baseBackoff maxBackoff 0 []
                   [])))"

lemma do_loop_erase:
  "fst (do_loop_logged render logger pref env cl req mr b mx n log ls) = do_loop env cl req mr b mx n log"
proof (induction render logger pref env cl req mr b mx n log ls rule: do_loop_logged.induct)
  case (1 render logger pref env cl req mr b mx n log ls)
  let ?round = "do_round_logged render logger pref env cl req mr b mx n log ls"
  show ?case
  proof (cases ?round)
    case (Inl res)
    then have "do_round env cl req mr b mx n log = Inl (fst res)"
      using do_round_erase [of render logger pref env cl req mr b mx n log ls] by simp
    with Inl show ?thesis by (simp add: do_loop_logged.simps [of render] do_loop.simps [of env])
  next
    case (Inr p)
    obtain log' ls' where p: "p = (log', ls')" by fastforce
    with Inr 1 [OF Inr p [symmetric]] show ?thesis
      using do_round_logged_Inr [of render logger pref env cl req mr b mx n log ls log' ls']
      by (simp add: do_loop_logged.simps [of render _ _ env cl req mr b mx n log]
          do_loop.simps [of env cl req mr b mx n log])
  qed
qed

lemma Do_erase [log_erasure]:
  "fst (Do_logged render executorLog ctx env exec req cl) = Do env exec req cl"
  by (simp add: Do_logged_def Do_def Let_def do_loop_erase split: option.split)

section \<open>The log against the run\<close>

text \<open>
  What the log of a request should say, given its run: for every wait the two lines of a retry, with
  the number of the attempt that follows and the status the answer had (none for a network error);
  at the end, unless the run was broken off before an answer, how it ended after how many attempts.
\<close>

fun waits :: "exec_event list \<Rightarrow> duration list" where
  "waits [] = []"
| "waits (Attempt q # l) = waits l"
| "waits (Backoff d # l) = d # waits l"

definition answered :: "exec_event list \<Rightarrow> bool" where
  "answered events \<longleftrightarrow> (\<exists>l q. events = l @ [Attempt q])"

definition retry_reason ::
  "exec_env \<Rightarrow> (response option \<Rightarrow> go_error option) \<Rightarrow> request \<Rightarrow> nat \<Rightarrow> int option" where
  "retry_reason env cl req k =
     (case requestForAttempt req k of
        Inl _ \<Rightarrow> None
      | Inr q \<Rightarrow>
        (case env_http env k q of
           Inl _ \<Rightarrow> None
         | Inr r \<Rightarrow> map_option fst (Option.bind (cl (Some r)) as_retryable)))"

definition retry_lines :: "logger \<Rightarrow> string \<Rightarrow> (nat \<Rightarrow> int option) \<Rightarrow> nat \<times> duration \<Rightarrow> log_line list" where
  "retry_lines logger pref reason = (\<lambda>(k, d).
     [logRetry logger pref (int k + 1) (case reason k of None \<Rightarrow> 0 | Some status \<Rightarrow> status)
        (if reason k = None then 0 else d),
      logBackoff logger pref (int k + 1) d])"

definition outcome_lines ::
  "(go_error \<Rightarrow> string) \<Rightarrow> logger \<Rightarrow> string \<Rightarrow> exec_result \<Rightarrow> log_line list" where
  "outcome_lines render logger pref = (\<lambda>(resp, err, events).
     let n = length (attempts events)
     in if \<not> answered events then []
        else case err of
          Some e \<Rightarrow> [logFailure render logger pref (int n) e]
        | None \<Rightarrow> if 1 < n then [logSuccess logger pref (int n)] else [])"

definition run_lines ::
  "(go_error \<Rightarrow> string) \<Rightarrow> logger \<Rightarrow> string \<Rightarrow> (nat \<Rightarrow> int option) \<Rightarrow> exec_result \<Rightarrow> log_line list"
where
  "run_lines render logger pref reason res =
     concat (map (retry_lines logger pref reason) (enumerate 1 (waits (snd (snd res)))))
     @ outcome_lines render logger pref res"

lemma waits_append [simp]: "waits (l @ m) = waits l @ waits m"
  by (induction l rule: waits.induct) auto

lemma answered_simps [simp]:
  "\<not> answered []" "answered (l @ [Attempt q])" "\<not> answered (l @ [Attempt q, Backoff d])"
  "\<not> answered (l @ [Backoff d])"
  by (auto simp: answered_def)

lemma back_off_logged_lines:
  "back_off_logged logger pref env k q status ra d log ls = Inr (log', ls') \<Longrightarrow>
     log' = log @ [Attempt q, Backoff d]
     \<and> ls' = ls @ [logRetry logger pref (int k + 1) status ra, logBackoff logger pref (int k + 1) d]"
  "back_off_logged logger pref env k q status ra d log ls = Inl ((ro, eo, log'), ls') \<Longrightarrow>
     log' = log @ [Attempt q, Backoff d]
     \<and> ls' = ls @ [logRetry logger pref (int k + 1) status ra, logBackoff logger pref (int k + 1) d]"
  by (auto simp: back_off_logged_def back_off_def Let_def split: option.splits)

text \<open>How a round ends: the loop goes on or a sleep is interrupted, after the lines of a retry; it is broken off; or the
  attempt is the last.\<close>

definition round_lines ::
  "(go_error \<Rightarrow> string) \<Rightarrow> logger \<Rightarrow> string \<Rightarrow> (nat \<Rightarrow> int option) \<Rightarrow> nat \<Rightarrow> go_error option
     \<Rightarrow> exec_event list \<Rightarrow> log_line list \<Rightarrow> bool"
where
  "round_lines render logger pref reason n eo es ls \<longleftrightarrow>
     es = [] \<and> ls = []
     \<or> (\<exists>q d. es = [Attempt q, Backoff d] \<and> ls = retry_lines logger pref reason (Suc n, d))
     \<or> (\<exists>q. es = [Attempt q]
          \<and> ls = (case eo of Some e \<Rightarrow> [logFailure render logger pref (int (Suc n)) e]
               | None \<Rightarrow> if 0 < n then [logSuccess logger pref (int (Suc n))] else []))"

lemma retry_round_lines:
  "ls = [logRetry logger pref (int (Suc n) + 1) (case reason (Suc n) of None \<Rightarrow> 0 | Some st \<Rightarrow> st)
           (if reason (Suc n) = None then 0 else d),
         logBackoff logger pref (int (Suc n) + 1) d] \<Longrightarrow> es = [Attempt q, Backoff d] \<Longrightarrow>
     round_lines render logger pref reason n eo es ls"
  by (auto simp: round_lines_def retry_lines_def)

lemma do_round_logged_lines:
  fixes env :: exec_env and cl :: "response option \<Rightarrow> go_error option" and req :: request
  defines "reason \<equiv> retry_reason env cl req"
  shows "do_round_logged render logger pref env cl req mr b mx n log ls = Inr (log', ls') \<Longrightarrow>
      \<exists>q d. log' = log @ [Attempt q, Backoff d] \<and> ls' = ls @ retry_lines logger pref reason (Suc n, d)"
    (is "?round = _ \<Longrightarrow> _")
    and "do_round_logged render logger pref env cl req mr b mx n log ls = Inl ((ro, eo, log'), ls') \<Longrightarrow>
      \<exists>es l. log' = log @ es \<and> ls' = ls @ l \<and> round_lines render logger pref reason n eo es l"
proof -
  consider (broken) e where "?round = Inl ((None, Some e, log), ls)"
    | (last) q ro eo where "?round = Inl ((ro, eo, log @ [Attempt q]),
         ls @ (case eo of Some e \<Rightarrow> [logFailure render logger pref (int (Suc n)) e]
               | None \<Rightarrow> if 0 < n then [logSuccess logger pref (int (Suc n))] else []))"
    | (retry) q st ra d where "?round = back_off_logged logger pref env (Suc n) q st ra d log ls"
        "st = (case reason (Suc n) of None \<Rightarrow> 0 | Some st \<Rightarrow> st)" "ra = (if reason (Suc n) = None then 0 else d)"
  proof (cases "env_ctx env (Suc n)")
    case (Some e)
    then show ?thesis using broken by (simp add: do_round_logged_def)
  next
    case ctx: None
    show ?thesis
    proof (cases "requestForAttempt req (Suc n)")
      case (Inl e)
      with ctx show ?thesis using broken by (simp add: do_round_logged_def)
    next
      case (Inr q)
      show ?thesis
      proof (cases "env_http env (Suc n) q")
        case (Inl e)
        with ctx Inr last [of None "Some (NetErr e)" q] retry [of q 0 0] show ?thesis
          by (cases "isRetryableNetworkError (env_ctx_net env (Suc n)) e \<and> n < mr")
            (auto simp: do_round_logged_def reason_def retry_reason_def add.commute)
      next
        case resp: (Inr r)
        show ?thesis
        proof (cases "cl (Some r)")
          case None
          with ctx Inr resp last [of "Some r" None q] show ?thesis
            by (simp add: do_round_logged_def add.commute)
        next
          case (Some e)
          show ?thesis
          proof (cases "\<exists>st ra. as_retryable e = Some (st, ra) \<and> n < mr")
            case True
            then obtain st ra where "as_retryable e = Some (st, ra)" "n < mr" by blast
            with ctx Inr resp Some retry show ?thesis
              by (simp add: do_round_logged_def reason_def retry_reason_def Let_def)
          next
            case False
            with ctx Inr resp Some last [of "Some r" "Some e" q] show ?thesis
              by (auto simp: do_round_logged_def Let_def add.commute split: option.split)
          qed
        qed
      qed
    qed
  qed
  note round = this
  show "?round = Inr (log', ls') \<Longrightarrow>
      \<exists>q d. log' = log @ [Attempt q, Backoff d] \<and> ls' = ls @ retry_lines logger pref reason (Suc n, d)"
    using round
    by cases (auto dest!: back_off_logged_lines(1) simp: retry_lines_def)
  show "?round = Inl ((ro, eo, log'), ls') \<Longrightarrow>
      \<exists>es l. log' = log @ es \<and> ls' = ls @ l \<and> round_lines render logger pref reason n eo es l"
    using round
  proof cases
    case retry
    then show "?round = Inl ((ro, eo, log'), ls') \<Longrightarrow> ?thesis"
      by (auto dest!: back_off_logged_lines(2) intro: retry_round_lines)
  qed (auto simp: round_lines_def)
qed

lemma do_loop_logged_lines:
  assumes "length (waits log) = n" and "length (attempts log) = n" and "\<not> answered log"
  shows "snd (do_loop_logged render logger pref env cl req mr b mx n log
           (concat (map (retry_lines logger pref (retry_reason env cl req)) (enumerate 1 (waits log)))))
         = run_lines render logger pref (retry_reason env cl req) (do_loop env cl req mr b mx n log)"
  using assms
proof (induction "mr - n" arbitrary: n log rule: less_induct)
  case less
  let ?reason = "retry_reason env cl req"
  define ls where "ls = concat (map (retry_lines logger pref ?reason) (enumerate 1 (waits log)))"
  let ?round = "do_round_logged render logger pref env cl req mr b mx n log ls"
  note unfold = do_loop_logged.simps [of render logger pref env cl req mr b mx n log ls]
    do_loop.simps [of env cl req mr b mx n log]
  have "snd (do_loop_logged render logger pref env cl req mr b mx n log ls)
      = run_lines render logger pref ?reason (do_loop env cl req mr b mx n log)"
  proof (cases ?round)
    case (Inl res)
    obtain ro eo log' ls' where res: "res = ((ro, eo, log'), ls')" by (metis prod_cases4 surj_pair)
    from Inl res have r: "do_round env cl req mr b mx n log = Inl (ro, eo, log')"
      using do_round_erase [of render logger pref env cl req mr b mx n log ls] by simp
    from do_round_logged_lines(2) [OF Inl [unfolded res]] obtain es l where
      "log' = log @ es" "ls' = ls @ l" "round_lines render logger pref ?reason n eo es l" by blast
    with less.prems have "ls' = run_lines render logger pref ?reason (ro, eo, log')"
      by (auto simp: ls_def run_lines_def outcome_lines_def round_lines_def enumerate_append_eq
          split: option.split)
    with Inl res r show ?thesis by (simp add: unfold)
  next
    case (Inr p)
    obtain log' ls' where p: "p = (log', ls')" by fastforce
    from Inr p have r: "do_round env cl req mr b mx n log = Inr log'"
      by (auto dest: do_round_logged_Inr)
    then have n: "n < mr" by (auto dest: do_round_Inr)
    from do_round_logged_lines(1) [OF Inr [unfolded p]] obtain q d where
      log': "log' = log @ [Attempt q, Backoff d]"
      and ls': "ls' = ls @ retry_lines logger pref ?reason (Suc n, d)" by blast
    with less.prems have "ls' = concat (map (retry_lines logger pref ?reason) (enumerate 1 (waits log')))"
      by (simp add: ls_def enumerate_append_eq)
    with less.hyps [of "Suc n" log'] less.prems n log' Inr p r show ?thesis
      by (simp add: unfold)
  qed
  then show ?case by (simp add: ls_def)
qed

text \<open>
  C10: the log tells the run. What the executor writes is, line for line, what the run of the request
  calls for: each wait is announced with the number of the next attempt, its length and the status
  that caused it; a request that was answered ends with the number of its attempts and, if it failed,
  the error; a request answered well at once leaves no line.
\<close>

theorem log_tells_run:
  "snd (Do_logged render executorLog ctx env (Some e) (Some req) (Some cl))
     = run_lines render (logWithMeta executorLog ctx) (logPrefix ctx) (retry_reason env cl req)
         (Do env (Some e) (Some req) (Some cl))"
proof (cases "ex_has_http e")
  case True
  then show ?thesis
    using do_loop_logged_lines [of "[]" 0]
    by (simp add: Do_logged_def Do_def Let_def)
next
  case False
  then show ?thesis by (simp add: Do_logged_def Do_def run_lines_def outcome_lines_def)
qed

section \<open>Debug lines and the sending calls\<close>

text \<open>
  \<open>debugRequest\<close>: the values of authentication headers are replaced. The headers of the model are in the
  order in which they were set, with the names given there; Go writes them in canonical form and sorted.
\<close>

definition redact :: "golib \<Rightarrow> string \<times> string \<Rightarrow> string \<times> string" where
  "redact L = (\<lambda>(key, values).
     if eq_fold L key ''authentication'' \<or> eq_fold L key ''authorization'' then (key, ''REDACTED'')
     else (key, values))"

definition debugRequest :: "golib \<Rightarrow> logger option \<Rightarrow> string \<Rightarrow> string \<Rightarrow> request \<Rightarrow> log_line list" where
  "debugRequest L lg message endpoint req =
     (case lg of None \<Rightarrow> []
      | Some logger \<Rightarrow>
          [line Debug_Level logger
             [(''url'', LStr endpoint), (''headers'', LHeaders (map (redact L) (req_headers req)))] message])"

text \<open>
  The executor logs to the client's logger if there is one; otherwise to the one it was made with, which
  discards what it is given.
\<close>

definition run_request_logged ::
  "(go_error \<Rightarrow> string) \<Rightarrow> exec_env \<Rightarrow> logger option \<Rightarrow> RequestMeta \<Rightarrow> Client
     \<Rightarrow> (response option \<Rightarrow> go_error option) \<Rightarrow> request \<Rightarrow> call \<times> log_line list" where
  "run_request_logged render E lg meta c classify req =
     (let ex = client_executor c;
          ((resp, err, log), ls) =
            Do_logged render (case lg of Some logger \<Rightarrow> logger | None \<Rightarrow> [])
              (WithRequestMeta None meta) E (Some ex) (Some req) (Some classify)
      in ((Some (c\<lparr>cl_Executor := Some ex\<rparr>),
           (case resp of Some r \<Rightarrow> resp_status r | None \<Rightarrow> 0), err, log),
          case lg of Some _ \<Rightarrow> ls | None \<Rightarrow> []))"

definition submit_logged ::
  "(go_error \<Rightarrow> string) \<Rightarrow> golib \<Rightarrow> exec_env \<Rightarrow> logger option \<Rightarrow> string \<Rightarrow> RequestMeta \<Rightarrow> Client
     \<Rightarrow> (response option \<Rightarrow> go_error option) \<Rightarrow> string \<Rightarrow> string \<Rightarrow> json \<Rightarrow> call \<times> log_line list"
where
  "submit_logged render L E lg message meta c classify meth endpoint payload =
     (case new_request L meth endpoint (Some (lib_marshal L payload)) (post_headers (cl_Token c)) of
        Inl err \<Rightarrow> (refuse (Some c) err, [])
      | Inr req \<Rightarrow>
        (let (res, ls) = run_request_logged render E lg meta c classify req
         in (res, debugRequest L lg message endpoint req @ ls)))"

lemma run_request_erase [log_erasure]:
  "fst (run_request_logged render E lg meta c classify req) = run_request E c classify req"
proof -
  obtain resp err log ls where d: "Do_logged render (case lg of Some logger \<Rightarrow> logger | None \<Rightarrow> [])
      (WithRequestMeta None meta) E (Some (client_executor c)) (Some req) (Some classify)
      = ((resp, err, log), ls)" by (metis prod_cases4 surj_pair)
  then have "Do E (Some (client_executor c)) (Some req) (Some classify) = (resp, err, log)"
    by (metis Do_erase fst_conv)
  with d show ?thesis
    by (simp add: run_request_logged_def run_request_def Let_def split: option.split)
qed

lemma submit_erase [log_erasure]:
  "fst (submit_logged render L E lg message meta c classify meth endpoint payload)
     = submit L E c classify meth endpoint payload"
  by (simp add: submit_logged_def submit_def case_prod_beta log_erasure split: sum.split)

definition send_meta :: "string \<Rightarrow> string \<Rightarrow> string \<Rightarrow> RequestMeta" where
  "send_meta threadID clientMessageID operation =
     no_meta\<lparr>rq_ThreadID := threadID, rq_ClientMessageID := clientMessageID, rq_Operation := operation\<rparr>"

definition thread_warning :: "logger option \<Rightarrow> string \<Rightarrow> log_line list" where
  "thread_warning lg threadID =
     (case lg of
        Some logger \<Rightarrow>
          if \<not> contains threadID ''@thread.v2''
          then [line Warn_Level logger [(''thread_id'', LStr threadID)] ''teams thread id missing @thread.v2'']
          else []
      | None \<Rightarrow> [])"

definition sendRichTextMessageWithID_logged ::
  "(go_error \<Rightarrow> string) \<Rightarrow> golib \<Rightarrow> exec_env \<Rightarrow> logger option \<Rightarrow> (string \<Rightarrow> duration option) \<Rightarrow> string
     \<Rightarrow> Client option \<Rightarrow> string \<Rightarrow> string \<Rightarrow> string \<Rightarrow> string \<Rightarrow> string \<Rightarrow> bool \<Rightarrow> call \<times> log_line list"
where
  "sendRichTextMessageWithID_logged render L E lg until now c threadID htmlContent filesProperty
       fromUserID clientMessageID allowEmptyContent =
     (case client_ready c of
        Inl err \<Rightarrow> (refuse c err, [])
      | Inr cl \<Rightarrow>
        (let threadID = trim_space threadID
         in if threadID = [] then (refuse c (ErrNew ''missing thread id''), [])
            else if \<not> allowEmptyContent \<and> trim_space htmlContent = []
              then (refuse c (ErrNew ''missing message content''), [])
            else if trim_space fromUserID = [] then (refuse c (ErrNew ''missing from user id''), [])
            else if clientMessageID = [] then (refuse c (ErrNew ''missing client message id''), [])
            else
              (let (res, ls) = submit_logged render L E lg ''teams send message request''
                 (send_meta threadID clientMessageID []) cl (classifyTeamsSendResponse until) ''POST''
                 (messages_endpoint cl threadID)
                 (json_map
                   ([(''type'', JString ''Message''), (''conversationid'', JString threadID),
                     (''content'', JString htmlContent), (''messagetype'', JString ''RichText/Html''),
                     (''contenttype'', JString ''Text''), (''clientmessageid'', JString clientMessageID),
                     (''composetime'', JString now), (''originalarrivaltime'', JString now),
                     (''from'', JString fromUserID), (''fromUserId'', JString fromUserID)]
                    @ (if trim_space filesProperty \<noteq> []
                       then [(''properties'', json_map [(''files'', JString filesProperty)])]
                       else [])))
               in (res, thread_warning lg threadID @ ls))))"

lemma sendRichText_erase [log_erasure]:
  "fst (sendRichTextMessageWithID_logged render L E lg until now c threadID htmlContent filesProperty
       fromUserID clientMessageID allowEmpty)
     = sendRichTextMessageWithID L E until now c threadID htmlContent filesProperty fromUserID
         clientMessageID allowEmpty"
  by (simp add: sendRichTextMessageWithID_logged_def sendRichTextMessageWithID_def Let_def case_prod_beta
      log_erasure split: sum.split)

text \<open>The other three: the same with another text and other metadata.\<close>

definition SetConsumptionHorizon_logged ::
  "(go_error \<Rightarrow> string) \<Rightarrow> golib \<Rightarrow> exec_env \<Rightarrow> logger option \<Rightarrow> (string \<Rightarrow> duration option) \<Rightarrow> Client option
     \<Rightarrow> string \<Rightarrow> string \<Rightarrow> call \<times> log_line list"
where
  "SetConsumptionHorizon_logged render L E lg until c threadID horizon =
     (case client_ready c of
        Inl err \<Rightarrow> (refuse c err, [])
      | Inr cl \<Rightarrow>
        (let threadID = trim_space threadID; horizon = trim_space horizon
         in if threadID = [] then (refuse c (ErrNew ''missing thread id''), [])
            else if horizon = [] then (refuse c (ErrNew ''missing consumption horizon''), [])
            else submit_logged render L E lg ''teams receipt request''
              (send_meta threadID [] ''teams receipt'') cl (classifyTeamsReceiptResponse until) ''PUT''
              (base_url (cl_SendMessagesURL cl) defaultSendMessagesURL @ ''/'' @ path_escape threadID
                 @ ''/properties?name=consumptionhorizon'')
              (json_map [(''consumptionhorizon'', JString horizon)])))"

definition SendTypingIndicator_logged ::
  "(go_error \<Rightarrow> string) \<Rightarrow> golib \<Rightarrow> exec_env \<Rightarrow> logger option \<Rightarrow> (string \<Rightarrow> duration option) \<Rightarrow> string
     \<Rightarrow> string \<Rightarrow> Client option \<Rightarrow> string \<Rightarrow> string \<Rightarrow> call \<times> log_line list"
where
  "SendTypingIndicator_logged render L E lg until now clientMessageID c threadID fromUserID =
     (case client_ready c of
        Inl err \<Rightarrow> (refuse c err, [])
      | Inr cl \<Rightarrow>
        (let threadID = trim_space threadID; fromUserID = trim_space fromUserID
         in if threadID = [] then (refuse c (ErrNew ''missing thread id''), [])
            else if fromUserID = [] then (refuse c (ErrNew ''missing from user id''), [])
            else submit_logged render L E lg ''teams typing request''
              (send_meta threadID clientMessageID ''teams typing'') cl (classifyTeamsTypingResponse until)
              ''POST'' (messages_endpoint cl threadID)
              (json_map
                 [(''type'', JString ''Message''), (''conversationid'', JString threadID),
                  (''messagetype'', JString ''Control/Typing''), (''contenttype'', JString ''Text''),
                  (''clientmessageid'', JString clientMessageID),
                  (''composetime'', JString now), (''originalarrivaltime'', JString now),
                  (''from'', JString fromUserID), (''fromUserId'', JString fromUserID)])))"

definition sendReaction_logged ::
  "(go_error \<Rightarrow> string) \<Rightarrow> golib \<Rightarrow> exec_env \<Rightarrow> logger option \<Rightarrow> (string \<Rightarrow> duration option) \<Rightarrow> Client
     \<Rightarrow> string \<Rightarrow> string \<Rightarrow> string \<Rightarrow> string \<Rightarrow> json \<Rightarrow> call \<times> log_line list"
where
  "sendReaction_logged render L E lg until cl meth threadID teamsMessageID emotionKey payload =
     submit_logged render L E lg ''teams reaction request''
       ((send_meta threadID [] ''teams reaction'')
          \<lparr>rq_TeamsMessageID := teamsMessageID, rq_EmotionKey := emotionKey\<rparr>)
       cl (classifyTeamsReactionResponse until) meth
       (base_url (cl_SendMessagesURL cl) defaultSendMessagesURL @ ''/'' @ path_escape threadID
          @ ''/messages/'' @ path_escape teamsMessageID @ ''/properties?name=emotions'')
       payload"

lemma SetConsumptionHorizon_erase [log_erasure]:
  "fst (SetConsumptionHorizon_logged render L E lg until c threadID horizon)
     = SetConsumptionHorizon L E until c threadID horizon"
  by (simp add: SetConsumptionHorizon_logged_def SetConsumptionHorizon_def Let_def log_erasure
      split: sum.split)

lemma SendTypingIndicator_erase [log_erasure]:
  "fst (SendTypingIndicator_logged render L E lg until now clientMessageID c threadID fromUserID)
     = SendTypingIndicator L E until now clientMessageID c threadID fromUserID"
  by (simp add: SendTypingIndicator_logged_def SendTypingIndicator_def Let_def log_erasure
      split: sum.split)

lemma sendReaction_erase [log_erasure]:
  "fst (sendReaction_logged render L E lg until cl meth threadID teamsMessageID emotionKey payload)
     = sendReaction L E until cl meth threadID teamsMessageID payload"
  by (simp add: sendReaction_logged_def sendReaction_def log_erasure)

section \<open>What the log does not depend on\<close>

text \<open>
  Two servers that answer requests of one URL alike, up to the body of their responses, and two requests of
  one URL: the log of the one run is the log of the other. So the token in the headers, the text of a message
  and what the server writes back leave no trace in it.
\<close>

fun same_answer :: "net_error + response \<Rightarrow> net_error + response \<Rightarrow> bool" where
  "same_answer (Inl e) (Inl e') = (e = e')"
| "same_answer (Inr r) (Inr r') =
     (resp_status r = resp_status r' \<and> resp_retry_after r = resp_retry_after r')"
| "same_answer _ _ = False"

definition same_answers :: "exec_env \<Rightarrow> exec_env \<Rightarrow> bool" where
  "same_answers E E' \<longleftrightarrow>
     (\<forall>k q q'. req_url q = req_url q' \<longrightarrow> same_answer (env_http E k q) (env_http E' k q'))
     \<and> env_ctx E = env_ctx E' \<and> env_ctx_net E = env_ctx_net E' \<and> env_sleep E = env_sleep E'
     \<and> env_jitter E = env_jitter E'"

lemma same_answersD:
  assumes "same_answers E E'"
  shows "env_ctx E = env_ctx E'" "env_ctx_net E = env_ctx_net E'" "env_sleep E = env_sleep E'"
    "env_jitter E = env_jitter E'"
    and "req_url q = req_url q' \<Longrightarrow> same_answer (env_http E k q) (env_http E' k q')"
  using assms by (auto simp: same_answers_def)

text \<open>A classifier that looks at the status and at \<open>Retry-After\<close> only, as far as the log is concerned.\<close>

definition blind_to_body :: "(go_error \<Rightarrow> string) \<Rightarrow> (response option \<Rightarrow> go_error option) \<Rightarrow> bool" where
  "blind_to_body render cl \<longleftrightarrow>
     (\<forall>r r'. same_answer (Inr r) (Inr r') \<longrightarrow>
        rel_option (\<lambda>e e'. error_text render e = error_text render e' \<and> as_retryable e = as_retryable e')
          (cl (Some r)) (cl (Some r')))"

lemma classify_response_blind [intro]: "blind_to_body render (classify_response kind limit until)"
  by (auto simp: blind_to_body_def classify_response_def classify_status_def)

definition re_readable :: "request \<Rightarrow> bool" where
  "re_readable req \<longleftrightarrow> (\<exists>body. req_get_body req = Some (Inr body))"

lemma re_readable_attempt:
  "re_readable req \<Longrightarrow> \<exists>q. requestForAttempt req k = Inr q \<and> req_url q = req_url req"
  by (auto simp: re_readable_def requestForAttempt_def)

lemma back_off_same:
  assumes "same_answers E E'"
  shows "rel_sum (\<lambda>a b. snd a = snd b) (\<lambda>a b. snd a = snd b)
     (back_off_logged logger pref E k q st ra d log ls) (back_off_logged logger pref E' k q' st ra d log' ls)"
  using same_answersD [OF assms]
  by (auto simp: back_off_logged_def back_off_def sleepWithContext_def Let_def split: option.split)

lemma do_round_same:
  assumes same: "same_answers E E'" and blind: "blind_to_body render cl"
    and req: "re_readable req" "re_readable req'" "req_url req = req_url req'"
  shows "rel_sum (\<lambda>a b. snd a = snd b) (\<lambda>a b. snd a = snd b)
     (do_round_logged render logger pref E cl req mr b mx n log ls)
     (do_round_logged render logger pref E' cl req' mr b mx n log' ls)"
proof -
  obtain q q' where q: "requestForAttempt req (Suc n) = Inr q" "requestForAttempt req' (Suc n) = Inr q'"
      "req_url q = req_url q'"
    using re_readable_attempt [OF req(1), of "Suc n"] re_readable_attempt [OF req(2), of "Suc n"] req(3) by auto
  note E = same_answersD [OF same]
  have jitter: "computeBackoff E b mx k = computeBackoff E' b mx k" for k
    by (simp add: computeBackoff_def E)
  note backing = back_off_same [OF same]
  from E(5) [OF q(3), of "Suc n"] show ?thesis
  proof (cases "env_http E (Suc n) q"; cases "env_http E' (Suc n) q'")
    fix e e'
    assume "same_answer (env_http E (Suc n) q) (env_http E' (Suc n) q')"
      "env_http E (Suc n) q = Inl e" "env_http E' (Suc n) q' = Inl e'"
    then show ?thesis
      using backing [of logger pref "Suc n" q 0 0 "computeBackoff E' b mx (Suc n)" log ls q' log']
      by (cases "env_ctx E' (Suc n)") (simp_all add: do_round_logged_def q E jitter)
  next
    fix r r'
    assume "same_answer (env_http E (Suc n) q) (env_http E' (Suc n) q')"
      and http: "env_http E (Suc n) q = Inr r" "env_http E' (Suc n) q' = Inr r'"
    then have "rel_option (\<lambda>e e'. error_text render e = error_text render e' \<and> as_retryable e = as_retryable e')
        (cl (Some r)) (cl (Some r'))"
      using blind by (simp add: blind_to_body_def)
    then consider (accepted) "cl (Some r) = None" "cl (Some r') = None"
      | (rejected) e e' where "cl (Some r) = Some e" "cl (Some r') = Some e'"
        "error_text render e = error_text render e'" "as_retryable e = as_retryable e'"
      by (cases "cl (Some r)"; cases "cl (Some r')") auto
    then show ?thesis
    proof cases
      case accepted
      with http show ?thesis
        by (cases "env_ctx E' (Suc n)") (simp_all add: do_round_logged_def q E split del: if_split)
    next
      case rejected
      with http show ?thesis
        by (cases "env_ctx E' (Suc n)"; cases "as_retryable e'"; cases "n < mr")
          (auto simp: do_round_logged_def q E jitter Let_def logFailure_def intro!: backing)
    qed
  qed simp_all
qed

lemma do_loop_same:
  assumes "same_answers E E'" "blind_to_body render cl"
    and "re_readable req" "re_readable req'" "req_url req = req_url req'"
  shows "snd (do_loop_logged render logger pref E cl req mr b mx n log ls)
       = snd (do_loop_logged render logger pref E' cl req' mr b mx n log' ls)"
proof (induction "mr - n" arbitrary: n log log' ls rule: less_induct)
  case less
  let ?r = "do_round_logged render logger pref E cl req mr b mx n log ls"
  let ?r' = "do_round_logged render logger pref E' cl req' mr b mx n log' ls"
  note unfold = do_loop_logged.simps [of render logger pref E cl req mr b mx n log ls]
    do_loop_logged.simps [of render logger pref E' cl req' mr b mx n log' ls]
  from do_round_same [OF assms, of logger pref mr b mx n log ls log'] show ?case
  proof (cases rule: rel_sum.cases)
    case (2 p p')
    obtain l s l' s' where p: "p = (l, s)" "p' = (l', s')" by (metis surj_pair)
    from 2 p have "n < mr" by (auto dest!: do_round_logged_Inr do_round_Inr)
    with less.hyps [of "Suc n" l s l'] 2 p show ?thesis by (simp add: unfold)
  qed (simp add: unfold)
qed

lemma Do_logged_same:
  assumes "same_answers E E'" "blind_to_body render cl"
    and "re_readable req" "re_readable req'" "req_url req = req_url req'"
  shows "snd (Do_logged render executorLog ctx E (Some e) (Some req) (Some cl))
       = snd (Do_logged render executorLog ctx E' (Some e) (Some req') (Some cl))"
  by (simp add: Do_logged_def Let_def do_loop_same [OF assms])

lemma redact_auth: "redact L (auth_header t) = (''authentication'', ''REDACTED'')"
  by (simp add: redact_def auth_header_def equal_fold_def is_ascii_def)

lemma submit_same:
  assumes "same_answers E E'" "blind_to_body render cl"
  shows "snd (submit_logged render L E lg message meta (c\<lparr>cl_Token := t\<rparr>) cl meth endpoint payload)
       = snd (submit_logged render L E' lg message meta (c\<lparr>cl_Token := t'\<rparr>) cl meth endpoint payload')"
  using Do_logged_same [OF assms]
  by (auto simp: redact_auth submit_logged_def run_request_logged_def new_request_def client_executor_def Let_def
      case_prod_beta debugRequest_def post_headers_def get_headers_def re_readable_def
      split: option.split)

section \<open>The lines of the token requests\<close>

definition log_to :: "logger option \<Rightarrow> log_level \<Rightarrow> (string \<times> log_value) list \<Rightarrow> string \<Rightarrow> log_line list" where
  "log_to lg level own message = (case lg of Some logger \<Rightarrow> [line level logger own message] | None \<Rightarrow> [])"

definition tokenRequest_logged ::
  "golib \<Rightarrow> exchange \<Rightarrow> instant \<Rightarrow> AuthClient \<Rightarrow> logger option \<Rightarrow> (string \<times> string) list
     \<Rightarrow> (go_error + AuthState) \<times> log_line list" where
  "tokenRequest_logged L http now c lg values =
     (tokenRequest L http now c values,
      let origin = redirectOrigin L (ac_RedirectURI c)
      in case new_request L ''POST'' (ac_TokenEndpoint c) (Some (encode_values values))
              ((''Content-Type'', ''application/x-www-form-urlencoded'')
                 # (if origin \<noteq> [] then [(''Origin'', origin)] else [])) of
           Inl err \<Rightarrow> []
         | Inr req \<Rightarrow>
           (case http req of
              Inl err \<Rightarrow> []
            | Inr resp \<Rightarrow>
                if resp_status resp < 200 \<or> 300 \<le> resp_status resp
                then log_to lg Error_Level
                  [(''status'', LInt (resp_status resp)), (''body'', LStr (body_snippet (fst (read_all resp))))]
                  ''Token endpoint error''
                else []))"

definition ExchangeCode_logged ::
  "golib \<Rightarrow> exchange \<Rightarrow> instant \<Rightarrow> AuthClient \<Rightarrow> logger option \<Rightarrow> string \<Rightarrow> string
     \<Rightarrow> (go_error + AuthState) \<times> log_line list" where
  "ExchangeCode_logged L http now c lg code verifier =
     (if code = [] then (Inl (ErrNew ''missing authorization code''), [])
      else
        (let (res, ls) = tokenRequest_logged L http now c lg
           [(''client_id'', ac_ClientID c), (''redirect_uri'', ac_RedirectURI c),
            (''grant_type'', ''authorization_code''), (''code'', code), (''code_verifier'', verifier)]
         in (res, log_to lg Info_Level
                [(''redirect_uri'', LStr (ac_RedirectURI c)), (''code_verifier'', LStr verifier)]
                ''Exchanging authorization code'' @ ls)))"

definition AcquireSkypeToken_logged ::
  "golib \<Rightarrow> exchange \<Rightarrow> instant \<Rightarrow> AuthClient \<Rightarrow> logger option \<Rightarrow> string
     \<Rightarrow> (go_error + string \<times> int \<times> string) \<times> log_line list" where
  "AcquireSkypeToken_logged L http now c lg accessToken =
     (AcquireSkypeToken L http now c accessToken,
      if ac_SkypeTokenEndpoint c = [] \<or> accessToken = [] then []
      else log_to lg Info_Level [] ''Acquiring Teams skypetoken''
        @ (case new_request L ''POST'' (ac_SkypeTokenEndpoint c) None
                  [(''Authorization'', ''Bearer '' @ accessToken)] of
             Inl err \<Rightarrow> []
           | Inr req \<Rightarrow>
             (case http req of
                Inl err \<Rightarrow> []
              | Inr resp \<Rightarrow>
                  if resp_status resp < 200 \<or> 300 \<le> resp_status resp
                  then log_to lg Error_Level
                    [(''status'', LInt (resp_status resp)),
                     (''body_snippet'', LStr (body_snippet (fst (read_limited 2048 resp))))]
                    ''Failed to acquire skypetoken''
                  else [])))"

lemma ExchangeCode_erase [log_erasure]:
  "fst (ExchangeCode_logged L http now c lg code verifier) = ExchangeCode L http now c code verifier"
  by (simp add: ExchangeCode_logged_def ExchangeCode_def tokenRequest_logged_def)

section \<open>Properties of the log\<close>

text \<open>
  C11: the log does not give away secrets. Two sends to one thread under one client message ID leave the same log,
  whatever the tokens, the texts, the attached files and the user, and whatever bodies the server answers with,
  provided the checks at the start pass or fail alike and the server answers with the same statuses.
\<close>

theorem send_log_private:
  assumes "same_answers E E'" and "t \<noteq> []" and "t' \<noteq> []"
    and "trim_space content = [] \<longleftrightarrow> trim_space content' = []"
    and "trim_space user = [] \<longleftrightarrow> trim_space user' = []"
  shows "snd (sendRichTextMessageWithID_logged render L E lg until now (Some (c\<lparr>cl_Token := t\<rparr>)) threadID
           content files user clientMessageID allowEmpty)
       = snd (sendRichTextMessageWithID_logged render L E' lg until now' (Some (c\<lparr>cl_Token := t'\<rparr>)) threadID
           content' files' user' clientMessageID allowEmpty)"
proof -
  have "blind_to_body render (classifyTeamsSendResponse until)"
    unfolding classifyTeamsSendResponse_def ..
  note same = submit_same [OF assms(1) this]
  have url: "messages_endpoint (c\<lparr>cl_Token := t\<rparr>) i = messages_endpoint (c\<lparr>cl_Token := t'\<rparr>) i" for i
    by (simp add: messages_endpoint_def)
  from assms(2-5) show ?thesis
    by (simp add: sendRichTextMessageWithID_logged_def client_ready_def Let_def case_prod_beta url same)
qed

definition other_bodies :: exec_env where
  "other_bodies = (scripted (\<lambda>k. if k < 2 then 503 else 201))
     \<lparr>env_http := (\<lambda>k _. Inr ((reply (if k < 2 then 503 else 201) [])\<lparr>resp_body := ''token=abc''\<rparr>))\<rparr>"

theorem send_log_private_witness:
  "snd (sendRichTextMessageWithID_logged (\<lambda>_. []) sample_lib (scripted (\<lambda>k. if k < 2 then 503 else 201)) (Some [])
      (\<lambda>_. None) [] (Some (sample_client\<lparr>cl_Token := ''abc''\<rparr>)) ''t'' ''private'' [] ''8:me'' ''1'' False)
   = snd (sendRichTextMessageWithID_logged (\<lambda>_. []) sample_lib other_bodies (Some [])
      (\<lambda>_. None) [] (Some (sample_client\<lparr>cl_Token := ''xyz''\<rparr>)) ''t'' ''other'' ''[]'' ''8:you'' ''1'' False)"
proof (rule send_log_private)
  show "same_answers (scripted (\<lambda>k. if k < 2 then 503 else 201)) other_bodies"
    by (simp add: same_answers_def other_bodies_def scripted_def reply_def)
  show "(trim_space ''private'' = []) = (trim_space ''other'' = [])"
    and "(trim_space ''8:me'' = []) = (trim_space ''8:you'' = [])"
    by code_simp+
qed simp_all

text \<open>
  The exchange of an authorization code writes the proof key, which the headers of every other request are
  cleaned of, into the log in clear, at the level of ordinary messages.
\<close>

theorem verifier_in_log:
  assumes "code \<noteq> []"
  shows "\<exists>l. List.member (snd (ExchangeCode_logged L http now c (Some logger) code verifier)) l
     \<and> ll_level l = Info_Level \<and> List.member (ll_fields l) (''code_verifier'', LStr verifier)"
  using assms by (auto simp: ExchangeCode_logged_def log_to_def line_def case_prod_beta)

end
