(* ===== verification/TokenCache.thy ===== *)
theory TokenCache
  imports "HOL-Library.AList" Auth
begin

text \<open>
  Tokens from the browser: \<open>internal/teams/auth/msal.go\<close> (the MSAL cache), \<open>teams_cache.go\<close> (the cache of
  the Teams web client) and the capture handler of \<open>flow.go\<close>.

  A storage is the association list of a Go map of strings, with distinct keys. The iteration order of a
  map is not specified, so each loop has its own order, \<open>ord n\<close>. The ciphers and the key derivation of
  the standard library are fields of \<open>crypto\<close>; padding, base64 and the check for UTF-8 are written out.
\<close>

section \<open>Bytes\<close>

record crypto =
  cr_cbc :: "string \<Rightarrow> string \<Rightarrow> string \<Rightarrow> string" \<comment> \<open>AES-CBC: key, IV and ciphertext to plaintext\<close>
  cr_hkdf :: "string \<Rightarrow> string \<Rightarrow> string \<Rightarrow> go_error + string" \<comment> \<open>HKDF-SHA256, 32 bytes: key, salt, context\<close>
  cr_gcm :: "string \<Rightarrow> string \<Rightarrow> go_error + string" \<comment> \<open>AES-GCM with the zero nonce: key, ciphertext\<close>

fun index_sub :: "string \<Rightarrow> string \<Rightarrow> nat option" where \<comment> \<open>\<open>strings.Index\<close>\<close>
  "index_sub [] sub = (if sub = [] then Some 0 else None)"
| "index_sub (c # cs) sub = (if prefix sub (c # cs) then Some 0 else map_option Suc (index_sub cs sub))"

definition b64_value :: "bool \<Rightarrow> char \<Rightarrow> nat option" where
  "b64_value url_safe c =
     (let n = of_char c
      in if 65 \<le> n \<and> n \<le> 90 then Some (n - 65)
         else if 97 \<le> n \<and> n \<le> 122 then Some (n - 71)
         else if 48 \<le> n \<and> n \<le> 57 then Some (n + 4)
         else if c = (if url_safe then CHR ''-'' else CHR ''+'') then Some 62
         else if c = (if url_safe then CHR ''_'' else CHR ''/'') then Some 63
         else None)"

fun b64_bytes :: "nat list \<Rightarrow> string option" where
  "b64_bytes (a # b # c # d # rest) =
     map_option ((@) [char_of (a * 4 + b div 16), char_of ((b mod 16) * 16 + c div 4), char_of ((c mod 4) * 64 + d)])
       (b64_bytes rest)"
| "b64_bytes [a, b, c] = Some [char_of (a * 4 + b div 16), char_of ((b mod 16) * 16 + c div 4)]"
| "b64_bytes [a, b] = Some [char_of (a * 4 + b div 16)]"
| "b64_bytes [a] = None"
| "b64_bytes [] = Some []"

text \<open>
  \<open>Encoding.DecodeString\<close>: line breaks are skipped; with padding the last group of four is filled up with
  equal signs, without it there are none.
\<close>

definition b64_decode :: "bool \<Rightarrow> bool \<Rightarrow> string \<Rightarrow> string option" where
  "b64_decode url_safe padded s =
     (let cs = filter (\<lambda>c. c \<noteq> CHR 0x0A \<and> c \<noteq> CHR 0x0D) s;
          body = takeWhile (\<lambda>c. c \<noteq> CHR ''='') cs;
          pad = (if padded then (4 - length body mod 4) mod 4 else 0)
      in if drop (length body) cs = replicate pad (CHR ''='')
         then Option.bind (those (map (b64_value url_safe) body)) b64_bytes
         else None)"

definition decodeAuthBase64 :: "string \<Rightarrow> string option" where
  "decodeAuthBase64 value =
     (let value = trim_space value
      in case b64_decode True False value of Some d \<Rightarrow> Some d
         | None \<Rightarrow> (case b64_decode False True value of Some d \<Rightarrow> Some d
         | None \<Rightarrow> (case b64_decode True True value of Some d \<Rightarrow> Some d
         | None \<Rightarrow> b64_decode False False value)))"

definition byte_in :: "nat \<Rightarrow> nat \<Rightarrow> char \<Rightarrow> bool" where
  "byte_in lo hi c \<longleftrightarrow> lo \<le> of_char c \<and> of_char c \<le> hi"

text \<open>\<open>utf8.Valid\<close>.\<close>

fun utf8_valid :: "string \<Rightarrow> bool" where
  "utf8_valid [] = True"
| "utf8_valid (a # s) =
     (if byte_in 0 0x7F a then utf8_valid s
      else (case s of
        [] \<Rightarrow> False
      | b # s2 \<Rightarrow>
          if byte_in 0xC2 0xDF a then byte_in 0x80 0xBF b \<and> utf8_valid s2
          else (case s2 of
            [] \<Rightarrow> False
          | c # s3 \<Rightarrow>
              if byte_in 0xE0 0xEF a
              then byte_in (if byte_in 0xE0 0xE0 a then 0xA0 else 0x80) (if byte_in 0xED 0xED a then 0x9F else 0xBF) b
                   \<and> byte_in 0x80 0xBF c \<and> utf8_valid s3
              else (case s3 of
                [] \<Rightarrow> False
              | d # s4 \<Rightarrow>
                  byte_in 0xF0 0xF4 a
                  \<and> byte_in (if byte_in 0xF0 0xF0 a then 0x90 else 0x80) (if byte_in 0xF4 0xF4 a then 0x8F else 0xBF) b
                  \<and> byte_in 0x80 0xBF c \<and> byte_in 0x80 0xBF d \<and> utf8_valid s4))))"

definition unpadPKCS7 :: "string \<Rightarrow> nat \<Rightarrow> go_error + string" where
  "unpadPKCS7 plaintext blockSize =
     (if plaintext = [] \<or> length plaintext mod blockSize \<noteq> 0 then Inl (ErrNew ''invalid PKCS#7 plaintext size'')
      else
        (let padding = of_char (last plaintext)
         in if padding = 0 \<or> blockSize < padding \<or> length plaintext < padding
              then Inl (ErrNew ''invalid PKCS#7 padding'')
            else if list_ex (\<lambda>v. of_char v \<noteq> padding) (drop (length plaintext - padding) plaintext)
              then Inl (ErrNew ''invalid PKCS#7 padding'')
            else Inr (take (length plaintext - padding) plaintext)))"

section \<open>Storage\<close>

type_synonym storage = "(string \<times> string) list"

text \<open>\<open>remarshal\<close> is \<open>json.Marshal\<close> of a value that was decoded into an \<open>any\<close>.\<close>

fun string_map :: "(string \<times> string \<times> json) list \<Rightarrow> storage \<Rightarrow> storage option" where
  "string_map [] m = Some m"
| "string_map ((key, raw, JString s) # ms) m = string_map ms (AList.update key s m)"
| "string_map ((key, raw, JNull) # ms) m = string_map ms (AList.update key [] m)"
| "string_map (_ # ms) m = None"

fun any_map :: "(json \<Rightarrow> string) \<Rightarrow> (string \<times> string \<times> json) list \<Rightarrow> storage \<Rightarrow> storage" where
  "any_map remarshal [] m = m"
| "any_map remarshal ((key, raw, v) # ms) m =
     any_map remarshal ms (AList.update key (case v of JString s \<Rightarrow> s | _ \<Rightarrow> remarshal v) m)"

definition parseStorage :: "golib \<Rightarrow> (json \<Rightarrow> string) \<Rightarrow> string \<Rightarrow> go_error + storage option" where
  "parseStorage L remarshal raw =
     (let trimmed = trim_space raw
      in if trimmed = [] then Inl (ErrNew ''empty localStorage payload'')
         else case lib_json L trimmed of
           None \<Rightarrow> Inl (ErrNew ''json'')
         | Some JNull \<Rightarrow> Inr None
         | Some (JObject ms) \<Rightarrow>
             Inr (Some (case string_map ms [] of Some m \<Rightarrow> m | None \<Rightarrow> any_map remarshal ms []))
         | Some _ \<Rightarrow> Inl (ErrNew ''json''))"

definition parseMSALExpires :: "golib \<Rightarrow> string \<Rightarrow> int option" where
  "parseMSALExpires L value =
     (if value = [] then None
      else case parse_int value of
        Some unix \<Rightarrow> Some unix
      | None \<Rightarrow> map_option to_unix (lib_rfc3339 L value))"

section \<open>The cache of the Teams web client\<close>

record teamsAuthCacheItem =
  ti_Token :: string
  ti_SkypeToken :: string
  ti_EncryptedToken :: string
  ti_IV :: string
  ti_Expiration :: string
  ti_TokenExpiration :: string
  ti_ExpiresOn :: string
  ti_SkypeID :: string
  ti_UserID :: string

definition no_item :: teamsAuthCacheItem where
  "no_item = \<lparr>ti_Token = [], ti_SkypeToken = [], ti_EncryptedToken = [], ti_IV = [], ti_Expiration = [],
     ti_TokenExpiration = [], ti_ExpiresOn = [], ti_SkypeID = [], ti_UserID = []\<rparr>"

definition item_fields :: "golib \<Rightarrow> (string \<times> teamsAuthCacheItem member) list" where
  "item_fields L =
     [(''token'', put_string ti_Token_update), (''skypeToken'', put_string ti_SkypeToken_update),
      (''encryptedToken'', put_string ti_EncryptedToken_update), (''iv'', put_string ti_IV_update),
      (''expiration'', put_raw ti_Expiration_update), (''tokenExpiration'', put_raw ti_TokenExpiration_update),
      (''expiresOn'', put_raw ti_ExpiresOn_update), (''skypeid'', put_string ti_SkypeID_update),
      (''userDetails'', put_struct L [(''id'', put_string ti_UserID_update)] (\<lambda>r. r) (\<lambda>f. f))]"

text \<open>A value wrapped in the member \<open>item\<close>.\<close>

definition unmarshal_item :: "golib \<Rightarrow> string \<Rightarrow> teamsAuthCacheItem option" where
  "unmarshal_item L raw =
     Option.bind (lib_json L raw)
       (\<lambda>v. decode_struct L [(''item'', put_struct L (item_fields L) (\<lambda>r. r) (\<lambda>f. f))] v no_item)"

definition unmarshal_item_string :: "golib \<Rightarrow> string \<Rightarrow> string option" where
  "unmarshal_item_string L raw =
     Option.bind (lib_json L raw) (\<lambda>v. decode_struct L [(''item'', put_string (\<lambda>f. f))] v [])"

definition unmarshal_exported_key :: "golib \<Rightarrow> string \<Rightarrow> string option" where
  "unmarshal_exported_key L raw =
     Option.bind (lib_json L raw)
       (\<lambda>v. decode_struct L [(''item'', put_struct L [(''exportedKey'', put_string (\<lambda>f. f))] (\<lambda>r. r) (\<lambda>f. f))] v [])"

fun extractTeamsAuthEncryptionKey :: "golib \<Rightarrow> storage \<Rightarrow> string" where
  "extractTeamsAuthEncryptionKey L [] = []"
| "extractTeamsAuthEncryptionKey L ((storageKey, raw) # rest) =
     (if has_suffix (lower L storageKey) (lower L ''.ExportedEncryptionKey.ExportedEncryptionKey'')
      then (case Option.bind (unmarshal_exported_key L raw) decodeAuthBase64 of
              Some key \<Rightarrow> key
            | None \<Rightarrow> extractTeamsAuthEncryptionKey L rest)
      else extractTeamsAuthEncryptionKey L rest)"

fun extractPrimaryTeamsAuthUser :: "golib \<Rightarrow> storage \<Rightarrow> string" where
  "extractPrimaryTeamsAuthUser L [] = []"
| "extractPrimaryTeamsAuthUser L ((storageKey, raw) # rest) =
     (if has_suffix (lower L storageKey) ''.primaryuserid.primaryuserid''
      then (case unmarshal_item_string L raw of
              Some item \<Rightarrow> trim_space item
            | None \<Rightarrow> extractPrimaryTeamsAuthUser L rest)
      else extractPrimaryTeamsAuthUser L rest)"

definition teamsAuthCacheUser :: "golib \<Rightarrow> string \<Rightarrow> string" where
  "teamsAuthCacheUser L storageKey =
     (if \<not> has_prefix (lower L storageKey) ''tmp.auth.v1.'' then []
      else
        (let remainder = drop (length ''tmp.auth.v1.'') storageKey
         in case index_byte remainder (CHR ''.'') of
              Some separator \<Rightarrow> take separator remainder
            | None \<Rightarrow> []))"

definition shouldReplaceCachedToken :: "string \<Rightarrow> int \<Rightarrow> int \<Rightarrow> bool" where
  "shouldReplaceCachedToken current currentExpiry candidateExpiry \<longleftrightarrow>
     current = [] \<or> currentExpiry < candidateExpiry"

definition decryptTeamsAuthToken :: "crypto \<Rightarrow> string \<Rightarrow> string \<Rightarrow> string \<Rightarrow> go_error + string" where
  "decryptTeamsAuthToken C baseKey encryptedToken encodedIV =
     (case decodeAuthBase64 encryptedToken of
        None \<Rightarrow> Inl (ErrWrap ''decode encrypted token'' (ErrNew ''invalid base64''))
      | Some ciphertext \<Rightarrow>
        (case decodeAuthBase64 encodedIV of
           None \<Rightarrow> Inl (ErrWrap ''decode IV'' (ErrNew ''invalid base64''))
         | Some iv \<Rightarrow>
             if length baseKey \<notin> {16, 24, 32} then Inl (ErrWrap ''create AES cipher'' (ErrNew ''aes.KeySizeError''))
             else if length iv \<noteq> 16 then Inl (ErrNew ''invalid AES-CBC IV size'')
             else if ciphertext = [] \<or> length ciphertext mod 16 \<noteq> 0
               then Inl (ErrNew ''invalid AES-CBC ciphertext size'')
             else
               (case unpadPKCS7 (cr_cbc C baseKey iv ciphertext) 16 of
                  Inl err \<Rightarrow> Inl err
                | Inr plaintext \<Rightarrow>
                    if \<not> utf8_valid plaintext \<or> trim_space plaintext = []
                    then Inl (ErrNew ''decrypted Teams auth token is not valid UTF-8 text'')
                    else Inr plaintext)))"

text \<open>\<open>strings.Trim\<close> with a double quote.\<close>

definition trim_quotes :: "string \<Rightarrow> string" where
  "trim_quotes s = trim_right_char (dropWhile (\<lambda>c. c = CHR 0x22) s) (CHR 0x22)"

fun parseTeamsAuthExpiry :: "golib \<Rightarrow> string list \<Rightarrow> int" where
  "parseTeamsAuthExpiry L [] = 0"
| "parseTeamsAuthExpiry L (raw # values) =
     (let trimmed = trim_quotes (trim_space raw)
      in if trimmed = [] \<or> trimmed = ''null'' then parseTeamsAuthExpiry L values
         else case parse_int trimmed of
           Some value \<Rightarrow> if 1000000000000 < value then value div 1000 else value
         | None \<Rightarrow>
           (case parseMSALExpires L trimmed of
              Some value \<Rightarrow> value
            | None \<Rightarrow> parseTeamsAuthExpiry L values))"

fun firstNonEmptyToken :: "string list \<Rightarrow> string" where
  "firstNonEmptyToken [] = []"
| "firstNonEmptyToken (v # vs) = (if trim_space v \<noteq> [] then v else firstNonEmptyToken vs)"

text \<open>
  One entry of the storage. \<open>None\<close> if it is no entry of the cache; otherwise the error of decrypting it,
  if any, and the token it offers, if any, with its expiry and its user.
\<close>

datatype slot = SkypeSlot | GraphSlot | SpacesSlot | NoSlot

type_synonym offer = "string \<times> int \<times> string"

definition token_slot :: "golib \<Rightarrow> string \<Rightarrow> slot" where
  "token_slot L storageKey =
     (let lowerKey = lower L storageKey
      in if has_suffix lowerKey ''.discover.skype-token'' then SkypeSlot
         else if contains lowerKey ''graph.microsoft.com'' then GraphSlot
         else if contains lowerKey ''spaces.skype.com'' then SpacesSlot
         else NoSlot)"

definition teams_entry ::
  "golib \<Rightarrow> crypto \<Rightarrow> string \<Rightarrow> string \<Rightarrow> string \<Rightarrow> string \<Rightarrow> (go_error option \<times> (slot \<times> offer) option) option" where
  "teams_entry L C baseKey primaryUser storageKey raw =
     (let lowerKey = lower L storageKey;
          isSkypeToken = has_suffix lowerKey ''.discover.skype-token'';
          isToken = contains lowerKey ''.token.'';
          cacheUser = teamsAuthCacheUser L storageKey
      in if \<not> isSkypeToken \<and> \<not> isToken then None
         else if primaryUser \<noteq> [] \<and> cacheUser \<noteq> [] \<and> cacheUser \<noteq> primaryUser then None
         else case unmarshal_item L raw of
           None \<Rightarrow> None
         | Some item \<Rightarrow>
             if ti_Token item = [] \<and> ti_SkypeToken item = [] \<and> ti_EncryptedToken item = [] then None
             else
               (let plain = (if isSkypeToken then ti_SkypeToken item else ti_Token item);
                    result =
                      (if plain = [] \<and> ti_EncryptedToken item \<noteq> [] \<and> ti_IV item \<noteq> [] \<and> baseKey \<noteq> []
                       then decryptTeamsAuthToken C baseKey (ti_EncryptedToken item) (ti_IV item)
                       else Inr plain);
                    expiresAt = parseTeamsAuthExpiry L [ti_TokenExpiration item, ti_Expiration item, ti_ExpiresOn item];
                    user = firstNonEmptyToken [ti_UserID item, ti_SkypeID item]
                in case result of
                     Inl err \<Rightarrow> Some (Some err, None)
                   | Inr decrypted \<Rightarrow>
                       Some (None, if decrypted = [] then None
                                   else Some (token_slot L storageKey, decrypted, expiresAt, user))))"

definition place_token :: "slot \<Rightarrow> offer \<Rightarrow> AuthState \<Rightarrow> AuthState" where
  "place_token sl offer state =
     (case offer of (decrypted, expiresAt, user) \<Rightarrow>
        (case sl of
           SkypeSlot \<Rightarrow>
             if shouldReplaceCachedToken (as_SkypeToken state) (as_SkypeTokenExpiresAt state) expiresAt
             then state\<lparr>as_SkypeToken := decrypted, as_SkypeTokenExpiresAt := expiresAt, as_TeamsUserID := user\<rparr>
             else state
         | GraphSlot \<Rightarrow>
             if shouldReplaceCachedToken (as_GraphAccessToken state) (as_GraphExpiresAt state) expiresAt
             then state\<lparr>as_GraphAccessToken := decrypted, as_GraphExpiresAt := expiresAt\<rparr>
             else state
         | SpacesSlot \<Rightarrow>
             if shouldReplaceCachedToken (as_AccessToken state) (as_ExpiresAtUnix state) expiresAt
             then state\<lparr>as_AccessToken := decrypted, as_ExpiresAtUnix := expiresAt\<rparr>
             else state
         | NoSlot \<Rightarrow> state))"

definition teams_step ::
  "golib \<Rightarrow> crypto \<Rightarrow> string \<Rightarrow> string \<Rightarrow> string \<times> string \<Rightarrow> AuthState \<times> bool \<times> go_error option
     \<Rightarrow> AuthState \<times> bool \<times> go_error option" where
  "teams_step L C baseKey primaryUser entry acc =
     (case acc of (state, found, decryptErr) \<Rightarrow>
        (case teams_entry L C baseKey primaryUser (fst entry) (snd entry) of
           None \<Rightarrow> acc
         | Some (err, offered) \<Rightarrow>
             (case offered of None \<Rightarrow> state | Some (sl, offer) \<Rightarrow> place_token sl offer state,
              True, case err of None \<Rightarrow> decryptErr | Some e \<Rightarrow> Some e)))"

definition extractTeamsAuthTokens ::
  "golib \<Rightarrow> crypto \<Rightarrow> (nat \<Rightarrow> storage \<Rightarrow> storage) \<Rightarrow> storage \<Rightarrow> go_error + AuthState" where
  "extractTeamsAuthTokens L C ord storage =
     (let baseKey = extractTeamsAuthEncryptionKey L (ord 0 storage);
          primaryUser = extractPrimaryTeamsAuthUser L (ord 1 storage);
          (state, found, decryptErr) =
            fold (teams_step L C baseKey primaryUser) (ord 2 storage) (no_auth, False, None)
      in if as_SkypeToken state = [] \<and> as_AccessToken state = [] \<and> as_GraphAccessToken state = []
         then if found \<and> baseKey = []
                then Inl (ErrNew ''teams auth entries are encrypted but no exported encryption key was found'')
              else case decryptErr of
                Some e \<Rightarrow> if found then Inl (ErrWrap ''failed to decrypt Teams auth cache entries'' e)
                          else Inl (ErrNew ''teams auth cache entries not found'')
              | None \<Rightarrow> Inl (ErrNew ''teams auth cache entries not found'')
         else Inr state)"

section \<open>The MSAL cache\<close>

record msalTokenKeys =
  mk_RefreshToken :: "string list"
  mk_IDToken :: "string list"
  mk_AccessToken :: "string list"

record msalTokenEntry =
  me_Secret :: string
  me_ExpiresOn :: string
  me_Target :: string

record msalCacheEncryptionKey =
  ek_ID :: string
  ek_Key :: string

record msalEncryptedEnvelope =
  en_ID :: string
  en_Nonce :: string
  en_Data :: string

definition unmarshal_keys :: "golib \<Rightarrow> string \<Rightarrow> msalTokenKeys option" where
  "unmarshal_keys L raw =
     Option.bind (lib_json L raw) (\<lambda>v. decode_struct L
       [(''refreshToken'', put_list (decode_string []) mk_RefreshToken_update),
        (''idToken'', put_list (decode_string []) mk_IDToken_update),
        (''accessToken'', put_list (decode_string []) mk_AccessToken_update)] v
       \<lparr>mk_RefreshToken = [], mk_IDToken = [], mk_AccessToken = []\<rparr>)"

definition unmarshal_entry :: "golib \<Rightarrow> string \<Rightarrow> msalTokenEntry option" where
  "unmarshal_entry L raw =
     Option.bind (lib_json L raw) (\<lambda>v. decode_struct L
       [(''secret'', put_string me_Secret_update), (''expiresOn'', put_string me_ExpiresOn_update),
        (''target'', put_string me_Target_update)] v
       \<lparr>me_Secret = [], me_ExpiresOn = [], me_Target = []\<rparr>)"

definition unmarshal_envelope :: "golib \<Rightarrow> string \<Rightarrow> msalEncryptedEnvelope option" where
  "unmarshal_envelope L raw =
     Option.bind (lib_json L raw) (\<lambda>v. decode_struct L
       [(''id'', put_string en_ID_update), (''nonce'', put_string en_Nonce_update),
        (''data'', put_string en_Data_update)] v
       \<lparr>en_ID = [], en_Nonce = [], en_Data = []\<rparr>)"

definition extractMSALEncryptionKey :: "golib \<Rightarrow> storage \<Rightarrow> msalCacheEncryptionKey option" where
  "extractMSALEncryptionKey L storage =
     (let raw = trim_space (case map_of storage ''__mautrix_teams_msal_cache_encryption'' of Some v \<Rightarrow> v | None \<Rightarrow> [])
      in if raw = [] then None
         else case Option.bind (lib_json L raw) (\<lambda>v. decode_struct L
                [(''id'', put_string ek_ID_update), (''key'', put_string ek_Key_update)] v
                \<lparr>ek_ID = [], ek_Key = []\<rparr>) of
           None \<Rightarrow> None
         | Some cookie \<Rightarrow>
             if ek_Key cookie = [] then None
             else map_option (\<lambda>key. \<lparr>ek_ID = ek_ID cookie, ek_Key = key\<rparr>) (decodeAuthBase64 (ek_Key cookie)))"

definition decryptMSALEntryValue ::
  "golib \<Rightarrow> crypto \<Rightarrow> msalCacheEncryptionKey option \<Rightarrow> string \<Rightarrow> string \<Rightarrow> string \<Rightarrow> go_error + string" where
  "decryptMSALEntryValue L C cacheKey storageKey clientID rawValue =
     (case unmarshal_envelope L rawValue of
        None \<Rightarrow> Inr rawValue
      | Some envelope \<Rightarrow>
          if en_Data envelope = [] \<or> en_Nonce envelope = [] then Inr rawValue
          else case cacheKey of
            None \<Rightarrow> Inl (ErrNew ''entry is encrypted but the MSAL encryption cookie was not captured'')
          | Some ck \<Rightarrow>
              if ek_Key ck = []
                then Inl (ErrNew ''entry is encrypted but the MSAL encryption cookie was not captured'')
              else if en_ID envelope \<noteq> [] \<and> ek_ID ck \<noteq> [] \<and> en_ID envelope \<noteq> ek_ID ck
                then Inl (ErrNew ''entry was encrypted with a different MSAL session key'')
              else case decodeAuthBase64 (en_Nonce envelope) of
                None \<Rightarrow> Inl (ErrWrap ''decode nonce'' (ErrNew ''invalid base64''))
              | Some nonce \<Rightarrow>
                (case decodeAuthBase64 (en_Data envelope) of
                   None \<Rightarrow> Inl (ErrWrap ''decode data'' (ErrNew ''invalid base64''))
                 | Some ciphertext \<Rightarrow>
                   (case cr_hkdf C (ek_Key ck) nonce
                           (if clientID \<noteq> [] \<and> contains storageKey clientID then clientID else []) of
                      Inl err \<Rightarrow> Inl (ErrWrap ''derive key'' err)
                    | Inr derivedKey \<Rightarrow>
                      (case cr_gcm C derivedKey ciphertext of
                         Inl err \<Rightarrow> Inl (ErrWrap ''decrypt AES-GCM entry'' err)
                       | Inr plaintext \<Rightarrow> Inr plaintext))))"

definition readMSALEntry ::
  "golib \<Rightarrow> crypto \<Rightarrow> storage \<Rightarrow> string \<Rightarrow> string \<Rightarrow> msalCacheEncryptionKey option \<Rightarrow> go_error + msalTokenEntry" where
  "readMSALEntry L C storage storageKey clientID cacheKey =
     (case map_of storage storageKey of
        None \<Rightarrow> Inl (ErrNew ''not found in localStorage'')
      | Some raw \<Rightarrow>
        (case decryptMSALEntryValue L C cacheKey storageKey clientID raw of
           Inl err \<Rightarrow> Inl err
         | Inr plain \<Rightarrow>
           (case unmarshal_entry L plain of
              None \<Rightarrow> Inl (ErrNew ''json'')
            | Some entry \<Rightarrow> Inr entry)))"

definition matchesMBITarget :: "golib \<Rightarrow> string \<Rightarrow> bool" where
  "matchesMBITarget L target \<longleftrightarrow> target \<noteq> [] \<and> contains (lower L target) mbiAccessTokenMarker"

definition matchesGraphTarget :: "golib \<Rightarrow> string \<Rightarrow> bool" where
  "matchesGraphTarget L target \<longleftrightarrow> target \<noteq> [] \<and> contains (lower L target) ''graph.microsoft.com''"

text \<open>The loop that the two selections share, for the predicate on the target.\<close>

definition select_step ::
  "golib \<Rightarrow> (string \<Rightarrow> go_error + msalTokenEntry) \<Rightarrow> (string \<Rightarrow> bool) \<Rightarrow> string \<Rightarrow> string \<times> int \<Rightarrow> string \<times> int" where
  "select_step L read matches key best =
     (case read key of
        Inl err \<Rightarrow> best
      | Inr entry \<Rightarrow>
          if me_Secret entry = [] \<or> \<not> matches (me_Target entry) then best
          else
            (let expiry = (case parseMSALExpires L (me_ExpiresOn entry) of Some e \<Rightarrow> e | None \<Rightarrow> 0)
             in if fst best = [] \<or> snd best < expiry then (me_Secret entry, expiry) else best))"

definition selectMBIAccessToken ::
  "golib \<Rightarrow> crypto \<Rightarrow> storage \<Rightarrow> string list \<Rightarrow> string \<Rightarrow> msalCacheEncryptionKey option \<Rightarrow> string \<times> int" where
  "selectMBIAccessToken L C storage keys clientID cacheKey =
     fold (select_step L (\<lambda>key. readMSALEntry L C storage key clientID cacheKey) (matchesMBITarget L)) keys ([], 0)"

definition selectGraphAccessToken ::
  "golib \<Rightarrow> crypto \<Rightarrow> storage \<Rightarrow> string list \<Rightarrow> string \<Rightarrow> msalCacheEncryptionKey option \<Rightarrow> string \<times> int" where
  "selectGraphAccessToken L C storage keys clientID cacheKey =
     fold (select_step L (\<lambda>key. readMSALEntry L C storage key clientID cacheKey) (matchesGraphTarget L)) keys ([], 0)"

definition findMSALKeys :: "(nat \<Rightarrow> storage \<Rightarrow> storage) \<Rightarrow> storage option \<Rightarrow> string \<Rightarrow> go_error + string" where
  "findMSALKeys ord storage clientID =
     (case storage of
        None \<Rightarrow> Inl (ErrNew ''localStorage is empty'')
      | Some m \<Rightarrow>
        (case (if clientID \<noteq> [] then map_of m (''msal.token.keys.'' @ clientID) else None) of
           Some val \<Rightarrow> Inr val
         | None \<Rightarrow>
           (case find (\<lambda>(key, _). has_prefix key ''msal.token.keys.'') (ord 3 m) of
              Some (_, val) \<Rightarrow> Inr val
            | None \<Rightarrow>
              (case find (\<lambda>(key, _). has_prefix key ''msal.'' \<and> contains key ''.token.keys.'') (ord 4 m) of
                 Some (_, val) \<Rightarrow> Inr val
               | None \<Rightarrow> Inl (ErrNew ''msal token keys entry not found'')))))"

definition resolveMSALClientID :: "storage \<Rightarrow> string \<Rightarrow> string" where
  "resolveMSALClientID storage clientID =
     (if trim_space clientID \<noteq> [] then clientID
      else case find (\<lambda>(key, _). index_sub key ''.token.keys.'' \<noteq> None) storage of
        Some (key, _) \<Rightarrow>
          (case index_sub key ''.token.keys.'' of
             Some i \<Rightarrow> drop (i + length ''.token.keys.'') key | None \<Rightarrow> [])
      | None \<Rightarrow> [])"

text \<open>The entries of a map; a nil map has none.\<close>

definition entries :: "storage option \<Rightarrow> storage" where
  "entries storage = (case storage of None \<Rightarrow> [] | Some m \<Rightarrow> m)"

definition extractMSALTokens ::
  "golib \<Rightarrow> crypto \<Rightarrow> (nat \<Rightarrow> storage \<Rightarrow> storage) \<Rightarrow> storage option \<Rightarrow> string \<Rightarrow> go_error + AuthState" where
  "extractMSALTokens L C ord storage clientID =
     (let m = entries storage;
          cacheKey = extractMSALEncryptionKey L m
      in case findMSALKeys ord storage clientID of
           Inl err \<Rightarrow> Inl err
         | Inr keysEntry \<Rightarrow>
           (case unmarshal_keys L keysEntry of
              None \<Rightarrow> Inl (ErrNew ''json'')
            | Some keys \<Rightarrow>
              (case mk_RefreshToken keys of
                 [] \<Rightarrow> Inl (ErrNew ''no refresh token keys in msal token keys'')
               | refreshKey # _ \<Rightarrow>
                 (case readMSALEntry L C m refreshKey clientID cacheKey of
                    Inl err \<Rightarrow> Inl (ErrWrap ''refresh token entry'' err)
                  | Inr refresh \<Rightarrow>
                      if me_Secret refresh = [] then Inl (ErrNew ''refresh token secret missing'')
                      else
                        (let state = no_auth\<lparr>as_RefreshToken := me_Secret refresh,
                               as_ExpiresAtUnix := (case parseMSALExpires L (me_ExpiresOn refresh) of
                                                      Some e \<Rightarrow> e | None \<Rightarrow> 0)\<rparr>;
                             (accessToken, expiresAt) = selectMBIAccessToken L C m (mk_AccessToken keys) clientID cacheKey;
                             state = (if accessToken = [] then state
                                      else state\<lparr>as_AccessToken := accessToken,
                                             as_ExpiresAtUnix := (if expiresAt \<noteq> 0 then expiresAt
                                                                  else as_ExpiresAtUnix state)\<rparr>);
                             (graphToken, graphExpiresAt) =
                               selectGraphAccessToken L C m (mk_AccessToken keys) clientID cacheKey;
                             state = (if graphToken = [] then state
                                      else state\<lparr>as_GraphAccessToken := graphToken,
                                             as_GraphExpiresAt := graphExpiresAt\<rparr>)
                         in Inr (case mk_IDToken keys of
                                   [] \<Rightarrow> state
                                 | idKey # _ \<Rightarrow>
                                   (case readMSALEntry L C m idKey clientID cacheKey of
                                      Inl err \<Rightarrow> state
                                    | Inr idToken \<Rightarrow> state\<lparr>as_IDToken := me_Secret idToken\<rparr>)))))))"

section \<open>Both caches\<close>

text \<open>The joined errors of the two extractions are left out of the final one.\<close>

definition mergeAuthState :: "AuthState \<Rightarrow> AuthState \<Rightarrow> AuthState" where
  "mergeAuthState d s =
     (let d = (if as_AccessToken d = []
               then d\<lparr>as_AccessToken := as_AccessToken s, as_ExpiresAtUnix := as_ExpiresAtUnix s\<rparr> else d);
          d = (if as_RefreshToken d = [] then d\<lparr>as_RefreshToken := as_RefreshToken s\<rparr> else d);
          d = (if as_IDToken d = [] then d\<lparr>as_IDToken := as_IDToken s\<rparr> else d);
          d = (if as_SkypeToken d = []
               then d\<lparr>as_SkypeToken := as_SkypeToken s, as_SkypeTokenExpiresAt := as_SkypeTokenExpiresAt s\<rparr> else d);
          d = (if as_GraphAccessToken d = []
               then d\<lparr>as_GraphAccessToken := as_GraphAccessToken s, as_GraphExpiresAt := as_GraphExpiresAt s\<rparr> else d)
      in if as_TeamsUserID d = [] then d\<lparr>as_TeamsUserID := as_TeamsUserID s\<rparr> else d)"

definition ExtractTokensFromMSALLocalStorage ::
  "golib \<Rightarrow> crypto \<Rightarrow> (json \<Rightarrow> string) \<Rightarrow> (nat \<Rightarrow> storage \<Rightarrow> storage) \<Rightarrow> string \<Rightarrow> string
     \<Rightarrow> go_error + AuthState" where
  "ExtractTokensFromMSALLocalStorage L C remarshal ord raw clientID =
     (case parseStorage L remarshal raw of
        Inl err \<Rightarrow> Inl err
      | Inr storage \<Rightarrow>
        (let clientID = resolveMSALClientID (ord 5 (entries storage)) clientID;
             state = no_auth;
             state = (case extractMSALTokens L C ord storage clientID of
                        Inr msalState \<Rightarrow> mergeAuthState state msalState | Inl _ \<Rightarrow> state);
             state = (case extractTeamsAuthTokens L C ord (entries storage) of
                        Inr teamsState \<Rightarrow> mergeAuthState state teamsState | Inl _ \<Rightarrow> state)
         in if as_RefreshToken state = [] \<and> as_AccessToken state = [] \<and> as_SkypeToken state = []
            then Inl (ErrNew ''no usable Teams authentication tokens found'')
            else Inr state))"

section \<open>The capture handler\<close>

text \<open>
  One request to \<open>/capture\<close>: its method and its body, or the error of reading it, answered with a status.
  The state that \<open>WaitForState\<close> will receive is written at most once.
\<close>

definition handleCapture ::
  "golib \<Rightarrow> crypto \<Rightarrow> (json \<Rightarrow> string) \<Rightarrow> (nat \<Rightarrow> storage \<Rightarrow> storage) \<Rightarrow> string \<Rightarrow> string \<times> string option
     \<Rightarrow> AuthState option \<Rightarrow> nat \<times> AuthState option" where
  "handleCapture L C remarshal ord clientID request captured =
     (if fst request \<noteq> ''POST'' then (405, captured)
      else case snd request of
        None \<Rightarrow> (400, captured)
      | Some body \<Rightarrow>
        (case Option.bind (lib_json L body) (\<lambda>v. decode_struct L [(''storage'', put_string (\<lambda>f. f))] v []) of
           None \<Rightarrow> (400, captured)
         | Some storage \<Rightarrow>
             if storage = [] then (400, captured)
             else case ExtractTokensFromMSALLocalStorage L C remarshal ord storage clientID of
               Inl err \<Rightarrow> (400, captured)
             | Inr state \<Rightarrow> (200, case captured of None \<Rightarrow> Some state | Some s \<Rightarrow> Some s)))"

section \<open>The best of the tokens on offer\<close>

text \<open>
  Five slots are filled by the same kind of loop: a token replaces the one kept if there is none yet or if
  it expires later. \<open>best_of P r\<close> says that \<open>r\<close> is an offer that no other outlasts.
\<close>

definition best_of :: "(string \<times> int \<times> 'u) set \<Rightarrow> string \<times> int \<times> 'u \<Rightarrow> bool" where
  "best_of P r \<longleftrightarrow> (if P = {} then fst r = [] else r \<in> P \<and> (\<forall>(t, x, u) \<in> P. x \<le> fst (snd r)))"

locale best_token =
  fixes get :: "'s \<Rightarrow> string \<times> int \<times> 'u"
    and step :: "'e \<Rightarrow> 's \<Rightarrow> 's"
    and offer :: "'e \<Rightarrow> (string \<times> int \<times> 'u) option"
  assumes keep: "offer e = None \<Longrightarrow> get (step e s) = get s"
    and nonempty: "offer e = Some r \<Longrightarrow> fst r \<noteq> []"
    and pick: "offer e = Some r \<Longrightarrow>
      get (step e s) = (if fst (get s) = [] \<or> fst (snd (get s)) < fst (snd r) then r else get s)"
begin

lemma step_best:
  assumes "best_of P (get s)" and "\<forall>r \<in> P. fst r \<noteq> []"
  shows "best_of (P \<union> set_option (offer e)) (get (step e s))"
proof (cases "offer e")
  case None
  with assms keep show ?thesis by simp
next
  case (Some r)
  show ?thesis
  proof (cases "P = {}")
    case True
    with assms pick [OF Some, of s] Some show ?thesis by (auto simp: best_of_def)
  next
    case False
    with assms(1) have in_P: "get s \<in> P" and le: "\<forall>(t, x, u) \<in> P. x \<le> fst (snd (get s))"
      by (auto simp: best_of_def)
    with assms(2) have "fst (get s) \<noteq> []" by blast
    with pick [OF Some, of s] Some in_P le show ?thesis by (force simp: best_of_def)
  qed
qed

lemma fold_best:
  assumes "best_of P (get s)" and "\<forall>r \<in> P. fst r \<noteq> []"
  shows "best_of (P \<union> {r. \<exists>e \<in> set es. offer e = Some r}) (get (fold step es s))"
  using assms
proof (induction es arbitrary: s P)
  case (Cons e es)
  have "\<forall>r \<in> P \<union> set_option (offer e). fst r \<noteq> []" using Cons.prems(2) nonempty by auto
  from Cons.IH [OF step_best [OF Cons.prems] this] have
    "best_of (P \<union> set_option (offer e) \<union> {r. \<exists>e' \<in> set es. offer e' = Some r}) (get (fold step es (step e s)))" .
  moreover have "P \<union> set_option (offer e) \<union> {r. \<exists>e' \<in> set es. offer e' = Some r}
      = P \<union> {r. \<exists>e' \<in> set (e # es). offer e' = Some r}" by auto
  ultimately show ?case by simp
qed simp

lemma fold_best_empty:
  "fst (get s) = [] \<Longrightarrow> best_of {r. \<exists>e \<in> set es. offer e = Some r} (get (fold step es s))"
  using fold_best [of "{}" s es] by (simp add: best_of_def)

end

text \<open>What a key of the MSAL cache offers.\<close>

definition msal_offer ::
  "golib \<Rightarrow> (string \<Rightarrow> go_error + msalTokenEntry) \<Rightarrow> (string \<Rightarrow> bool) \<Rightarrow> string \<Rightarrow> (string \<times> int \<times> unit) option" where
  "msal_offer L read matches key =
     (case read key of
        Inl err \<Rightarrow> None
      | Inr entry \<Rightarrow>
          if me_Secret entry \<noteq> [] \<and> matches (me_Target entry)
          then Some (me_Secret entry, case parseMSALExpires L (me_ExpiresOn entry) of Some e \<Rightarrow> e | None \<Rightarrow> 0, ())
          else None)"

interpretation msal: best_token "\<lambda>(t, x). (t, x, ())" "select_step L read matches" "msal_offer L read matches"
  for L read matches
  by unfold_locales
    (auto simp: select_step_def msal_offer_def Let_def split: sum.splits if_splits prod.splits)

text \<open>What an entry of the storage offers for a slot.\<close>

definition teams_offered ::
  "golib \<Rightarrow> crypto \<Rightarrow> string \<Rightarrow> string \<Rightarrow> string \<times> string \<Rightarrow> (slot \<times> offer) option" where
  "teams_offered L C baseKey primaryUser entry =
     (case teams_entry L C baseKey primaryUser (fst entry) (snd entry) of None \<Rightarrow> None | Some (err, o') \<Rightarrow> o')"

definition teams_offer ::
  "golib \<Rightarrow> crypto \<Rightarrow> string \<Rightarrow> string \<Rightarrow> slot \<Rightarrow> string \<times> string \<Rightarrow> offer option" where
  "teams_offer L C baseKey primaryUser sl entry =
     (case teams_offered L C baseKey primaryUser entry of
        Some (sl', offer) \<Rightarrow> if sl' = sl then Some offer else None | None \<Rightarrow> None)"

lemma teams_offered_nonempty: "teams_offered L C k u e = Some (sl, offer) \<Longrightarrow> fst offer \<noteq> []"
  by (auto simp: teams_offered_def teams_entry_def Let_def
      simp del: parseTeamsAuthExpiry.simps firstNonEmptyToken.simps split: if_split_asm option.split_asm sum.split_asm)

lemma teams_step_state: "fst (teams_step L C k u e acc) =
    (case teams_offered L C k u e of None \<Rightarrow> fst acc | Some (sl, offer) \<Rightarrow> place_token sl offer (fst acc))"
  by (simp add: teams_step_def teams_offered_def split: option.split prod.split)

definition skype_slot :: "AuthState \<times> bool \<times> go_error option \<Rightarrow> offer" where
  "skype_slot acc = (as_SkypeToken (fst acc), as_SkypeTokenExpiresAt (fst acc), as_TeamsUserID (fst acc))"

definition graph_slot :: "AuthState \<times> bool \<times> go_error option \<Rightarrow> string \<times> int \<times> unit" where
  "graph_slot acc = (as_GraphAccessToken (fst acc), as_GraphExpiresAt (fst acc), ())"

definition spaces_slot :: "AuthState \<times> bool \<times> go_error option \<Rightarrow> string \<times> int \<times> unit" where
  "spaces_slot acc = (as_AccessToken (fst acc), as_ExpiresAtUnix (fst acc), ())"

definition anonymous :: "offer \<Rightarrow> string \<times> int \<times> unit" where
  "anonymous offer = (fst offer, fst (snd offer), ())"

lemmas slot_defs = skype_slot_def graph_slot_def spaces_slot_def anonymous_def
  place_token_def shouldReplaceCachedToken_def teams_step_state

lemma teams_offer_cases:
  "teams_offer L C k u sl e = None \<Longrightarrow> teams_offered L C k u e = None
     \<or> (\<exists>sl' r. teams_offered L C k u e = Some (sl', r) \<and> sl' \<noteq> sl)"
  "teams_offer L C k u sl e = Some r \<Longrightarrow> teams_offered L C k u e = Some (sl, r)"
  by (auto simp: teams_offer_def split: option.splits if_splits)

lemma place_token_other:
  "sl \<noteq> SkypeSlot \<Longrightarrow> as_SkypeToken (place_token sl r st) = as_SkypeToken st
     \<and> as_SkypeTokenExpiresAt (place_token sl r st) = as_SkypeTokenExpiresAt st
     \<and> as_TeamsUserID (place_token sl r st) = as_TeamsUserID st"
  "sl \<noteq> GraphSlot \<Longrightarrow> as_GraphAccessToken (place_token sl r st) = as_GraphAccessToken st
     \<and> as_GraphExpiresAt (place_token sl r st) = as_GraphExpiresAt st"
  "sl \<noteq> SpacesSlot \<Longrightarrow> as_AccessToken (place_token sl r st) = as_AccessToken st
     \<and> as_ExpiresAtUnix (place_token sl r st) = as_ExpiresAtUnix st"
  by (cases sl; cases r; simp add: place_token_def)+

lemma teams_step_other:
  "teams_offer L C k u sl e = None \<Longrightarrow> fst (teams_step L C k u e s) = fst s
     \<or> (\<exists>sl' r. sl' \<noteq> sl \<and> fst (teams_step L C k u e s) = place_token sl' r (fst s))"
proof -
  assume "teams_offer L C k u sl e = None"
  from teams_offer_cases(1) [OF this] show ?thesis
  proof (elim disjE exE conjE)
    fix sl' r
    assume o: "teams_offered L C k u e = Some (sl', r)" and "sl' \<noteq> sl"
    moreover have "fst (teams_step L C k u e s) = place_token sl' r (fst s)"
      by (simp add: teams_step_state o)
    ultimately show ?thesis by blast
  qed (simp add: teams_step_state)
qed

interpretation skype: best_token skype_slot "teams_step L C k u" "teams_offer L C k u SkypeSlot" for L C k u
proof
  fix e s r
  show "teams_offer L C k u SkypeSlot e = None \<Longrightarrow> skype_slot (teams_step L C k u e s) = skype_slot s"
    by (drule teams_step_other [where s = s]) (auto simp: skype_slot_def place_token_other)
  assume "teams_offer L C k u SkypeSlot e = Some r"
  note o = teams_offer_cases(2) [OF this]
  show "fst r \<noteq> []" by (rule teams_offered_nonempty [OF o])
  show "skype_slot (teams_step L C k u e s)
    = (if fst (skype_slot s) = [] \<or> fst (snd (skype_slot s)) < fst (snd r) then r else skype_slot s)"
    using o by (cases r) (simp add: slot_defs)
qed

interpretation graph: best_token graph_slot "teams_step L C k u" "map_option anonymous \<circ> teams_offer L C k u GraphSlot"
  for L C k u
proof
  fix e s r
  show "(map_option anonymous \<circ> teams_offer L C k u GraphSlot) e = None \<Longrightarrow>
      graph_slot (teams_step L C k u e s) = graph_slot s"
    using teams_step_other [of L C k u GraphSlot e s] by (auto simp: graph_slot_def place_token_other)
  assume "(map_option anonymous \<circ> teams_offer L C k u GraphSlot) e = Some r"
  then obtain q where o: "teams_offered L C k u e = Some (GraphSlot, q)" and r: "r = anonymous q"
    using teams_offer_cases(2) by fastforce
  show "fst r \<noteq> []" using teams_offered_nonempty [OF o] by (simp add: r anonymous_def)
  show "graph_slot (teams_step L C k u e s)
    = (if fst (graph_slot s) = [] \<or> fst (snd (graph_slot s)) < fst (snd r) then r else graph_slot s)"
    using o r by (cases q) (simp add: slot_defs)
qed

interpretation spaces: best_token spaces_slot "teams_step L C k u" "map_option anonymous \<circ> teams_offer L C k u SpacesSlot"
  for L C k u
proof
  fix e s r
  show "(map_option anonymous \<circ> teams_offer L C k u SpacesSlot) e = None \<Longrightarrow>
      spaces_slot (teams_step L C k u e s) = spaces_slot s"
    using teams_step_other [of L C k u SpacesSlot e s] by (auto simp: spaces_slot_def place_token_other)
  assume "(map_option anonymous \<circ> teams_offer L C k u SpacesSlot) e = Some r"
  then obtain q where o: "teams_offered L C k u e = Some (SpacesSlot, q)" and r: "r = anonymous q"
    using teams_offer_cases(2) by fastforce
  show "fst r \<noteq> []" using teams_offered_nonempty [OF o] by (simp add: r anonymous_def)
  show "spaces_slot (teams_step L C k u e s)
    = (if fst (spaces_slot s) = [] \<or> fst (snd (spaces_slot s)) < fst (snd r) then r else spaces_slot s)"
    using o r by (cases q) (simp add: slot_defs)
qed

section \<open>Properties\<close>

text \<open>
  Removing the padding is the inverse of PKCS#7 padding, and accepts nothing else. It returns \<open>q\<close> exactly
  if the text is \<open>q\<close> followed by 1 to \<open>n\<close> bytes that hold their own number, and of a length divisible by
  the block size \<open>n\<close>.
\<close>

theorem unpadPKCS7_iff:
  assumes "n < 256"
  shows "unpadPKCS7 p n = Inr q \<longleftrightarrow>
    length p mod n = 0 \<and> (\<exists>k. 0 < k \<and> k \<le> n \<and> p = q @ replicate k (char_of k))"
proof
  assume u: "unpadPKCS7 p n = Inr q"
  define k :: nat where "k = of_char (last p)"
  from u have p: "p \<noteq> []" "length p mod n = 0" "0 < k" "k \<le> n" "k \<le> length p"
    and same: "\<forall>v \<in> set (drop (length p - k) p). of_char v = k" and q: "q = take (length p - k) p"
    by (auto simp: unpadPKCS7_def k_def Let_def list_ex_iff split: if_splits)
  have "\<forall>v \<in> set (drop (length p - k) p). v = char_of k" using same by auto
  then have "drop (length p - k) p = replicate k (char_of k)"
    using p(5) by (intro replicate_eqI) auto
  with q have "p = q @ replicate k (char_of k)" by (metis append_take_drop_id)
  with p show "length p mod n = 0 \<and> (\<exists>k. 0 < k \<and> k \<le> n \<and> p = q @ replicate k (char_of k))" by blast
next
  assume "length p mod n = 0 \<and> (\<exists>k. 0 < k \<and> k \<le> n \<and> p = q @ replicate k (char_of k))"
  then obtain k where k: "length p mod n = 0" "0 < k" "k \<le> n" "p = q @ replicate k (char_of k)" by auto
  with assms have "of_char (char_of k :: char) = k" by simp
  moreover from k have "last p = char_of k" "p \<noteq> []" by (auto simp: last_replicate)
  ultimately show "unpadPKCS7 p n = Inr q"
    using k by (auto simp: unpadPKCS7_def Let_def list_ex_iff)
qed

theorem unpadPKCS7_iff_witness:
  "unpadPKCS7 (''token'' @ replicate 11 (char_of (11 :: nat))) 16 = Inr ''token''"
proof -
  have "length (''token'' @ replicate 11 (char_of (11 :: nat))) mod 16 = (0 :: nat)" by simp
  moreover have "\<exists>k. 0 < k \<and> k \<le> 16 \<and> ''token'' @ replicate 11 (char_of (11 :: nat)) = ''token'' @ replicate k (char_of k)"
    by (intro exI [of _ 11]) simp
  ultimately show ?thesis by (intro unpadPKCS7_iff [THEN iffD2] conjI) (simp, assumption+)
qed

text \<open>The offers of a whole storage, with the key and the user found in it.\<close>

definition storage_offers ::
  "golib \<Rightarrow> crypto \<Rightarrow> (nat \<Rightarrow> storage \<Rightarrow> storage) \<Rightarrow> storage \<Rightarrow> slot \<Rightarrow> offer set" where
  "storage_offers L C ord storage sl =
     {r. \<exists>entry \<in> set storage. teams_offer L C (extractTeamsAuthEncryptionKey L (ord 0 storage))
           (extractPrimaryTeamsAuthUser L (ord 1 storage)) sl entry = Some r}"

lemma map_offers: "{r. \<exists>e \<in> S. (map_option f \<circ> g) e = Some r} = f ` {r. \<exists>e \<in> S. g e = Some r}"
  by auto

lemma extracted_teams:
  assumes "set (ord 2 storage) = set storage"
  shows "case extractTeamsAuthTokens L C ord storage of
      Inr st \<Rightarrow> best_of (storage_offers L C ord storage SkypeSlot)
          (as_SkypeToken st, as_SkypeTokenExpiresAt st, as_TeamsUserID st)
        \<and> best_of (anonymous ` storage_offers L C ord storage GraphSlot) (as_GraphAccessToken st, as_GraphExpiresAt st, ())
        \<and> best_of (anonymous ` storage_offers L C ord storage SpacesSlot) (as_AccessToken st, as_ExpiresAtUnix st, ())
        \<and> as_RefreshToken st = []
    | Inl _ \<Rightarrow> storage_offers L C ord storage SkypeSlot = {}"
proof -
  let ?k = "extractTeamsAuthEncryptionKey L (ord 0 storage)"
  let ?u = "extractPrimaryTeamsAuthUser L (ord 1 storage)"
  obtain st found err where run: "fold (teams_step L C ?k ?u) (ord 2 storage) (no_auth, False, None) = (st, found, err)"
    by (metis prod.exhaust)
  have offers: "{r. \<exists>e \<in> set (ord 2 storage). teams_offer L C ?k ?u sl e = Some r} = storage_offers L C ord storage sl" for sl
    by (simp add: storage_offers_def assms)
  have anon: "{r. \<exists>e \<in> set (ord 2 storage). (map_option anonymous \<circ> teams_offer L C ?k ?u sl) e = Some r}
      = anonymous ` storage_offers L C ord storage sl" for sl
    unfolding map_offers by (simp add: storage_offers_def assms)
  have start: "fst (skype_slot (no_auth, False, None)) = []" "fst (graph_slot (no_auth, False, None)) = []"
    "fst (spaces_slot (no_auth, False, None)) = []" by (simp_all add: slot_defs no_auth_def)
  have s: "best_of (storage_offers L C ord storage SkypeSlot) (as_SkypeToken st, as_SkypeTokenExpiresAt st, as_TeamsUserID st)"
    using skype.fold_best_empty [OF start(1), of "ord 2 storage" L C ?k ?u]
    unfolding run offers skype_slot_def by simp
  have g: "best_of (anonymous ` storage_offers L C ord storage GraphSlot) (as_GraphAccessToken st, as_GraphExpiresAt st, ())"
    using graph.fold_best_empty [OF start(2), of "ord 2 storage" L C ?k ?u]
    unfolding run anon graph_slot_def by simp
  have a: "best_of (anonymous ` storage_offers L C ord storage SpacesSlot) (as_AccessToken st, as_ExpiresAtUnix st, ())"
    using spaces.fold_best_empty [OF start(3), of "ord 2 storage" L C ?k ?u]
    unfolding run anon spaces_slot_def by simp
  have r: "as_RefreshToken st = []"
  proof -
    have "as_RefreshToken (fst (fold (teams_step L C ?k ?u) es acc)) = as_RefreshToken (fst acc)" for es acc
      by (induction es arbitrary: acc)
        (auto simp: teams_step_state place_token_def split: option.split slot.split prod.split)
    from this [of "ord 2 storage" "(no_auth, False, None)"] run show ?thesis by (simp add: no_auth_def)
  qed
  have "as_SkypeToken st = [] \<Longrightarrow> storage_offers L C ord storage SkypeSlot = {}"
  proof (rule ccontr)
    assume e: "as_SkypeToken st = []" "storage_offers L C ord storage SkypeSlot \<noteq> {}"
    with s have "([], as_SkypeTokenExpiresAt st, as_TeamsUserID st) \<in> storage_offers L C ord storage SkypeSlot"
      by (simp add: best_of_def)
    then obtain entry where "teams_offer L C ?k ?u SkypeSlot entry = Some ([], as_SkypeTokenExpiresAt st, as_TeamsUserID st)"
      unfolding storage_offers_def by blast
    from teams_offered_nonempty [OF teams_offer_cases(2) [OF this]] show False by simp
  qed
  moreover have "extractTeamsAuthTokens L C ord storage = Inr st
      \<or> as_SkypeToken st = [] \<and> (\<exists>e. extractTeamsAuthTokens L C ord storage = Inl e)"
    unfolding extractTeamsAuthTokens_def Let_def run prod.case by (simp split: option.split)
  ultimately show ?thesis using s g a r by auto
qed

lemma msal_state:
  "extractMSALTokens L C ord storage clientID = Inr st \<Longrightarrow>
     as_SkypeToken st = [] \<and> as_TeamsUserID st = [] \<and> as_RefreshToken st \<noteq> []"
  by (auto simp: extractMSALTokens_def no_auth_def Let_def split: sum.splits option.splits list.splits if_splits prod.splits)


text \<open>A storage with two Skype tokens; the second lasts longer.\<close>

definition browser_lib :: golib where
  "browser_lib = plain_lib\<lparr>lib_json := \<lambda>s.
     if s = ''S'' then Some (JObject [(''tmp.auth.v1.u.discover.skype-token'', [], JString ''A''),
       (''tmp.auth.v1.v.discover.skype-token'', [], JString ''B'')])
     else Some (JObject [(''item'', [], JObject [(''skypeToken'', [], JString (s @ ''!'')),
       (''expiration'', if s = ''A'' then ''5'' else ''7'', JNull),
       (''userDetails'', [], JObject [(''id'', [], JString (s @ ''u''))])])])\<rparr>"

definition browser_crypto :: crypto where
  "browser_crypto = \<lparr>cr_cbc = \<lambda>_ _ c. c, cr_hkdf = \<lambda>k _ _. Inr k, cr_gcm = \<lambda>_ c. Inr c\<rparr>"

abbreviation browser_storage :: storage where
  "browser_storage \<equiv> [(''tmp.auth.v1.u.discover.skype-token'', ''A''), (''tmp.auth.v1.v.discover.skype-token'', ''B'')]"

lemma browser_expiry:
  "parseTeamsAuthExpiry browser_lib [[], ''5'', []] = 5" "parseTeamsAuthExpiry browser_lib [[], ''7'', []] = 7"
proof -
  have "format_uint 5 = ''5''" "format_uint 7 = ''7''" by code_simp+
  then have "parse_int ''5'' = Some 5" "parse_int ''7'' = Some 7"
    using parse_int_format_uint [of 5] parse_int_format_uint [of 7] by simp_all
  moreover have "trim_quotes (trim_space ''5'') = ''5''" "trim_quotes (trim_space ''7'') = ''7''"
    "trim_quotes (trim_space []) = []" by code_simp+
  ultimately show "parseTeamsAuthExpiry browser_lib [[], ''5'', []] = 5" "parseTeamsAuthExpiry browser_lib [[], ''7'', []] = 7"
    by simp_all
qed

lemma browser_entries:
  "teams_entry browser_lib browser_crypto [] [] ''tmp.auth.v1.u.discover.skype-token'' ''A''
    = Some (None, Some (SkypeSlot, ''A!'', 5, ''Au''))"
  "teams_entry browser_lib browser_crypto [] [] ''tmp.auth.v1.v.discover.skype-token'' ''B''
    = Some (None, Some (SkypeSlot, ''B!'', 7, ''Bu''))"
proof -
  have items:
    "unmarshal_item browser_lib ''A'' = Some (no_item\<lparr>ti_SkypeToken := ''A!'', ti_Expiration := ''5'', ti_UserID := ''Au''\<rparr>)"
    "unmarshal_item browser_lib ''B'' = Some (no_item\<lparr>ti_SkypeToken := ''B!'', ti_Expiration := ''7'', ti_UserID := ''Bu''\<rparr>)"
    by code_simp+
  have slots: "token_slot browser_lib ''tmp.auth.v1.u.discover.skype-token'' = SkypeSlot"
    "token_slot browser_lib ''tmp.auth.v1.v.discover.skype-token'' = SkypeSlot"
    "has_suffix (lower browser_lib ''tmp.auth.v1.u.discover.skype-token'') ''.discover.skype-token''"
    "has_suffix (lower browser_lib ''tmp.auth.v1.v.discover.skype-token'') ''.discover.skype-token''"
    by code_simp+
  have users: "firstNonEmptyToken [''Au'', []] = ''Au''" "firstNonEmptyToken [''Bu'', []] = ''Bu''" by code_simp+
  show "teams_entry browser_lib browser_crypto [] [] ''tmp.auth.v1.u.discover.skype-token'' ''A''
      = Some (None, Some (SkypeSlot, ''A!'', 5, ''Au''))"
    "teams_entry browser_lib browser_crypto [] [] ''tmp.auth.v1.v.discover.skype-token'' ''B''
      = Some (None, Some (SkypeSlot, ''B!'', 7, ''Bu''))"
    unfolding teams_entry_def Let_def items slots(1,2)
    by (simp_all add: no_item_def slots users browser_expiry del: parseTeamsAuthExpiry.simps firstNonEmptyToken.simps)
qed

lemma browser_state: "ExtractTokensFromMSALLocalStorage browser_lib browser_crypto (\<lambda>_. []) (\<lambda>_. rev) ''S'' []
    = Inr (no_auth\<lparr>as_SkypeToken := ''B!'', as_SkypeTokenExpiresAt := 7, as_TeamsUserID := ''Bu''\<rparr>)"
proof -
  have m: "parseStorage browser_lib (\<lambda>_. []) ''S'' = Inr (Some browser_storage)" by code_simp
  have "extractTeamsAuthEncryptionKey browser_lib (rev browser_storage) = []"
    "extractPrimaryTeamsAuthUser browser_lib (rev browser_storage) = []" by code_simp+
  then have teams: "extractTeamsAuthTokens browser_lib browser_crypto (\<lambda>_. rev) browser_storage
    = Inr (no_auth\<lparr>as_SkypeToken := ''B!'', as_SkypeTokenExpiresAt := 7, as_TeamsUserID := ''Bu''\<rparr>)"
    by (simp add: extractTeamsAuthTokens_def Let_def teams_step_def browser_entries place_token_def
        shouldReplaceCachedToken_def no_auth_def)
  have msal: "resolveMSALClientID (rev browser_storage) [] = []"
    "extractMSALTokens browser_lib browser_crypto (\<lambda>_. rev) (Some browser_storage) []
      = Inl (ErrNew ''msal token keys entry not found'')" by code_simp+
  show ?thesis
    unfolding ExtractTokensFromMSALLocalStorage_def m sum.case entries_def option.case Let_def msal teams
    by (simp add: mergeAuthState_def no_auth_def Let_def)
qed


text \<open>
  Of the access tokens in the MSAL cache the one that lasts longest is taken, among those with the right
  target: for the Skype services, and for Graph.
\<close>

theorem msal_tokens_latest:
  "best_of {r. \<exists>key \<in> set keys. msal_offer L (\<lambda>key. readMSALEntry L C m key clientID ck) (matchesMBITarget L) key = Some r}
     (case selectMBIAccessToken L C m keys clientID ck of (t, x) \<Rightarrow> (t, x, ()))
   \<and> best_of {r. \<exists>key \<in> set keys. msal_offer L (\<lambda>key. readMSALEntry L C m key clientID ck) (matchesGraphTarget L) key = Some r}
     (case selectGraphAccessToken L C m keys clientID ck of (t, x) \<Rightarrow> (t, x, ()))"
  unfolding selectMBIAccessToken_def selectGraphAccessToken_def
  by (intro conjI msal.fold_best_empty) simp_all

text \<open>
  The first usable capture wins. However many requests reach the helper page, the state that is waited for
  is that of the first one that is answered with 200 and that a later one cannot replace.
\<close>

theorem first_capture_wins:
  "fold (\<lambda>r c. snd (handleCapture L C remarshal ord clientID r c)) rs None =
     (case find (\<lambda>r. fst (handleCapture L C remarshal ord clientID r None) = 200) rs of
        None \<Rightarrow> None
      | Some r \<Rightarrow> snd (handleCapture L C remarshal ord clientID r None))"
proof -
  have kept: "snd (handleCapture L C remarshal ord clientID r (Some s)) = Some s" for r s
    by (auto simp: handleCapture_def split: option.split sum.split)
  then have all: "fold (\<lambda>r c. snd (handleCapture L C remarshal ord clientID r c)) rs (Some s) = Some s" for rs s
    by (induction rs) simp_all
  have "(fst (handleCapture L C remarshal ord clientID r None) = 200) = (snd (handleCapture L C remarshal ord clientID r None) \<noteq> None)" for r
    by (auto simp: handleCapture_def split: option.split sum.split)
  then show ?thesis by (induction rs) (auto simp: all)
qed

end
