(* ===== verification/Listener.thy ===== *)
theory Listener
  imports TokenCache
begin

text \<open>
  \<open>internal/teams/auth/flow.go\<close>: the local listener to which the helper page posts the storage of the browser,
  and \<open>WaitForState\<close>, which waits for the tokens found in it.

  The listener is a concurrent program: a goroutine per request, one that shuts the server down when the
  context is cancelled, and the caller in \<open>WaitForState\<close>. They share \<open>sync.Once\<close> and a channel that holds one
  state. A step of \<open>listen_step\<close> is one access to what is shared. What a request means is \<open>handleCapture\<close> of
  theory \<open>TokenCache\<close>, in which its state has not been captured before. A blocked operation is a step that is
  not enabled: a second \<open>Once.Do\<close> while the first runs, a send to a full channel, and \<open>Shutdown\<close> as long as a
  handler runs.
\<close>

section \<open>State\<close>

type_synonym capture = "string \<times> string option" \<comment> \<open>method and body, as \<open>handleCapture\<close> has them\<close>

datatype handler =
    Reading capture \<comment> \<open>in \<open>io.ReadAll\<close>, until the client has sent the body\<close>
  | Captured AuthState \<comment> \<open>before \<open>once.Do\<close>\<close>
  | In_Once AuthState \<comment> \<open>in \<open>once.Do\<close>, before the send\<close>
  | Sent \<comment> \<open>in \<open>once.Do\<close>, after the send\<close>
  | Answered nat \<comment> \<open>with this status\<close>

datatype once = Fresh | Busy nat | Finished

datatype waiter =
    Waiting
  | Closing AuthState \<comment> \<open>has the state, waits for \<open>Shutdown\<close>\<close>
  | Got AuthState
  | Gave_Up ctx_error

record listener =
  ln_URL :: string
  ln_serving :: bool \<comment> \<open>accepts requests\<close>
  ln_once :: once
  ln_stateCh :: "AuthState list"
  ln_handlers :: "handler list"
  ln_ctx :: "ctx_error option"
  ln_waiter :: waiter
  ln_requests :: "capture list" \<comment> \<open>ghost: the requests so far\<close>
  ln_sent :: "AuthState list" \<comment> \<open>ghost: what has been sent to the channel\<close>

definition stateCh_capacity :: nat where "stateCh_capacity = 1"

text \<open>\<open>net.Listen\<close> gives an address or fails.\<close>

definition StartHelperListener :: "go_error + string \<Rightarrow> go_error + listener" where
  "StartHelperListener listening =
     (case listening of
        Inl err \<Rightarrow> Inl err
      | Inr addr \<Rightarrow> Inr \<lparr>ln_URL = ''http://'' @ addr @ ''/'', ln_serving = True, ln_once = Fresh,
          ln_stateCh = [], ln_handlers = [], ln_ctx = None, ln_waiter = Waiting, ln_requests = [],
          ln_sent = []\<rparr>)"

section \<open>Steps\<close>

text \<open>\<open>H\<close> is \<open>handleCapture\<close> of the listener, for a request that comes first.\<close>

type_synonym capture_fun = "capture \<Rightarrow> nat \<times> AuthState option"

definition arrived :: "capture \<Rightarrow> handler" where
  "arrived r = (if fst r \<noteq> ''POST'' then Answered 405 else Reading r)"

definition after_read :: "capture_fun \<Rightarrow> capture \<Rightarrow> handler" where
  "after_read H r =
     (case H r of (status, Some state) \<Rightarrow> if status = 200 then Captured state else Answered status
      | (status, None) \<Rightarrow> Answered status)"

definition put_handler :: "nat \<Rightarrow> handler \<Rightarrow> listener \<Rightarrow> listener" where
  "put_handler i h s = s\<lparr>ln_handlers := (ln_handlers s)[i := h]\<rparr>"

definition at_handler :: "listener \<Rightarrow> nat \<Rightarrow> handler \<Rightarrow> bool" where
  "at_handler s i h \<longleftrightarrow> i < length (ln_handlers s) \<and> ln_handlers s ! i = h"

text \<open>The steps of the handlers, once they have read their request.\<close>

inductive handler_step :: "listener \<Rightarrow> listener \<Rightarrow> bool" where
  enter_once: "at_handler s i (Captured st) \<Longrightarrow> ln_once s = Fresh \<Longrightarrow>
     handler_step s (put_handler i (In_Once st) (s\<lparr>ln_once := Busy i\<rparr>))"
| skip_once: "at_handler s i (Captured st) \<Longrightarrow> ln_once s = Finished \<Longrightarrow>
     handler_step s (put_handler i (Answered 200) s)"
| send_state: "at_handler s i (In_Once st) \<Longrightarrow> length (ln_stateCh s) < stateCh_capacity \<Longrightarrow>
     handler_step s (put_handler i Sent
       (s\<lparr>ln_stateCh := ln_stateCh s @ [st], ln_sent := ln_sent s @ [st]\<rparr>))"
| leave_once: "at_handler s i Sent \<Longrightarrow>
     handler_step s (put_handler i (Answered 200) (s\<lparr>ln_once := Finished\<rparr>))"

inductive listen_step :: "capture_fun \<Rightarrow> listener \<Rightarrow> listener \<Rightarrow> bool" for H where
  handling: "handler_step s s' \<Longrightarrow> listen_step H s s'"
| arrive: "ln_serving s \<Longrightarrow>
     listen_step H s (s\<lparr>ln_handlers := ln_handlers s @ [arrived r], ln_requests := ln_requests s @ [r]\<rparr>)"
| read_body: "at_handler s i (Reading r) \<Longrightarrow> listen_step H s (put_handler i (after_read H r) s)"
| cancel: "ln_ctx s = None \<Longrightarrow> listen_step H s (s\<lparr>ln_ctx := Some e\<rparr>)"
| shut_down: "ln_ctx s = Some e \<Longrightarrow> listen_step H s (s\<lparr>ln_serving := False\<rparr>)"
| receive: "ln_waiter s = Waiting \<Longrightarrow> ln_stateCh s = st # rest \<Longrightarrow>
     listen_step H s (s\<lparr>ln_stateCh := rest, ln_waiter := Closing st, ln_serving := False\<rparr>)"
| return_state: "ln_waiter s = Closing st \<Longrightarrow> \<forall>h \<in> set (ln_handlers s). \<exists>status. h = Answered status \<Longrightarrow>
     listen_step H s (s\<lparr>ln_waiter := Got st\<rparr>)"
| give_up: "ln_waiter s = Waiting \<Longrightarrow> ln_ctx s = Some e \<Longrightarrow>
     listen_step H s (s\<lparr>ln_waiter := Gave_Up e\<rparr>)"

inductive_cases handler_stepE: "handler_step s s'"
inductive_cases listen_stepE: "listen_step H s s'"

abbreviation listen_run :: "capture_fun \<Rightarrow> listener \<Rightarrow> listener \<Rightarrow> bool" where
  "listen_run H \<equiv> (listen_step H)\<^sup>*\<^sup>*"

definition listener_reach :: "capture_fun \<Rightarrow> listener \<Rightarrow> bool" where
  "listener_reach H s \<longleftrightarrow> (\<exists>addr s\<^sub>0. StartHelperListener (Inr addr) = Inr s\<^sub>0 \<and> listen_run H s\<^sub>0 s)"

section \<open>The invariant\<close>

definition in_once :: "handler \<Rightarrow> bool" where
  "in_once h \<longleftrightarrow> h = Sent \<or> (\<exists>st. h = In_Once st)"

definition received :: "waiter \<Rightarrow> AuthState list" where
  "received w = (case w of Closing st \<Rightarrow> [st] | Got st \<Rightarrow> [st] | _ \<Rightarrow> [])"

definition captured_from :: "capture_fun \<Rightarrow> capture list \<Rightarrow> AuthState \<Rightarrow> bool" where
  "captured_from H rs st \<longleftrightarrow> (\<exists>r \<in> set rs. H r = (200, Some st))"

fun handler_ok :: "capture_fun \<Rightarrow> capture list \<Rightarrow> handler \<Rightarrow> bool" where
  "handler_ok H rs (Reading r) = (r \<in> set rs)"
| "handler_ok H rs (Captured st) = captured_from H rs st"
| "handler_ok H rs (In_Once st) = captured_from H rs st"
| "handler_ok H rs h = True"

text \<open>Who is inside \<open>once.Do\<close>, and what has been sent, by the state of the \<open>Once\<close>.\<close>

definition once_ok :: "listener \<Rightarrow> bool" where
  "once_ok s \<longleftrightarrow>
     (case ln_once s of
        Fresh \<Rightarrow> ln_sent s = [] \<and> (\<forall>h \<in> set (ln_handlers s). \<not> in_once h)
      | Busy i \<Rightarrow> i < length (ln_handlers s)
          \<and> (\<forall>j < length (ln_handlers s). j \<noteq> i \<longrightarrow> \<not> in_once (ln_handlers s ! j))
          \<and> ((\<exists>st. ln_handlers s ! i = In_Once st) \<and> ln_sent s = []
               \<or> ln_handlers s ! i = Sent \<and> length (ln_sent s) = 1)
      | Finished \<Rightarrow> length (ln_sent s) = 1 \<and> (\<forall>h \<in> set (ln_handlers s). \<not> in_once h))"

definition listener_ok :: "capture_fun \<Rightarrow> listener \<Rightarrow> bool" where
  "listener_ok H s \<longleftrightarrow> once_ok s
     \<and> ln_sent s = received (ln_waiter s) @ ln_stateCh s
     \<and> (\<forall>h \<in> set (ln_handlers s). handler_ok H (ln_requests s) h)
     \<and> (\<forall>st \<in> set (ln_sent s). captured_from H (ln_requests s) st)
     \<and> (received (ln_waiter s) \<noteq> [] \<longrightarrow> \<not> ln_serving s)
     \<and> (\<forall>st. ln_waiter s = Got st \<longrightarrow> (\<forall>h \<in> set (ln_handlers s). \<exists>status. h = Answered status))"

lemma put_handler_simps [simp]:
  "ln_handlers (put_handler i h s) = (ln_handlers s)[i := h]"
  "ln_serving (put_handler i h s) = ln_serving s" "ln_once (put_handler i h s) = ln_once s"
  "ln_stateCh (put_handler i h s) = ln_stateCh s" "ln_waiter (put_handler i h s) = ln_waiter s"
  "ln_ctx (put_handler i h s) = ln_ctx s"
  "ln_requests (put_handler i h s) = ln_requests s" "ln_sent (put_handler i h s) = ln_sent s"
  by (simp_all add: put_handler_def)

lemma put_handler_all:
  "(\<forall>h \<in> set (ln_handlers s). P h) \<Longrightarrow> P h' \<Longrightarrow> \<forall>h \<in> set (ln_handlers (put_handler i h' s)). P h"
  using set_update_subset_insert [of "ln_handlers s" i h'] by auto

lemma captured_from_more: "captured_from H rs st \<Longrightarrow> captured_from H (rs @ [r]) st"
  by (auto simp: captured_from_def)

lemma handler_ok_more: "handler_ok H rs h \<Longrightarrow> handler_ok H (rs @ [r]) h"
  by (cases h) (auto simp: captured_from_more)

lemma at_handler_in: "at_handler s i h \<Longrightarrow> h \<in> set (ln_handlers s)"
  by (auto simp: at_handler_def)

lemma once_ok_enter:
  assumes "once_ok s" "at_handler s i (Captured st)" "ln_once s = Fresh"
  shows "once_ok (put_handler i (In_Once st) (s\<lparr>ln_once := Busy i\<rparr>))"
  using assms by (auto simp: once_ok_def at_handler_def put_handler_def)

lemma once_ok_other:
  assumes "once_ok s" "at_handler s i h" "\<not> in_once h" "\<not> in_once h'"
  shows "once_ok (put_handler i h' s)"
proof (cases "ln_once s")
  case (Busy j)
  with assms have "j \<noteq> i" by (auto simp: once_ok_def at_handler_def in_once_def split: handler.splits)
  with assms Busy show ?thesis by (auto simp: once_ok_def at_handler_def nth_list_update)
qed (use assms put_handler_all [of s "\<lambda>h. \<not> in_once h" h' i] in \<open>auto simp: once_ok_def\<close>)

lemma once_ok_busy: "once_ok s \<Longrightarrow> at_handler s i h \<Longrightarrow> in_once h \<Longrightarrow> ln_once s = Busy i"
  by (auto simp: once_ok_def at_handler_def split: once.splits)

lemma once_ok_send:
  assumes "once_ok s" "at_handler s i (In_Once st)"
  shows "ln_sent s = []"
    and "once_ok (put_handler i Sent (s\<lparr>ln_stateCh := ch, ln_sent := [st]\<rparr>))"
proof -
  have b: "ln_once s = Busy i" using assms by (auto intro: once_ok_busy simp: in_once_def)
  with assms show "ln_sent s = []" by (auto simp: once_ok_def at_handler_def)
  from b assms show "once_ok (put_handler i Sent (s\<lparr>ln_stateCh := ch, ln_sent := [st]\<rparr>))"
    by (auto simp: once_ok_def at_handler_def put_handler_def)
qed

lemma once_ok_leave:
  assumes "once_ok s" "at_handler s i Sent"
  shows "once_ok (put_handler i (Answered 200) (s\<lparr>ln_once := Finished\<rparr>))"
proof -
  have b: "ln_once s = Busy i" using assms by (auto intro: once_ok_busy simp: in_once_def)
  with assms show ?thesis
    by (auto simp: once_ok_def at_handler_def put_handler_def all_set_conv_all_nth nth_list_update in_once_def)
qed

lemma once_ok_arrive:
  assumes "once_ok s"
  shows "once_ok (s\<lparr>ln_handlers := ln_handlers s @ [arrived r], ln_requests := rs\<rparr>)"
  using assms
  by (auto simp: once_ok_def arrived_def in_once_def nth_append less_Suc_eq split: once.splits)

lemma once_ok_frame [simp]:
  "once_ok (s\<lparr>ln_ctx := c\<rparr>) = once_ok s" "once_ok (s\<lparr>ln_serving := v\<rparr>) = once_ok s"
  "once_ok (s\<lparr>ln_waiter := w\<rparr>) = once_ok s" "once_ok (s\<lparr>ln_stateCh := ch\<rparr>) = once_ok s"
  by (simp_all add: once_ok_def cong: once.case_cong)

text \<open>The channel is never full when it is sent to.\<close>

lemma stateCh_free:
  assumes "listener_ok H s" "at_handler s i (In_Once st)"
  shows "length (ln_stateCh s) < stateCh_capacity" and "ln_waiter s \<noteq> Closing st'" "ln_waiter s \<noteq> Got st'"
  using assms once_ok_send(1) [of s i st] by (auto simp: listener_ok_def received_def stateCh_capacity_def)

lemma handler_step_ok:
  assumes "handler_step s s'" and ok: "listener_ok H s"
  shows "listener_ok H s'"
  using assms(1)
proof cases
  case (enter_once i st)
  from ok have "handler_ok H (ln_requests s) (Captured st)"
    using at_handler_in [OF enter_once(2)] by (auto simp: listener_ok_def)
  with ok enter_once show ?thesis
    using once_ok_enter [of s i st] set_update_subset_insert [of "ln_handlers s" i "In_Once st"] at_handler_in
    by (fastforce simp: listener_ok_def)
next
  case (skip_once i st)
  with ok show ?thesis
    using once_ok_other [of s i _ "Answered 200"] set_update_subset_insert [of "ln_handlers s" i "Answered 200"]
      at_handler_in
    by (fastforce simp: listener_ok_def in_once_def)
next
  case (send_state i st)
  note free = stateCh_free [OF ok send_state(2)] once_ok_send [of s i st]
  from ok have "handler_ok H (ln_requests s) (In_Once st)"
    using at_handler_in [OF send_state(2)] by (auto simp: listener_ok_def)
  with ok send_state free show ?thesis
    using set_update_subset_insert [of "ln_handlers s" i Sent]
    by (fastforce simp: listener_ok_def)
next
  case (leave_once i)
  with ok show ?thesis
    using once_ok_leave [of s i] set_update_subset_insert [of "ln_handlers s" i "Answered 200"] at_handler_in
    by (fastforce simp: listener_ok_def)
qed

lemma after_read_ok: "r \<in> set rs \<Longrightarrow> handler_ok H rs (after_read H r) \<and> \<not> in_once (after_read H r)"
  by (auto simp: after_read_def captured_from_def in_once_def split: prod.split option.split)

lemma listen_step_ok:
  assumes "listen_step H s s'" and ok: "listener_ok H s"
  shows "listener_ok H s'"
  using assms(1)
proof cases
  case handling
  with ok show ?thesis by (blast intro: handler_step_ok)
next
  case (arrive r)
  with ok have "received (ln_waiter s) = []" by (auto simp: listener_ok_def)
  moreover have "handler_ok H (rs @ [r]) (arrived r)" for rs by (simp add: arrived_def)
  ultimately show ?thesis
    using ok arrive once_ok_arrive [where s = s and r = r and rs = "ln_requests s @ [r]"]
    by (auto simp: listener_ok_def handler_ok_more captured_from_more received_def)
next
  case (read_body i r)
  with ok have "r \<in> set (ln_requests s)" using at_handler_in by (fastforce simp: listener_ok_def)
  with ok read_body show ?thesis
    using once_ok_other [of s i "Reading r" "after_read H r"] after_read_ok [where r = r and rs = "ln_requests s" and H = H]
      set_update_subset_insert [of "ln_handlers s" i "after_read H r"] at_handler_in
    by (fastforce simp: listener_ok_def in_once_def)
next
  case (receive st rest)
  with ok show ?thesis by (auto simp: listener_ok_def received_def)
next
  case (return_state st)
  with ok show ?thesis by (auto simp: listener_ok_def received_def)
qed (use ok in \<open>auto simp: listener_ok_def received_def\<close>)

lemma listener_reach_ok: "listener_reach H s \<Longrightarrow> listener_ok H s"
proof -
  assume "listener_reach H s"
  then obtain addr s\<^sub>0 where "StartHelperListener (Inr addr) = Inr s\<^sub>0" "listen_run H s\<^sub>0 s"
    by (auto simp: listener_reach_def)
  from this(1) have "listener_ok H s\<^sub>0"
    by (auto simp: StartHelperListener_def listener_ok_def once_ok_def received_def)
  with \<open>listen_run H s\<^sub>0 s\<close> show ?thesis
    by (induction rule: rtranclp_induct) (auto intro: listen_step_ok)
qed

section \<open>Progress\<close>

text \<open>How many steps of its own a handler has left once its request is read.\<close>

fun steps_left :: "handler \<Rightarrow> nat" where
  "steps_left (Captured st) = 3"
| "steps_left (In_Once st) = 2"
| "steps_left Sent = 1"
| "steps_left h = 0"

definition work_left :: "listener \<Rightarrow> nat" where
  "work_left s = sum_list (map steps_left (ln_handlers s))"

fun is_reading :: "handler \<Rightarrow> bool" where
  "is_reading (Reading r) = True"
| "is_reading h = False"

definition settled :: "handler \<Rightarrow> bool" where
  "settled h \<longleftrightarrow> steps_left h = 0"

lemma work_left_put:
  assumes "at_handler s i h" "steps_left h' < steps_left h"
  shows "work_left (put_handler i h' s) < work_left s"
proof -
  from assms have i: "i < length (map steps_left (ln_handlers s))" and "map steps_left (ln_handlers s) ! i = steps_left h"
    by (auto simp: at_handler_def)
  then have "sum_list (map steps_left (ln_handlers s)) \<ge> steps_left h"
    by (metis elem_le_sum_list)
  with assms i show ?thesis
    by (auto simp: work_left_def map_update at_handler_def sum_list_update)
qed

lemma work_left_frame [simp]:
  "work_left (put_handler i h (s\<lparr>ln_once := v\<rparr>)) = work_left (put_handler i h s)"
  "work_left (put_handler i h (s\<lparr>ln_stateCh := ch, ln_sent := l\<rparr>)) = work_left (put_handler i h s)"
  by (simp_all add: work_left_def put_handler_def)

lemma handler_step_work: "handler_step s s' \<Longrightarrow> work_left s' < work_left s"
  by (erule handler_stepE) (auto intro!: work_left_put)

lemma handler_steps_work: "(handler_step ^^ n) s s' \<Longrightarrow> n + work_left s' \<le> work_left s"
  by (induction n arbitrary: s') (fastforce dest: handler_step_work)+

text \<open>Nothing is stuck: while a handler has work left, some handler can take a step.\<close>

lemma handlers_progress:
  assumes ok: "listener_ok H s" and "h \<in> set (ln_handlers s)" "\<not> settled h"
  shows "\<exists>s'. handler_step s s'"
proof -
  have go: "\<exists>s'. handler_step s s'" if "at_handler s j g" "in_once g" for j g
    using that stateCh_free(1) [OF ok, of j] handler_step.send_state [of s j] handler_step.leave_once [of s j]
    by (auto simp: in_once_def)
  from assms(2) obtain i where i: "at_handler s i h" by (auto simp: at_handler_def in_set_conv_nth)
  show ?thesis
  proof (cases "in_once h")
    case True
    with i show ?thesis by (rule go)
  next
    case False
    with assms(3) obtain st where h: "h = Captured st" by (cases h) (auto simp: settled_def in_once_def)
    show ?thesis
    proof (cases "ln_once s")
      case Fresh
      with i h show ?thesis by (blast intro: enter_once)
    next
      case Finished
      with i h show ?thesis by (blast intro: skip_once)
    next
      case (Busy j)
      with ok have "at_handler s j (ln_handlers s ! j) \<and> in_once (ln_handlers s ! j)"
        by (auto simp: listener_ok_def once_ok_def at_handler_def in_once_def)
      then show ?thesis using go by blast
    qed
  qed
qed

lemma handler_steps_ok: "(handler_step ^^ n) s s' \<Longrightarrow> listener_ok H s \<Longrightarrow> listener_ok H s'"
  by (induction n arbitrary: s') (auto dest: handler_step_ok)

lemma handler_step_keeps:
  assumes "handler_step s s'"
  shows "ln_waiter s' = ln_waiter s" and "length (ln_handlers s') = length (ln_handlers s)"
    and "list_all (\<lambda>h. \<not> is_reading h) (ln_handlers s) \<Longrightarrow> list_all (\<lambda>h. \<not> is_reading h) (ln_handlers s')"
  using assms
  by (auto elim!: handler_stepE simp: list_all_iff dest!: subsetD [OF set_update_subset_insert])

lemma handler_steps_keep:
  assumes "(handler_step ^^ n) s s'"
  shows "ln_waiter s' = ln_waiter s" and "length (ln_handlers s') = length (ln_handlers s)"
    and "list_all (\<lambda>h. \<not> is_reading h) (ln_handlers s) \<Longrightarrow> list_all (\<lambda>h. \<not> is_reading h) (ln_handlers s')"
  using assms
  by (induction n arbitrary: s') (auto dest: handler_step_keeps)

lemma work_left_bound: "work_left s \<le> 3 * length (ln_handlers s)"
proof -
  have "steps_left h \<le> 3" for h by (cases h) simp_all
  then have "sum_list (map steps_left hs) \<le> 3 * length hs" for hs
    by (induction hs) (auto intro: add_mono)
  then show ?thesis by (simp add: work_left_def)
qed


lemma answered_or_work:
  "\<not> is_reading h \<Longrightarrow> settled h \<Longrightarrow> \<exists>status. h = Answered status"
  by (cases h) (auto simp: settled_def)

lemma waiter_closing:
  assumes "listen_run H s s'" and "ln_waiter s = Closing st"
  shows "ln_waiter s' = Closing st \<or> ln_waiter s' = Got st"
  using assms
proof (induction rule: rtranclp_induct)
  case (step s' s'')
  then have "ln_waiter s' = Closing st \<or> ln_waiter s' = Got st" by blast
  with step.hyps(2) show ?case
    by (auto elim!: listen_stepE dest: handler_step_keeps(1))
qed simp

section \<open>Properties\<close>

text \<open>
  At most one state is ever handed over, whatever requests come and however their handlers interleave. If
  \<open>WaitForState\<close> has returned a state, it is the one that was sent, and one of the requests carried it.
\<close>

theorem capture_delivered_once:
  assumes "listener_reach H s"
  shows "length (ln_sent s) \<le> 1
     \<and> (case ln_waiter s of Got st \<Rightarrow> ln_sent s = [st] \<and> captured_from H (ln_requests s) st | _ \<Rightarrow> True)"
proof -
  have ok: "listener_ok H s" using assms by (rule listener_reach_ok)
  then have "length (ln_sent s) \<le> 1"
    by (auto simp: listener_ok_def once_ok_def split: once.splits)
  with ok show ?thesis
    by (auto simp: listener_ok_def received_def split: waiter.splits)
qed

text \<open>
  C24: \<open>WaitForState\<close> returns. Once it has received the state and every request has been read, the handlers together
  have at most three steps each left, and at every moment either one of them can take a step or all have answered
  and \<open>WaitForState\<close> returns the state.
\<close>

theorem WaitForState_returns:
  assumes "listener_reach H s" and "ln_waiter s = Closing st"
    and "list_all (\<lambda>h. \<not> is_reading h) (ln_handlers s)" and "(handler_step ^^ n) s s'"
  shows "n \<le> 3 * length (ln_handlers s)
     \<and> ((\<exists>s''. handler_step s' s'') \<or> listen_step H s' (s'\<lparr>ln_waiter := Got st\<rparr>))"
proof
  show "n \<le> 3 * length (ln_handlers s)"
    using handler_steps_work [OF assms(4)] work_left_bound [of s] by linarith
  have ok: "listener_ok H s'"
    using assms(1,4) by (auto intro: handler_steps_ok listener_reach_ok)
  note kept = handler_steps_keep [OF assms(4)]
  show "(\<exists>s''. handler_step s' s'') \<or> listen_step H s' (s'\<lparr>ln_waiter := Got st\<rparr>)"
  proof (cases "\<exists>h \<in> set (ln_handlers s'). \<not> settled h")
    case True
    then show ?thesis using handlers_progress [OF ok] by blast
  next
    case False
    then have "\<forall>h \<in> set (ln_handlers s'). \<exists>status. h = Answered status"
      using kept(3) [OF assms(3)] by (auto simp: list_all_iff intro: answered_or_work)
    then show ?thesis using kept(1) assms(2) by (auto intro: return_state)
  qed
qed

text \<open>
  But \<open>WaitForState\<close> waits for every request, and its context does not help: as long as one client has not sent all
  of its request, the state that has been received is not returned, even after the context is cancelled.
\<close>

theorem stalled_request_blocks:
  assumes "listener_reach H s" and "ln_waiter s = Closing st" and "listen_run H s s'"
    and "at_handler s' i (Reading r)"
  shows "ln_waiter s' = Closing st"
proof -
  from assms(1,3) have "listener_reach H s'" unfolding listener_reach_def by (meson rtranclp_trans)
  then have ok: "listener_ok H s'" by (rule listener_reach_ok)
  have "ln_waiter s' \<noteq> Got st"
    using ok at_handler_in [OF assms(4)] by (auto simp: listener_ok_def)
  with waiter_closing [OF assms(3,2)] show ?thesis by blast
qed

text \<open>One request is captured and returned.\<close>

definition one_capture :: capture_fun where "one_capture = (\<lambda>r. (200, Some no_auth))"

definition listening :: listener where
  "listening = \<lparr>ln_URL = ''http://a/'', ln_serving = True, ln_once = Fresh, ln_stateCh = [],
     ln_handlers = [], ln_ctx = None, ln_waiter = Waiting, ln_requests = [], ln_sent = []\<rparr>"

definition capture_closing :: listener where
  "capture_closing = listening\<lparr>ln_serving := False, ln_once := Finished, ln_handlers := [Answered 200],
     ln_waiter := Closing no_auth, ln_requests := [(''POST'', None)], ln_sent := [no_auth]\<rparr>"

lemma capture_closing_reach: "listener_reach one_capture capture_closing"
proof -
  let ?s1 = "listening\<lparr>ln_handlers := [Reading (''POST'', None)], ln_requests := [(''POST'', None)]\<rparr>"
  let ?s2 = "?s1\<lparr>ln_handlers := [Captured no_auth]\<rparr>"
  let ?s3 = "?s1\<lparr>ln_handlers := [In_Once no_auth], ln_once := Busy 0\<rparr>"
  let ?s4 = "?s1\<lparr>ln_handlers := [Sent], ln_once := Busy 0, ln_stateCh := [no_auth], ln_sent := [no_auth]\<rparr>"
  let ?s5 = "?s4\<lparr>ln_handlers := [Answered 200], ln_once := Finished\<rparr>"
  note defs = listening_def capture_closing_def put_handler_def at_handler_def
  have "listen_step one_capture listening ?s1"
    using arrive [of listening one_capture "(''POST'', None)"] by (simp add: defs arrived_def)
  moreover have "listen_step one_capture ?s1 ?s2"
    using read_body [of ?s1 0 "(''POST'', None)" one_capture]
    by (simp add: defs after_read_def one_capture_def)
  moreover have "listen_step one_capture ?s2 ?s3"
    using handling [OF enter_once [of ?s2 0 no_auth]] by (simp add: defs)
  moreover have "listen_step one_capture ?s3 ?s4"
    using handling [OF send_state [of ?s3 0 no_auth]] by (simp add: defs stateCh_capacity_def)
  moreover have "listen_step one_capture ?s4 ?s5"
    using handling [OF leave_once [of ?s4 0]] by (simp add: defs)
  moreover have "listen_step one_capture ?s5 capture_closing"
    using receive [of ?s5 no_auth "[]" one_capture] by (simp add: defs)
  ultimately have "listen_run one_capture listening capture_closing"
    by (meson converse_rtranclp_into_rtranclp r_into_rtranclp)
  moreover have "StartHelperListener (Inr ''a'') = Inr listening"
    by (simp add: StartHelperListener_def listening_def)
  ultimately show ?thesis unfolding listener_reach_def by blast
qed

theorem capture_delivered_once_witness:
  "length (ln_sent capture_closing) \<le> 1
   \<and> (case ln_waiter (capture_closing\<lparr>ln_waiter := Got no_auth\<rparr>) of
        Got st \<Rightarrow> ln_sent capture_closing = [st] \<and> captured_from one_capture [(''POST'', None)] st | _ \<Rightarrow> True)"
proof -
  have "listen_step one_capture capture_closing (capture_closing\<lparr>ln_waiter := Got no_auth\<rparr>)"
    by (rule return_state) (simp_all add: capture_closing_def)
  with capture_closing_reach have "listener_reach one_capture (capture_closing\<lparr>ln_waiter := Got no_auth\<rparr>)"
    unfolding listener_reach_def by (meson rtranclp.rtrancl_into_rtrancl)
  from capture_delivered_once [OF this] show ?thesis by (simp add: capture_closing_def)
qed

theorem WaitForState_returns_witness:
  "(0::nat) \<le> 3 * length (ln_handlers capture_closing)
   \<and> ((\<exists>s''. handler_step capture_closing s'')
      \<or> listen_step one_capture capture_closing (capture_closing\<lparr>ln_waiter := Got no_auth\<rparr>))"
  by (rule WaitForState_returns [OF capture_closing_reach]) (simp_all add: capture_closing_def)

end
