(* ===== verification/Convert.thy ===== *)
theory Convert
  imports Attachments Polling
begin

text \<open>
  Teams messages for Matrix: \<open>pkg/connector/convert.go\<close>. A message becomes the parts of one Matrix event
  list: one media part per attachment that could be downloaded from Graph and uploaded to Matrix, and
  a text part with the body, the GIFs and the attachments that could not.

  Every part is of type \<open>m.room.message\<close>, which is left out. A Go map of extra fields is an association
  list of its entries, \<open>None\<close> for a nil map; copying it is the identity. The downloads are logged per
  execution, and so are the uploads, which are numbered.
\<close>

section \<open>Parts\<close>

type_synonym extra = "(string \<times> json) list option"

record OutContent =
  oc_MsgType :: MsgType
  oc_Body :: string
  oc_Format :: string
  oc_FormattedBody :: string
  oc_FileName :: string
  oc_Info :: "(string \<times> int) option" \<comment> \<open>MIME type and size\<close>
  oc_URL :: string
  oc_File :: "string option" \<comment> \<open>the URL of an encrypted file\<close>

record ConvertedPart =
  cp_ID :: string
  cp_Content :: OutContent
  cp_Extra :: extra

record renderedInboundMessage =
  ri_Body :: string
  ri_FormattedBody :: string
  ri_Extra :: extra

definition text_part_content :: "string \<Rightarrow> OutContent" where
  "text_part_content body = \<lparr>oc_MsgType = MsgText, oc_Body = body, oc_Format = [], oc_FormattedBody = [],
     oc_FileName = [], oc_Info = None, oc_URL = [], oc_File = None\<rparr>"

definition perMessageExtra :: "RemoteMessage \<Rightarrow> extra" where
  "perMessageExtra msg =
     (let senderID = trim_space (rm_SenderID msg); displayName = trim_space (rm_SenderName msg)
      in if senderID \<noteq> [] \<and> displayName \<noteq> []
         then Some [(''com.beeper.per_message_profile'',
                json_map [(''id'', JString senderID), (''displayname'', JString displayName)])]
         else None)"

definition perMessageExtraWithRendered :: "RemoteMessage \<Rightarrow> renderedInboundMessage \<Rightarrow> extra" where
  "perMessageExtraWithRendered msg rendered =
     (let extra = perMessageExtra msg
      in case ri_Extra rendered of
           None \<Rightarrow> extra
         | Some new \<Rightarrow>
             if new = [] then extra
             else Some (fold (\<lambda>(k, v). AList.update k v) new (case extra of None \<Rightarrow> [] | Some old \<Rightarrow> old)))"

section \<open>Rendering\<close>

text \<open>The line and the list item of one attachment, and of one GIF.\<close>

definition attachment_line :: "TeamsAttachment \<Rightarrow> string" where
  "attachment_line a =
     (if trim_space (ta_ShareURL a) = [] then ''Attachment: '' @ ta_Filename a
      else ''Attachment: '' @ ta_Filename a @ '' - '' @ ta_ShareURL a)"

definition renderAttachmentBody :: "TeamsAttachment list \<Rightarrow> string" where
  "renderAttachmentBody attachments = join (map attachment_line attachments) [newline]"

definition attachment_item :: "TeamsAttachment \<Rightarrow> string" where
  "attachment_item a =
     (if trim_space (ta_ShareURL a) = []
      then ''<li>Attachment: '' @ escape_string (ta_Filename a) @ ''</li>''
      else ''<li>Attachment: <a href='' @ [CHR 0x22] @ escape_string (ta_ShareURL a) @ [CHR 0x22] @ ''>''
           @ escape_string (ta_Filename a) @ ''</a></li>'')"

definition renderAttachmentHTML :: "TeamsAttachment list \<Rightarrow> string" where
  "renderAttachmentHTML attachments = ''<ul>'' @ concat (map attachment_item attachments) @ ''</ul>''"

definition renderGIFBody :: "TeamsGIF list \<Rightarrow> string" where
  "renderGIFBody gifs = join (map (\<lambda>g. ''GIF: '' @ gif_Title g @ '' - '' @ gif_URL g) gifs) [newline]"

definition gif_item :: "TeamsGIF \<Rightarrow> string" where
  "gif_item g =
     ''<li>GIF: <a href='' @ [CHR 0x22] @ escape_string (gif_URL g) @ [CHR 0x22] @ ''>''
     @ escape_string (gif_Title g) @ ''</a></li>''"

definition renderGIFHTML :: "TeamsGIF list \<Rightarrow> string" where
  "renderGIFHTML gifs = ''<ul>'' @ concat (map gif_item gifs) @ ''</ul>''"

definition plainTextToHTML :: "string \<Rightarrow> string" where
  "plainTextToHTML txt = replace_all (escape_string txt) [newline] ''<br>''"

definition renderInboundMessageWithGIFs ::
  "string \<Rightarrow> string \<Rightarrow> TeamsAttachment list \<Rightarrow> TeamsGIF list \<Rightarrow> renderedInboundMessage" where
  "renderInboundMessageWithGIFs body formattedBody attachments gifs =
     (let b = trim_space body; f = trim_space formattedBody
      in if attachments = [] \<and> gifs = []
         then \<lparr>ri_Body = b, ri_FormattedBody = f, ri_Extra = None\<rparr>
         else
           (let sections =
                  (if trim_space b \<noteq> [] then [b] else [])
                  @ (if attachments \<noteq> [] then [renderAttachmentBody attachments] else [])
                  @ (if gifs \<noteq> [] then [renderGIFBody gifs] else []);
                baseHTML = (if f = [] \<and> trim_space body \<noteq> [] then plainTextToHTML body else f);
                htmlSections =
                  (if baseHTML \<noteq> [] then [baseHTML] else [])
                  @ (if attachments \<noteq> [] then [renderAttachmentHTML attachments] else [])
                  @ (if gifs \<noteq> [] then [renderGIFHTML gifs] else [])
            in \<lparr>ri_Body = join sections [newline, newline],
                ri_FormattedBody = join htmlSections ''<br><br>'', ri_Extra = None\<rparr>))"

definition renderInboundMessage :: "string \<Rightarrow> string \<Rightarrow> TeamsAttachment list \<Rightarrow> renderedInboundMessage" where
  "renderInboundMessage body formattedBody attachments =
     renderInboundMessageWithGIFs body formattedBody attachments []"

definition stripHTMLFallback :: "string \<Rightarrow> string" where
  "stripHTMLFallback html =
     (let out = replace_all html ''<br>'' [newline];
          out = replace_all out ''<br/>'' [newline];
          out = replace_all out ''<br />'' [newline];
          out = replace_all out ''<p>'' [];
          out = replace_all out ''</p>'' []
      in out)"

text \<open>The content of a text part, from trimmed bodies of which one is not empty.\<close>

definition rendered_content :: "string \<Rightarrow> string \<Rightarrow> OutContent" where
  "rendered_content body formatted =
     (let content = text_part_content body
      in if formatted = [] then content
         else
           (let content = content\<lparr>oc_Format := ''org.matrix.custom.html'', oc_FormattedBody := formatted\<rparr>
            in if oc_Body content \<noteq> '' '' then content
               else
                 (let stripped = stripHTMLFallback formatted
                  in content\<lparr>oc_Body := (if trim_space stripped = [] then '' '' else stripped)\<rparr>)))"

definition buildCaptionPart :: "string \<Rightarrow> renderedInboundMessage \<Rightarrow> extra \<Rightarrow> ConvertedPart option" where
  "buildCaptionPart partID rendered extra =
     (let body = trim_space (ri_Body rendered); formatted = trim_space (ri_FormattedBody rendered)
      in if body = [] \<and> formatted = [] then None
         else Some \<lparr>cp_ID = partID,
                    cp_Content = rendered_content (if body = [] then '' '' else body) formatted,
                    cp_Extra = extra\<rparr>)"

definition convertTeamsMessageLegacy :: "golib \<Rightarrow> RemoteMessage \<Rightarrow> ConvertedPart list" where
  "convertTeamsMessageLegacy L msg =
     (let attachments = (case ParseAttachments L (rm_PropertiesFiles msg) of None \<Rightarrow> [] | Some as \<Rightarrow> as);
          rendered = renderInboundMessageWithGIFs (rm_Body msg) (rm_FormattedBody msg) attachments (rm_GIFs msg);
          body = trim_space (ri_Body rendered); formatted = trim_space (ri_FormattedBody rendered)
      in [\<lparr>cp_ID = [],
           cp_Content = rendered_content (if body = [] \<and> formatted = [] then '' '' else body) formatted,
           cp_Extra = perMessageExtraWithRendered msg rendered\<rparr>])"

section \<open>Media\<close>

definition normalizeContentType :: "string \<Rightarrow> string" where
  "normalizeContentType value =
     (let value = trim_space value
      in if value = [] then []
         else case index_byte value (CHR '';'') of
           Some semi \<Rightarrow> trim_space (take semi value)
         | None \<Rightarrow> value)"

definition octet_stream :: string where "octet_stream = ''application/octet-stream''"

definition detectMIMEType :: "golib \<Rightarrow> string \<Rightarrow> string \<Rightarrow> string \<Rightarrow> string" where
  "detectMIMEType L filename headerContentType data =
     (let ct = normalizeContentType headerContentType;
          sniffed = normalizeContentType (lib_sniff L data);
          ext = lower L (path_ext (trim_space filename));
          byExt = normalizeContentType (lib_mime_ext L ext)
      in if ct \<noteq> [] \<and> ct \<noteq> octet_stream then ct
         else if data \<noteq> [] \<and> sniffed \<noteq> [] then sniffed
         else if ext \<noteq> [] \<and> byExt \<noteq> [] then byExt
         else octet_stream)"

definition matrixMsgTypeForMIME :: "golib \<Rightarrow> string \<Rightarrow> MsgType" where
  "matrixMsgTypeForMIME L mimeType =
     (let mimeType = lower L (trim_space mimeType)
      in if has_prefix mimeType ''image/'' then MsgImage
         else if has_prefix mimeType ''video/'' then MsgVideo
         else if has_prefix mimeType ''audio/'' then MsgAudio
         else MsgFile)"

definition buildMediaContent ::
  "MsgType \<Rightarrow> string \<Rightarrow> string \<Rightarrow> int \<Rightarrow> string \<Rightarrow> string option \<Rightarrow> OutContent" where
  "buildMediaContent msgType filename mimeType size' mxc file =
     (let content = (text_part_content filename)\<lparr>oc_MsgType := msgType, oc_FileName := filename,
                       oc_Info := Some (mimeType, size')\<rparr>;
          content = (case file of
                       Some u \<Rightarrow> content\<lparr>oc_File := Some (if u = [] \<and> mxc \<noteq> [] then mxc else u)\<rparr>
                     | None \<Rightarrow> content\<lparr>oc_URL := mxc\<rparr>)
      in if trim_space (oc_Body content) = [] then content\<lparr>oc_Body := ''file''\<rparr> else content)"

section \<open>Attachments into Matrix\<close>

text \<open>
  \<open>in_upload\<close> is \<open>intent.UploadMedia\<close>: from the number of the call, the room, the bytes, the file name and
  the MIME type to an MXC URI and perhaps an encrypted file.
\<close>

record inbound =
  in_out :: outside
  in_graph :: envs
  in_upload :: "nat \<Rightarrow> string \<Rightarrow> string \<Rightarrow> string \<Rightarrow> string \<Rightarrow> go_error + string \<times> string option"
  in_room :: string
  in_intent :: bool

record inbound_log =
  il_graph :: "exec_event list list"
  il_uploads :: "(string \<times> string \<times> string \<times> string) list"

abbreviation in_lib :: "inbound \<Rightarrow> golib" where "in_lib X \<equiv> o_lib (in_out X)"

definition attachment_part_id :: "nat \<Rightarrow> string" where
  "attachment_part_id i = ''att_'' @ format_int (int i)"

text \<open>One attachment: its media part, or \<open>None\<close> if it falls back to its share link.\<close>

definition reupload_one ::
  "inbound \<Rightarrow> GraphClient \<Rightarrow> extra \<Rightarrow> nat \<Rightarrow> TeamsAttachment \<Rightarrow> inbound_log
     \<Rightarrow> ConvertedPart option \<times> inbound_log" where
  "reupload_one X gc extra i att log =
     (let driveItemID = trim_space (ta_DriveItemID att)
      in if driveItemID = [] then (None, log)
         else case DownloadDriveItemContent (in_lib X) (in_graph X (length (il_graph log)))
                     (o_until (in_out X)) (Some gc) driveItemID of
           (Inl err, l) \<Rightarrow> (None, log\<lparr>il_graph := il_graph log @ l\<rparr>)
         | (Inr content, l) \<Rightarrow>
           (let log = log\<lparr>il_graph := il_graph log @ l\<rparr>
            in if dc_Bytes content = [] then (None, log)
               else
                 (let name = trim_space (ta_Filename att);
                      mimeType = detectMIMEType (in_lib X) (ta_Filename att) (dc_ContentType content)
                                   (dc_Bytes content);
                      result = in_upload X (length (il_uploads log)) (in_room X) (dc_Bytes content) name mimeType;
                      log = log\<lparr>il_uploads := il_uploads log @ [(in_room X, dc_Bytes content, name, mimeType)]\<rparr>
                  in case result of
                       Inl err \<Rightarrow> (None, log)
                     | Inr (mxc, file) \<Rightarrow>
                         (Some \<lparr>cp_ID = attachment_part_id i,
                            cp_Content = buildMediaContent (matrixMsgTypeForMIME (in_lib X) mimeType) name mimeType
                              (int (length (dc_Bytes content))) mxc file,
                            cp_Extra = extra\<rparr>, log))))"

fun reupload_loop ::
  "inbound \<Rightarrow> GraphClient \<Rightarrow> extra \<Rightarrow> nat \<Rightarrow> TeamsAttachment list \<Rightarrow> inbound_log
     \<Rightarrow> ConvertedPart list \<times> TeamsAttachment list \<times> inbound_log" where
  "reupload_loop X gc extra i [] log = ([], [], log)"
| "reupload_loop X gc extra i (att # atts) log =
     (case reupload_one X gc extra i att log of
        (r, log) \<Rightarrow>
          (case reupload_loop X gc extra (Suc i) atts log of
             (parts, fallback, log) \<Rightarrow>
               (case r of
                  Some part \<Rightarrow> (part # parts, fallback, log)
                | None \<Rightarrow> (parts, att # fallback, log))))"

definition inbound_graph_client :: "string \<Rightarrow> GraphClient" where
  "inbound_graph_client graphToken =
     (NewGraphClient True)\<lparr>gc_AccessToken := graphToken, gc_MaxUploadSize := MaxAttachmentBytesV0\<rparr>"

definition reuploadInboundAttachments ::
  "inbound \<Rightarrow> TeamsAttachment list \<Rightarrow> extra \<Rightarrow> Session \<Rightarrow> inbound_log
     \<Rightarrow> (ConvertedPart list \<times> TeamsAttachment list \<times> inbound_log) \<times> Session" where
  "reuploadInboundAttachments X attachments extra c log =
     (let E = in_out X
      in case ensureValidGraphToken (o_lib E) (o_http E) (o_clk E) (o_save_fault E) (o_config E) c of
           (Some err, c) \<Rightarrow> (([], attachments, log), c)
         | (None, c) \<Rightarrow>
           (case GetGraphAccessToken (se_Meta c) (o_now E) of
              Inl err \<Rightarrow> (([], attachments, log), c)
            | Inr graphToken \<Rightarrow>
                (reupload_loop X (inbound_graph_client graphToken) extra 0 attachments log, c)))"

definition convertTeamsMessage ::
  "inbound \<Rightarrow> RemoteMessage \<Rightarrow> Session option \<Rightarrow> inbound_log
     \<Rightarrow> ConvertedPart list \<times> Session option \<times> inbound_log" where
  "convertTeamsMessage X msg client log =
     (let L = in_lib X;
          attachments = (case ParseAttachments L (rm_PropertiesFiles msg) of None \<Rightarrow> [] | Some as \<Rightarrow> as);
          hasDriveItemID = list_ex (\<lambda>att. trim_space (ta_DriveItemID att) \<noteq> []) attachments
      in if \<not> hasDriveItemID \<or> \<not> in_intent X
         then (convertTeamsMessageLegacy L msg, client, log)
         else case client of
           None \<Rightarrow> (convertTeamsMessageLegacy L msg, client, log)
         | Some c \<Rightarrow>
           (let extra = perMessageExtra msg
            in case reuploadInboundAttachments X attachments extra c log of
                 ((mediaParts, fallback, log), c) \<Rightarrow>
                   (let rendered = renderInboundMessageWithGIFs (rm_Body msg) (rm_FormattedBody msg) fallback
                                     (rm_GIFs msg);
                        parts = mediaParts
                          @ (case buildCaptionPart ''caption'' rendered extra of Some p \<Rightarrow> [p] | None \<Rightarrow> [])
                    in (if parts = []
                        then [\<lparr>cp_ID = [], cp_Content = text_part_content '' '', cp_Extra = extra\<rparr>]
                        else parts, Some c, log))))"

section \<open>What trimming keeps\<close>

lemma trim_runes_keep:
  assumes "\<forall>r \<in> set rs. c \<notin> set r"
  shows "\<exists>p. trim_runes rs (pre @ c # post) = p @ c # post \<and> suffix p pre"
proof (induction "length pre" arbitrary: pre rule: less_induct)
  case less
  show ?case
  proof (cases "find (\<lambda>r. r \<noteq> [] \<and> prefix r (pre @ c # post)) rs")
    case None
    then show ?thesis by (subst trim_runes.simps) auto
  next
    case (Some r)
    then have r: "r \<in> set rs" "r \<noteq> []" "prefix r (pre @ c # post)" by (auto simp: find_Some_iff)
    have "prefix r pre"
      using r assms by (auto simp: prefix_append prefix_Cons)
    then obtain q where q: "pre = r @ q" by (auto simp: prefix_def)
    from less.hyps [of q] q r(2) obtain p where
      "trim_runes rs (q @ c # post) = p @ c # post" "suffix p q" by auto
    with Some q show ?thesis by (subst trim_runes.simps) (auto simp: suffix_appendI)
  qed
qed

lemma trim_left_keep: "solid c \<Longrightarrow> \<exists>p. trim_left (pre @ c # post) = p @ c # post \<and> suffix p pre"
  unfolding trim_left_def by (rule trim_runes_keep) (simp add: solid_def)

lemma trim_right_keep: "solid c \<Longrightarrow> \<exists>q. trim_right (pre @ c # post) = pre @ c # q \<and> prefix q post"
  using trim_runes_keep [of "map rev space_runes" c "rev post" "rev pre"]
  by (auto simp: trim_right_def solid_def suffix_to_prefix)

lemma trim_space_keep:
  assumes "sublist t s" and "t \<noteq> []" and "solid (hd t)" and "solid (last t)"
  shows "sublist t (trim_space s)"
proof -
  obtain pre post where s: "s = pre @ t @ post" using assms(1) by (auto simp: sublist_def)
  obtain p where l: "trim_left s = p @ t @ post"
    using trim_left_keep [OF assms(3), of pre "tl t @ post"] assms(2) s by (cases t) auto
  obtain q where "trim_right (p @ t @ post) = p @ t @ q"
    using trim_right_keep [OF assms(4), of "p @ butlast t" post] assms(2)
    by (metis append.assoc append_Cons append_Nil append_butlast_last_id)
  with l show ?thesis by (auto simp: trim_space_def)
qed

lemma opens_only_suffix: "opens_only W (p @ s) \<Longrightarrow> opens_only W s"
  by (induction p) auto

lemma opens_only_prefix:
  assumes "opens_only W (s @ z)" and "\<forall>w \<in> W. w \<noteq> [] \<and> solid (last w)" and "\<forall>c \<in> set z. \<not> solid c"
  shows "opens_only W s"
  using assms(1)
proof (induction s)
  case (Cons c s)
  have "\<exists>w \<in> W. prefix w s" if "w \<in> W" "prefix w (s @ z)" for w
  proof -
    from that(2) consider "prefix w s" | z' where "w = s @ z'" "prefix z' z" "z' \<noteq> []"
      by (cases "prefix w s") (auto simp: prefix_append)
    then show ?thesis
    proof cases
      case 2
      then have "last w \<in> set z" by (metis last_appendR last_in_set set_mono_prefix subsetD)
      with assms(2,3) that(1) show ?thesis by blast
    qed (use that(1) in blast)
  qed
  with Cons show ?case by auto
qed simp

lemma trimmed_away_right: "\<exists>z. s = trim_right s @ z \<and> (\<forall>c \<in> set z. \<not> solid c)"
proof -
  obtain z where z: "s = trim_right s @ z" using trim_right_prefix by (auto simp: prefix_def)
  have "\<not> solid c" if "c \<in> set z" for c
  proof
    assume "solid c"
    from that obtain z1 z2 where "z = z1 @ c # z2" by (auto simp: in_set_conv_decomp)
    with trim_right_keep [OF \<open>solid c\<close>, of "trim_right s @ z1" z2] z show False by auto
  qed
  with z show ?thesis by blast
qed

lemma opens_only_trim:
  assumes "opens_only W s" and "\<forall>w \<in> W. w \<noteq> [] \<and> solid (last w)"
  shows "opens_only W (trim_space s)"
proof -
  obtain p where "s = p @ trim_left s" using trim_left_suffix by (auto simp: suffix_def)
  with assms(1) have "opens_only W (trim_left s)" by (metis opens_only_suffix)
  moreover obtain z where "trim_left s = trim_right (trim_left s) @ z" "\<forall>c \<in> set z. \<not> solid c"
    using trimmed_away_right by blast
  ultimately show ?thesis using opens_only_prefix assms(2) by (metis trim_space_def)
qed

section \<open>Markup of the rendering\<close>

lemma tag_openers_solid: "\<forall>w \<in> tag_openers. w \<noteq> [] \<and> solid (last w)"
  by (auto simp: tag_openers_def solid_def space_runes_def)

lemmas opens_only_tagged = opens_only_trim [OF _ tag_openers_solid]

lemma opens_only_open:
  assumes "tag \<in> set allowedFormattedTags"
  shows "opens_only tag_openers (''<'' @ tag @ ''>'')" and "opens_only tag_openers (''</'' @ tag @ ''>'')"
proof -
  have no: "CHR ''<'' \<notin> set (tag @ ''>'')" "CHR ''<'' \<notin> set (''/'' @ tag @ ''>'')"
    using allowed_no_lt [OF assms] by auto
  have mem: "tag @ ''>'' \<in> tag_openers" "''/'' @ tag @ ''>'' \<in> tag_openers"
    using assms by (simp_all add: tag_openers_def)
  from opens_only_lt [OF mem(1) _ opens_only_no_lt [OF no(1)]] opens_only_lt [OF mem(2) _ opens_only_no_lt [OF no(2)]]
  show "opens_only tag_openers (''<'' @ tag @ ''>'')" "opens_only tag_openers (''</'' @ tag @ ''>'')" by simp_all
qed

lemma opens_only_items [simp]:
  "opens_only tag_openers ''<ul>''" "opens_only tag_openers ''</ul>''" "opens_only tag_openers ''<li>''"
  "opens_only tag_openers ''</li>''" "opens_only tag_openers ''</a>''" "opens_only tag_openers ''<br>''"
  "opens_only tag_openers (''<a href='' @ [CHR 0x22])" "opens_only tag_openers ([CHR 0x22] @ ''>'')"
proof -
  have anchor: "''a href='' @ [CHR 0x22] \<in> tag_openers" by (simp add: tag_openers_def)
  show "opens_only tag_openers (''<a href='' @ [CHR 0x22])"
    using opens_only_lt [OF anchor _ opens_only_no_lt] by simp
  show "opens_only tag_openers ([CHR 0x22] @ ''>'')" by (rule opens_only_no_lt) simp
qed (use opens_only_open [of "''ul''"] opens_only_open [of "''li''"] opens_only_open [of "''a''"] opens_only_open [of "''br''"]
  in \<open>simp_all add: allowedFormattedTags_def del: opens_only.simps\<close>)

lemma opens_only_texts [simp]:
  "opens_only tag_openers ''</a></li>''" "opens_only tag_openers ''<br><br>''"
  "opens_only tag_openers ''<li>Attachment: ''"
  "opens_only tag_openers (''<li>Attachment: <a href='' @ [CHR 0x22])"
  "opens_only tag_openers (''<li>GIF: <a href='' @ [CHR 0x22])"
proof -
  have texts: "opens_only tag_openers ''Attachment: ''" "opens_only tag_openers ''GIF: ''"
    by (simp_all add: opens_only_no_lt del: opens_only.simps)
  note app = opens_only_append [of tag_openers]
  show "opens_only tag_openers ''</a></li>''" using app [of "''</a>''" "''</li>''"] by (simp del: opens_only.simps)
  show "opens_only tag_openers ''<br><br>''" using app [of "''<br>''" "''<br>''"] by (simp del: opens_only.simps)
  show li: "opens_only tag_openers ''<li>Attachment: ''"
    using app [of "''<li>''" "''Attachment: ''"] texts by (simp del: opens_only.simps)
  show "opens_only tag_openers (''<li>Attachment: <a href='' @ [CHR 0x22])"
    using app [OF li opens_only_items(7)] by (simp del: opens_only.simps)
  have "opens_only tag_openers (''<li>'' @ ''GIF: '')" using app [of "''<li>''" "''GIF: ''"] texts by (simp del: opens_only.simps)
  from app [OF this opens_only_items(7)] show "opens_only tag_openers (''<li>GIF: <a href='' @ [CHR 0x22])"
    by (simp del: opens_only.simps)
qed

lemma opens_only_escaped [simp]: "opens_only tag_openers (escape_string s)"
  by (rule opens_only_no_lt [OF escape_no_lt])

lemma opens_only_attachment: "opens_only tag_openers (attachment_item a)"
proof -
  have "opens_only tag_openers ((''<li>Attachment: <a href='' @ [CHR 0x22]) @ escape_string (ta_ShareURL a)
      @ ([CHR 0x22] @ ''>'') @ escape_string (ta_Filename a) @ ''</a></li>'')"
    by (intro opens_only_append opens_only_items opens_only_texts opens_only_escaped)
  moreover have "opens_only tag_openers (''<li>Attachment: '' @ escape_string (ta_Filename a) @ ''</li>'')"
    by (intro opens_only_append opens_only_items opens_only_texts opens_only_escaped)
  ultimately show ?thesis by (simp add: attachment_item_def)
qed

lemma opens_only_gif: "opens_only tag_openers (gif_item g)"
proof -
  have "opens_only tag_openers ((''<li>GIF: <a href='' @ [CHR 0x22]) @ escape_string (gif_URL g)
      @ ([CHR 0x22] @ ''>'') @ escape_string (gif_Title g) @ ''</a></li>'')"
    by (intro opens_only_append opens_only_items opens_only_texts opens_only_escaped)
  then show ?thesis by (simp add: gif_item_def)
qed

lemma opens_only_list:
  "\<forall>x \<in> set xs. opens_only tag_openers (f x) \<Longrightarrow>
     opens_only tag_openers (''<ul>'' @ concat (map f xs) @ ''</ul>'')"
  by (intro opens_only_append opens_only_items opens_only_concat) (simp add: list_all_iff)

lemma opens_only_plainText: "opens_only tag_openers (plainTextToHTML s)"
proof -
  have "opens_only tag_openers (concat (map (\<lambda>c. if c = newline then ''<br>'' else [c]) t))"
    if "CHR ''<'' \<notin> set t" for t
  proof (intro opens_only_concat, unfold list_all_iff, intro ballI)
    fix x assume "x \<in> set (map (\<lambda>c. if c = newline then ''<br>'' else [c]) t)"
    then obtain c where "c \<in> set t" "x = (if c = newline then ''<br>'' else [c])" by auto
    with that show "opens_only tag_openers x" using opens_only_items(6) opens_only_no_lt [of "[c]"] by auto
  qed
  with escape_no_lt [of s] show ?thesis by (simp add: plainTextToHTML_def replace_all_byte)
qed

lemma opens_only_join:
  "\<forall>x \<in> set xs. opens_only W x \<Longrightarrow> opens_only W sep \<Longrightarrow> opens_only W (join xs sep)"
  by (induction xs sep rule: join.induct) (auto intro!: opens_only_append)

lemma opens_only_renderHTML:
  "opens_only tag_openers (renderAttachmentHTML atts)" "opens_only tag_openers (renderGIFHTML gifs)"
  by (auto simp: renderAttachmentHTML_def renderGIFHTML_def opens_only_attachment opens_only_gif
      simp del: opens_only.simps append.simps intro!: opens_only_list)

lemma opens_only_rendered:
  assumes "opens_only tag_openers formatted"
  shows "opens_only tag_openers (ri_FormattedBody (renderInboundMessageWithGIFs body formatted atts gifs))"
  using assms opens_only_renderHTML opens_only.simps(1)
  by (auto simp: renderInboundMessageWithGIFs_def Let_def simp del: opens_only.simps join.simps
      intro!: opens_only_join opens_only_tagged opens_only_plainText)

lemma sublist_appendR: "sublist x t \<Longrightarrow> sublist x (s @ t)"
  by (auto simp: sublist_def) (metis append.assoc)

lemma sublist_join: "x \<in> set xs \<Longrightarrow> sublist x (join xs sep)"
  by (induction xs sep rule: join.induct) (auto intro: sublist_appendR)

lemma item_in_rendered:
  assumes "a \<in> set atts"
  shows "sublist (attachment_item a)
    (trim_space (ri_FormattedBody (renderInboundMessageWithGIFs body formatted atts gifs)))"
proof (rule trim_space_keep)
  obtain xs ys where "atts = xs @ a # ys" using split_list [OF assms] by blast
  then have "renderAttachmentHTML atts = (''<ul>'' @ concat (map attachment_item xs)) @ attachment_item a
      @ concat (map attachment_item ys) @ ''</ul>''"
    by (simp add: renderAttachmentHTML_def)
  then have "sublist (attachment_item a) (renderAttachmentHTML atts)" unfolding sublist_def by blast
  moreover have "sublist (renderAttachmentHTML atts)
      (ri_FormattedBody (renderInboundMessageWithGIFs body formatted atts gifs))"
    using assms by (auto simp: renderInboundMessageWithGIFs_def Let_def simp del: join.simps intro!: sublist_join)
  ultimately show "sublist (attachment_item a)
      (ri_FormattedBody (renderInboundMessageWithGIFs body formatted atts gifs))"
    by (rule sublist_order.order.trans)
qed (simp_all add: attachment_item_def solid_def space_runes_def)

section \<open>The parts of a message\<close>

lemma content_of_body:
  "mc_Body (content_of L plain) = [] \<Longrightarrow> mc_FormattedBody (content_of L plain) = []"
  "trimmed (mc_Body (content_of L plain))"
proof -
  have "mc_Body (NormalizeMessageBody L raw) = [] \<longrightarrow> mc_FormattedBody (NormalizeMessageBody L raw) = []" for raw
    by (simp add: NormalizeMessageBody_def no_content_def Let_def split: option.split prod.split)
  moreover have "trimmed (mc_Body (NormalizeMessageBody L raw))" for raw
  proof -
    have "plain_normal []" by (simp add: plain_normal_def)
    then have "plain_normal (mc_Body (NormalizeMessageBody L raw))"
      using plain_normal_normalize
      by (auto simp: NormalizeMessageBody_def normalizeHTMLFragment_def no_content_def Let_def
          split: option.split prod.splits if_splits)
    then show ?thesis by (simp add: plain_normal_def)
  qed
  ultimately show "mc_Body (content_of L plain) = [] \<Longrightarrow> mc_FormattedBody (content_of L plain) = []"
    "trimmed (mc_Body (content_of L plain))"
    by (auto simp: content_of_def Let_def split: option.splits)
qed

lemma content_of_markup: "opens_only tag_openers (mc_FormattedBody (content_of L plain))"
proof -
  have "opens_only tag_openers (fst (renderFormattedNodes L [] False ns))" for ns
    using render_sanitize(2) [of L "[]" False ns] sanitize_ok(2) [of L ns]
    by (auto simp: list_all_iff intro!: opens_only_concat opens_only_serialize)
  then have html: "renderFormattedNodes L [] False ns = (h, r) \<Longrightarrow> opens_only tag_openers (trim_space h)" for ns h r
    using opens_only_tagged by (metis fst_conv)
  have "opens_only tag_openers (mc_FormattedBody (NormalizeMessageBody L raw))" for raw
    by (auto simp: NormalizeMessageBody_def normalizeHTMLFragment_def normalizeSanitizedHTML_def no_content_def Let_def
        dest: html split: option.split prod.splits if_splits)
  then show ?thesis by (simp add: content_of_def Let_def split: option.split)
qed

lemma ExtractContent_cases: "ExtractContent L content = no_content \<or> (\<exists>plain. ExtractContent L content = content_of L plain)"
  by (auto simp: ExtractContent_def split: option.split)

text \<open>What the bridge knows of the bodies of every message it has listed.\<close>

definition listed_bodies :: "RemoteMessage \<Rightarrow> bool" where
  "listed_bodies msg \<longleftrightarrow> trimmed (rm_Body msg) \<and> (rm_Body msg = [] \<longrightarrow> rm_FormattedBody msg = [])
     \<and> opens_only tag_openers (rm_FormattedBody msg)"

lemma listed_read_message: "listed_bodies ((read_message L q raw)\<lparr>rm_SenderName := name\<rparr>)"
  using ExtractContent_cases [of L "raw_Content raw"] content_of_body content_of_markup
  by (auto simp: listed_bodies_def read_message_def no_content_def Let_def)

lemma rendered_body_nonempty:
  assumes "trim_space body \<noteq> [] \<or> atts \<noteq> [] \<or> gifs \<noteq> []"
  shows "trim_space (ri_Body (renderInboundMessageWithGIFs body formatted atts gifs)) \<noteq> []"
proof (cases "atts = [] \<and> gifs = []")
  case True
  with assms show ?thesis by (simp add: renderInboundMessageWithGIFs_def Let_def)
next
  case False
  define sections where "sections =
    (if trim_space (trim_space body) \<noteq> [] then [trim_space body] else [])
    @ (if atts \<noteq> [] then [renderAttachmentBody atts] else []) @ (if gifs \<noteq> [] then [renderGIFBody gifs] else [])"
  have body: "ri_Body (renderInboundMessageWithGIFs body formatted atts gifs) = join sections [newline, newline]"
    using False by (auto simp: renderInboundMessageWithGIFs_def sections_def Let_def)
  have keep: "trim_space (join sections [newline, newline]) \<noteq> []" if "t \<in> set sections" "t = c # cs" "solid c" for t c cs
  proof -
    have "sublist [c] t" using that(2) by (auto simp: sublist_def intro: exI [of _ "[]"])
    then have "sublist [c] (join sections [newline, newline])"
      using sublist_join [OF that(1)] by (rule sublist_order.order.trans)
    from trim_space_keep [OF this] that(3) show ?thesis by auto
  qed
  have solid: "solid (CHR ''A'')" "solid (CHR ''G'')" by (simp_all add: solid_def space_runes_def)
  show ?thesis
  proof (cases atts)
    case (Cons a as)
    have "\<exists>cs. renderAttachmentBody atts = CHR ''A'' # cs"
      by (cases as) (simp_all add: Cons renderAttachmentBody_def attachment_line_def)
    moreover have "renderAttachmentBody atts \<in> set sections" by (simp add: sections_def Cons)
    ultimately show ?thesis using keep solid(1) body by metis
  next
    case Nil
    with False obtain g gs where g: "gifs = g # gs" by (cases gifs) auto
    have "\<exists>cs. renderGIFBody gifs = CHR ''G'' # cs"
      by (cases gs) (simp_all add: g renderGIFBody_def)
    moreover have "renderGIFBody gifs \<in> set sections" by (simp add: sections_def g)
    ultimately show ?thesis using keep solid(2) body by metis
  qed
qed

lemma listed_rendered:
  assumes "listed_bodies m"
    and "trim_space (ri_Body (renderInboundMessageWithGIFs (rm_Body m) (rm_FormattedBody m) atts gifs)) = []"
  shows "trim_space (ri_FormattedBody (renderInboundMessageWithGIFs (rm_Body m) (rm_FormattedBody m) atts gifs)) = []"
proof -
  from rendered_body_nonempty assms(2) have e: "trim_space (rm_Body m) = []" "atts = []" "gifs = []" by blast+
  with assms(1) have "rm_Body m = []" "rm_FormattedBody m = []" by (auto simp: listed_bodies_def trim_space_trimmed)
  with e show ?thesis by (simp add: renderInboundMessageWithGIFs_def Let_def)
qed

lemma rendered_content_simps:
  "body \<noteq> [] \<Longrightarrow> oc_Body (rendered_content body formatted) \<noteq> []"
  "oc_FormattedBody (rendered_content body formatted) = formatted"
  by (auto simp: rendered_content_def text_part_content_def Let_def)

lemma attachment_part_id_eq [simp]: "attachment_part_id i = attachment_part_id j \<longleftrightarrow> i = j"
  by (auto simp: attachment_part_id_def format_int_def) (metis digits_value_format_uint option.inject)

lemma attachment_part_id_not [simp]: "attachment_part_id i \<noteq> ''caption''" "attachment_part_id i \<noteq> []"
  by (simp_all add: attachment_part_id_def)

lemma buildMediaContent_simps [simp]:
  "oc_Body (buildMediaContent ty name mime n mxc file) = (if trim_space name = [] then ''file'' else name)"
  "oc_FormattedBody (buildMediaContent ty name mime n mxc file) = []"
  "oc_FileName (buildMediaContent ty name mime n mxc file) = name"
  "oc_Info (buildMediaContent ty name mime n mxc file) = Some (mime, n)"
  by (simp_all add: buildMediaContent_def text_part_content_def Let_def split: option.split)

text \<open>A media part of an attachment: its bytes were downloaded from Graph and uploaded to the room.\<close>

definition media_part :: "inbound \<Rightarrow> nat \<Rightarrow> TeamsAttachment \<Rightarrow> inbound_log \<Rightarrow> ConvertedPart \<Rightarrow> bool" where
  "media_part X i att log p \<longleftrightarrow>
     cp_ID p = attachment_part_id i \<and> oc_FileName (cp_Content p) = trim_space (ta_Filename att)
     \<and> (\<exists>b mime. b \<noteq> [] \<and> int (length b) \<le> MaxAttachmentBytesV0
          \<and> oc_Info (cp_Content p) = Some (mime, int (length b))
          \<and> (in_room X, b, trim_space (ta_Filename att), mime) \<in> set (il_uploads log))"

lemma download_bounded:
  "DownloadDriveItemContent L E until (Some gc) i = (Inr d, l) \<Longrightarrow> int (length (dc_Bytes d)) \<le> max_upload gc"
  by (auto simp: DownloadDriveItemContent_def graph_ready_def Let_def split: sum.splits if_splits prod.splits option.splits)

lemma max_upload_inbound: "max_upload (inbound_graph_client t) = MaxAttachmentBytesV0"
  by (simp add: max_upload_def inbound_graph_client_def MaxAttachmentBytesV0_def)

lemma reupload_one_part:
  assumes "reupload_one X (inbound_graph_client t) extra i att log = (r, log')"
  shows "set (il_uploads log) \<subseteq> set (il_uploads log')"
    and "r = Some p \<Longrightarrow> media_part X i att log' p \<and> oc_Body (cp_Content p) \<noteq> [] \<and> oc_FormattedBody (cp_Content p) = []"
  using assms
  by (auto simp: reupload_one_def media_part_def Let_def max_upload_inbound
      split: if_splits sum.splits prod.splits dest!: download_bounded)

lemma media_part_mono:
  "media_part X i att log p \<Longrightarrow> set (il_uploads log) \<subseteq> set (il_uploads log') \<Longrightarrow> media_part X i att log' p"
  unfolding media_part_def by blast

text \<open>Every attachment gives a media part or falls back, and the parts are numbered as the attachments are.\<close>

definition parts_ok :: "inbound \<Rightarrow> nat \<Rightarrow> TeamsAttachment list \<Rightarrow> inbound_log \<Rightarrow> ConvertedPart list
     \<times> TeamsAttachment list \<times> inbound_log \<Rightarrow> bool" where
  "parts_ok X i atts log = (\<lambda>(parts, fallback, log').
     set (il_uploads log) \<subseteq> set (il_uploads log')
     \<and> (\<forall>k < length atts. atts ! k \<in> set fallback \<or> (\<exists>p \<in> set parts. media_part X (i + k) (atts ! k) log' p))
     \<and> (\<forall>p \<in> set parts. (\<exists>k \<ge> i. cp_ID p = attachment_part_id k) \<and> oc_Body (cp_Content p) \<noteq> []
          \<and> oc_FormattedBody (cp_Content p) = [])
     \<and> distinct (map cp_ID parts))"

lemma parts_ok_Cons:
  assumes one: "reupload_one X (inbound_graph_client t) extra i att log = (r, log1)"
    and rest: "parts_ok X (Suc i) atts log1 (ps, fs, log')"
  shows "parts_ok X i (att # atts) log
    (case r of Some p \<Rightarrow> (p # ps, fs, log') | None \<Rightarrow> (ps, att # fs, log'))"
proof -
  have uploads: "set (il_uploads log) \<subseteq> set (il_uploads log')"
    using rest reupload_one_part(1) [OF one] by (auto simp: parts_ok_def)
  have indexed: "\<forall>k < length atts. atts ! k \<in> set fs \<or> (\<exists>p \<in> set ps. media_part X (Suc (i + k)) (atts ! k) log' p)"
    and ids: "\<forall>p \<in> set ps. (\<exists>k \<ge> Suc i. cp_ID p = attachment_part_id k) \<and> oc_Body (cp_Content p) \<noteq> []
          \<and> oc_FormattedBody (cp_Content p) = []" and dist: "distinct (map cp_ID ps)"
    using rest by (simp_all add: parts_ok_def)
  from ids have ids': "\<forall>p \<in> set ps. (\<exists>k \<ge> i. cp_ID p = attachment_part_id k) \<and> oc_Body (cp_Content p) \<noteq> []
      \<and> oc_FormattedBody (cp_Content p) = []" by (meson Suc_leD)
  show ?thesis
  proof (cases r)
    case None
    with uploads indexed ids' dist show ?thesis by (simp add: parts_ok_def All_less_Suc2)
  next
    case (Some p)
    note p = reupload_one_part(2) [OF one Some]
    have m: "media_part X i att log' p" using p rest by (auto simp: parts_ok_def intro: media_part_mono)
    then have i: "cp_ID p = attachment_part_id i" by (simp add: media_part_def)
    then have "cp_ID p \<notin> cp_ID ` set ps" using ids by fastforce
    with Some uploads indexed ids' dist m i p show ?thesis by (simp add: parts_ok_def All_less_Suc2) blast
  qed
qed

lemma reupload_loop_parts:
  "parts_ok X i atts log (reupload_loop X (inbound_graph_client t) extra i atts log)"
proof (induction atts arbitrary: i log)
  case Nil
  show ?case by (simp add: parts_ok_def)
next
  case (Cons att atts)
  obtain r log1 where one: "reupload_one X (inbound_graph_client t) extra i att log = (r, log1)"
    by (cases "reupload_one X (inbound_graph_client t) extra i att log")
  obtain ps fs log' where rest: "reupload_loop X (inbound_graph_client t) extra (Suc i) atts log1 = (ps, fs, log')"
    by (cases "reupload_loop X (inbound_graph_client t) extra (Suc i) atts log1")
  from parts_ok_Cons [OF one] Cons.IH [of "Suc i" log1] show ?case by (simp add: one rest)
qed

lemma reuploadInboundAttachments_parts:
  "parts_ok X 0 atts log (fst (reuploadInboundAttachments X atts extra c log))"
proof -
  have "parts_ok X 0 atts log ([], atts, log)" by (simp add: parts_ok_def)
  with reupload_loop_parts show ?thesis
    by (simp add: reuploadInboundAttachments_def Let_def split: option.split sum.split prod.split)
qed

lemma buildCaptionPart_simps:
  assumes "buildCaptionPart i rendered extra = Some p"
  shows "cp_ID p = i" and "oc_Body (cp_Content p) \<noteq> []"
    and "oc_FormattedBody (cp_Content p) = trim_space (ri_FormattedBody rendered)"
  using assms by (auto simp: buildCaptionPart_def Let_def rendered_content_simps split: if_splits)

section \<open>Properties\<close>

text \<open>
  C8: every message can be shown. Whatever was listed from Teams, whatever the downloads and uploads return,
  the conversion gives at least one part; no two parts have the same ID, no body is empty, and every
  \<open><\<close> of a formatted body starts one of the tags that the sanitiser allows.
\<close>

theorem conversion_wellformed:
  "case convertTeamsMessage X ((read_message L q raw)\<lparr>rm_SenderName := name\<rparr>) client log of (parts, _) \<Rightarrow>
     parts \<noteq> [] \<and> distinct (map cp_ID parts)
     \<and> list_all (\<lambda>p. oc_Body (cp_Content p) \<noteq> [] \<and> opens_only tag_openers (oc_FormattedBody (cp_Content p))) parts"
proof -
  let ?msg = "(read_message L q raw)\<lparr>rm_SenderName := name\<rparr>"
  have listed: "listed_bodies ?msg" by (rule listed_read_message)
  have markup: "opens_only tag_openers (trim_space (ri_FormattedBody
      (renderInboundMessageWithGIFs (rm_Body ?msg) (rm_FormattedBody ?msg) atts (rm_GIFs ?msg))))" for atts
    using listed by (intro opens_only_tagged opens_only_rendered) (simp add: listed_bodies_def)
  note body = listed_rendered [OF listed]
  have legacy: "\<exists>p. convertTeamsMessageLegacy L' ?msg = [p] \<and> oc_Body (cp_Content p) \<noteq> []
      \<and> opens_only tag_openers (oc_FormattedBody (cp_Content p))" for L'
    using markup body by (simp add: convertTeamsMessageLegacy_def Let_def rendered_content_simps)
  show ?thesis
  proof (cases "list_ex (\<lambda>att. trim_space (ta_DriveItemID att) \<noteq> [])
      (case ParseAttachments (in_lib X) (rm_PropertiesFiles ?msg) of None \<Rightarrow> [] | Some as \<Rightarrow> as)
      \<and> in_intent X \<and> client \<noteq> None")
    case False
    then have "fst (convertTeamsMessage X ?msg client log) = convertTeamsMessageLegacy (in_lib X) ?msg"
      by (cases client) (auto simp: convertTeamsMessage_def Let_def simp del: RemoteMessage.simps)
    with legacy [of "in_lib X"] show ?thesis by (auto simp: split_beta)
  next
    case True
    then obtain c where c: "client = Some c" by auto
    let ?atts = "case ParseAttachments (in_lib X) (rm_PropertiesFiles ?msg) of None \<Rightarrow> [] | Some as \<Rightarrow> as"
    obtain ms fs log' c' where run:
      "reuploadInboundAttachments X ?atts (perMessageExtra ?msg) c log = ((ms, fs, log'), c')"
      by (metis prod.exhaust)
    with reuploadInboundAttachments_parts [of X ?atts log "perMessageExtra ?msg" c]
    have ok: "parts_ok X 0 ?atts log (ms, fs, log')" by simp
    let ?cap = "buildCaptionPart ''caption'' (renderInboundMessageWithGIFs (rm_Body ?msg) (rm_FormattedBody ?msg) fs
      (rm_GIFs ?msg)) (perMessageExtra ?msg)"
    have conv: "fst (convertTeamsMessage X ?msg client log) =
      (let parts = ms @ (case ?cap of Some p \<Rightarrow> [p] | None \<Rightarrow> [])
       in if parts = [] then [\<lparr>cp_ID = [], cp_Content = text_part_content '' '', cp_Extra = perMessageExtra ?msg\<rparr>]
          else parts)"
      using True run c by (simp add: convertTeamsMessage_def Let_def)
    have "''caption'' \<noteq> cp_ID p" if "p \<in> set ms" for p
      using ok that attachment_part_id_not(1) by (fastforce simp: parts_ok_def)
    then have "''caption'' \<notin> cp_ID ` set ms" by blast
    then have "(\<lambda>parts. parts \<noteq> [] \<and> distinct (map cp_ID parts) \<and> list_all (\<lambda>p. oc_Body (cp_Content p) \<noteq> []
        \<and> opens_only tag_openers (oc_FormattedBody (cp_Content p))) parts) (fst (convertTeamsMessage X ?msg client log))"
      unfolding conv using ok markup buildCaptionPart_simps
      by (cases ?cap) (auto simp: parts_ok_def Let_def list_all_iff text_part_content_def)
    then show ?thesis by (simp add: split_beta)
  qed
qed


text \<open>A message with one file.\<close>

definition files_lib :: golib where
  "files_lib = plain_lib\<lparr>lib_json := \<lambda>_. Some (JArray [([], JObject [(''fileName'', [], JString ''f''),
     (''fileInfo'', [], JObject [(''itemId'', [], JString ''i''), (''shareUrl'', [], JString ''u'')])])])\<rparr>"

definition sample_inbound :: inbound where
  "sample_inbound = \<lparr>in_out = (poll_outside (\<lambda>_ xs. xs))\<lparr>o_lib := files_lib\<rparr>,
     in_graph = \<lambda>_. replying (body_reply 200 ''item''), in_upload = \<lambda>_ _ _ _ _. Inr (''mxc'', None),
     in_room = ''!r'', in_intent = True\<rparr>"

definition file_message :: RemoteMessage where
  "file_message = (posted ''a'' ''9'')\<lparr>rm_PropertiesFiles := ''files''\<rparr>"


text \<open>
  The file extension never decides. If sniffing gives a type for every non-empty file (as
  \<open>http.DetectContentType\<close> does), then the MIME type does not depend on the file name: the lookup by
  extension, which the function has as its last resort, is dead code.
\<close>

theorem extension_never_consulted:
  assumes "data \<noteq> []" and "normalizeContentType (lib_sniff L data) \<noteq> []"
  shows "detectMIMEType L filename header data = detectMIMEType L filename' header data"
  using assms by (simp add: detectMIMEType_def Let_def)

theorem extension_never_consulted_witness:
  "detectMIMEType (plain_lib\<lparr>lib_sniff := \<lambda>_. ''application/zip''\<rparr>) ''a.docx'' [] ''PK'' =
   detectMIMEType (plain_lib\<lparr>lib_sniff := \<lambda>_. ''application/zip''\<rparr>) ''a.zip'' [] ''PK''"
proof -
  have "normalizeContentType ''application/zip'' \<noteq> []" by code_simp
  then show ?thesis by (intro extension_never_consulted) simp_all
qed

text \<open>
  The HTML fallback of the legacy conversion is dead code. Its plain body is the trimmed rendered body
  or, when both bodies are empty, a space; a message with only a formatted body would get an empty plain
  body instead of the stripped text.
\<close>

theorem legacy_fallback_dead:
  "map (\<lambda>p. oc_Body (cp_Content p)) (convertTeamsMessageLegacy L msg) =
     (let atts = (case ParseAttachments L (rm_PropertiesFiles msg) of None \<Rightarrow> [] | Some as \<Rightarrow> as);
          rendered = renderInboundMessageWithGIFs (rm_Body msg) (rm_FormattedBody msg) atts (rm_GIFs msg);
          body = trim_space (ri_Body rendered)
      in [if body = [] \<and> trim_space (ri_FormattedBody rendered) = [] then '' '' else body])"
proof -
  have "trim_space s \<noteq> '' ''" for s
  proof
    assume "trim_space s = '' ''"
    then have "trimmed '' ''" by (metis trimmed_trim_space)
    then show False by (simp add: trimmed_def space_runes_def)
  qed
  then show ?thesis
    by (auto simp: convertTeamsMessageLegacy_def rendered_content_def text_part_content_def Let_def)
qed

end
