(* ===== verification/Cookies.thy ===== *)
theory Cookies
  imports "HOL-Library.AList" "HOL-Library.Multiset" Message StateFile
begin

text \<open>
  The cookie store: \<open>internal/teams/auth/cookies.go\<close> and the tracking transport of \<open>client.go\<close>.

  The cookie jar of the standard library is a type variable with its two operations as parameters. The
  recorder beside it keeps, per origin, a Go map from keys to cookies: an association list with distinct
  keys. The order in which \<open>Save\<close> visits the two maps is a parameter, as is the clock, which every recorded
  cookie reads anew.
\<close>

section \<open>Cookies and origins\<close>

record cookie =
  ck_Name :: string
  ck_Value :: string
  ck_Domain :: string
  ck_Path :: string
  ck_Expires :: instant
  ck_MaxAge :: int
  ck_Secure :: bool
  ck_HttpOnly :: bool

record storedCookie =
  sc_Name :: string
  sc_Value :: string
  sc_Domain :: string
  sc_Path :: string
  sc_ExpiresUnix :: int
  sc_Secure :: bool
  sc_HTTPOnly :: bool

type_synonym recorded = "(string \<times> storedCookie) list"

record 'j CookieStore =
  cs_jar :: 'j
  cs_byOrigin :: "string \<Rightarrow> recorded option"
  cs_origins :: "string list"

definition NewCookieStore :: "'j \<Rightarrow> 'j CookieStore" where
  "NewCookieStore jar = \<lparr>cs_jar = jar, cs_byOrigin = (\<lambda>_. None), cs_origins = []\<rparr>"

definition defaultAllowedHosts :: "string list" where
  "defaultAllowedHosts = [''login.live.com'', ''login.microsoftonline.com'', ''teams.live.com'']"

definition defaultAllowedSuffixes :: "string list" where
  "defaultAllowedSuffixes = [''.skype.com'', ''.teams.live.com'']"

definition hostAllowed :: "golib \<Rightarrow> string \<Rightarrow> bool" where
  "hostAllowed L host =
     (if host = [] then False
      else
        (let host = lower L host
         in if host \<in> set defaultAllowedHosts then True
            else list_ex (has_suffix host) defaultAllowedSuffixes))"

text \<open>\<open>URL.Hostname\<close>: without a port and without the brackets of an IPv6 address.\<close>

definition url_hostname :: "url \<Rightarrow> string" where
  "url_hostname u =
     (let hp = url_host u;
          host = (case last_index_byte hp (CHR '':'') of
                    None \<Rightarrow> hp
                  | Some i \<Rightarrow> if list_all is_digit (drop (Suc i) hp) then take i hp else hp)
      in if has_prefix host ''['' \<and> has_suffix host '']'' then butlast (tl host) else host)"

definition originFromURL :: "url \<Rightarrow> string" where
  "originFromURL u =
     (let scheme = (if url_scheme u = [] then ''https'' else url_scheme u) in scheme @ ''://'' @ url_host u)"

definition cookieKey :: "cookie \<Rightarrow> string" where
  "cookieKey c = join [ck_Name c, ck_Domain c, ck_Path c] ''|''"

section \<open>The recorder\<close>

definition stored :: "cookie \<Rightarrow> storedCookie" where
  "stored c =
     \<lparr>sc_Name = ck_Name c, sc_Value = ck_Value c, sc_Domain = ck_Domain c,
      sc_Path = (if ck_Path c = [] then ''/'' else ck_Path c),
      sc_ExpiresUnix = (if ck_Expires c \<noteq> zero_time then to_unix (ck_Expires c) else 0),
      sc_Secure = ck_Secure c, sc_HTTPOnly = ck_HttpOnly c\<rparr>"

definition deletes :: "instant \<Rightarrow> cookie \<Rightarrow> bool" where
  "deletes now c \<longleftrightarrow> ck_MaxAge c < 0 \<or> (ck_Expires c \<noteq> zero_time \<and> ck_Expires c < now)"

definition record_cookie :: "instant \<Rightarrow> cookie \<Rightarrow> recorded \<Rightarrow> recorded" where
  "record_cookie now c m =
     (if ck_Name c = [] then m
      else if deletes now c then AList.delete (cookieKey c) m
      else AList.update (cookieKey c) (stored c) m)"

primrec record_all :: "(nat \<Rightarrow> instant) \<Rightarrow> cookie list \<Rightarrow> recorded \<Rightarrow> recorded" where
  "record_all clock [] m = m"
| "record_all clock (c # cs) m = record_all (\<lambda>i. clock (Suc i)) cs (record_cookie (clock 0) c m)"

definition cookies_of :: "(string \<Rightarrow> recorded option) \<Rightarrow> string \<Rightarrow> recorded" where
  "cookies_of b origin = (case b origin of None \<Rightarrow> [] | Some m \<Rightarrow> m)"

definition jar_record ::
  "(nat \<Rightarrow> instant) \<Rightarrow> url \<Rightarrow> cookie list \<Rightarrow> (string \<Rightarrow> recorded option) \<Rightarrow> string \<Rightarrow> recorded option"
where
  "jar_record clock u cookies b =
     (if url_host u = [] then b
      else
        (let origin = originFromURL u
         in b(origin \<mapsto> record_all clock cookies (cookies_of b origin))))"

definition SetCookies ::
  "(url \<Rightarrow> cookie list \<Rightarrow> 'j \<Rightarrow> 'j) \<Rightarrow> (nat \<Rightarrow> instant) \<Rightarrow> url \<Rightarrow> cookie list \<Rightarrow> 'j CookieStore
     \<Rightarrow> 'j CookieStore" where
  "SetCookies jar_set clock u cookies s =
     s\<lparr>cs_byOrigin := jar_record clock u cookies (cs_byOrigin s), cs_jar := jar_set u cookies (cs_jar s)\<rparr>"

definition jar_Cookies :: "(url \<Rightarrow> 'j \<Rightarrow> cookie list) \<Rightarrow> url \<Rightarrow> 'j CookieStore \<Rightarrow> cookie list" where
  "jar_Cookies jar_get u s = jar_get u (cs_jar s)"

definition snapshot :: "(storedCookie list \<Rightarrow> storedCookie list) \<Rightarrow> string \<Rightarrow> 'j CookieStore \<Rightarrow> storedCookie list"
where
  "snapshot visit origin s = visit (map snd (cookies_of (cs_byOrigin s) origin))"

definition TrackURL :: "url option \<Rightarrow> 'j CookieStore \<Rightarrow> 'j CookieStore" where
  "TrackURL u s =
     (case u of None \<Rightarrow> s
      | Some u \<Rightarrow> if url_host u = [] then s else s\<lparr>cs_origins := List.insert (originFromURL u) (cs_origins s)\<rparr>)"

definition TrackRequest :: "golib \<Rightarrow> request option \<Rightarrow> 'j CookieStore \<Rightarrow> 'j CookieStore" where
  "TrackRequest L req s = (case req of None \<Rightarrow> s | Some r \<Rightarrow> TrackURL (lib_url L (req_url r)) s)"

text \<open>The transport of the client, which tracks every request before it is sent.\<close>

definition RoundTrip ::
  "golib \<Rightarrow> exchange \<Rightarrow> request \<Rightarrow> 'j CookieStore option \<Rightarrow> (net_error + response) \<times> 'j CookieStore option" where
  "RoundTrip L base req store = (base req, map_option (TrackRequest L (Some req)) store)"

section \<open>Saving\<close>

definition omit_bool :: "string \<Rightarrow> bool \<Rightarrow> (string \<times> json) list" where
  "omit_bool name b = (if b then [(name, JBool True)] else [])"

definition cookie_tree :: "storedCookie \<Rightarrow> json" where
  "cookie_tree c = json_map
     ([(''name'', JString (sc_Name c)), (''value'', JString (sc_Value c))]
      @ omit_string ''domain'' (sc_Domain c) @ omit_string ''path'' (sc_Path c)
      @ omit_int ''expires_unix'' (sc_ExpiresUnix c) @ omit_bool ''secure'' (sc_Secure c)
      @ omit_bool ''http_only'' (sc_HTTPOnly c))"

text \<open>A nil slice is marshalled as \<open>null\<close>.\<close>

definition slice_tree :: "('a \<Rightarrow> json) \<Rightarrow> 'a list \<Rightarrow> json" where
  "slice_tree f xs = (if xs = [] then JNull else JArray (map (\<lambda>x. ([], f x)) xs))"

definition origin_tree :: "string \<times> storedCookie list \<Rightarrow> json" where
  "origin_tree e = json_map [(''origin'', JString (fst e)), (''cookies'', slice_tree cookie_tree (snd e))]"

definition store_tree :: "(string \<times> storedCookie list) list \<Rightarrow> json" where
  "store_tree entries = json_map [(''origins'', slice_tree origin_tree entries)]"

definition save_entry ::
  "golib \<Rightarrow> (storedCookie list \<Rightarrow> storedCookie list) \<Rightarrow> 'j CookieStore \<Rightarrow> string
     \<Rightarrow> (string \<times> storedCookie list) list" where
  "save_entry L visit s origin =
     (case lib_url L origin of None \<Rightarrow> []
      | Some parsed \<Rightarrow>
          if url_host parsed = [] then []
          else if \<not> hostAllowed L (url_hostname parsed) then []
          else
            (let originCookies = snapshot visit origin s
             in if originCookies = [] then [] else [(origin, originCookies)]))"

definition save_entries ::
  "golib \<Rightarrow> (string list \<Rightarrow> string list) \<Rightarrow> (storedCookie list \<Rightarrow> storedCookie list) \<Rightarrow> 'j CookieStore
     \<Rightarrow> (string \<times> storedCookie list) list" where
  "save_entries L ord visit s = concat (map (save_entry L visit s) (ord (cs_origins s)))"

definition CookieStore_Save ::
  "golib \<Rightarrow> osys \<Rightarrow> (string list \<Rightarrow> string list) \<Rightarrow> (storedCookie list \<Rightarrow> storedCookie list) \<Rightarrow> string
     \<Rightarrow> 'j CookieStore \<Rightarrow> disk list \<Rightarrow> go_error option \<times> disk list" where
  "CookieStore_Save L OS ord visit path s h =
     (let data = os_indent OS (store_tree (save_entries L ord visit s))
      in case os_mkdir OS (filepath_dir path) of Some err \<Rightarrow> (Some err, h)
         | None \<Rightarrow> writeFileAtomic OS path data 0x180 h)"

section \<open>Loading\<close>

definition cookie_members :: "(string \<times> storedCookie member) list" where
  "cookie_members =
     [(''name'', put_string sc_Name_update), (''value'', put_string sc_Value_update),
      (''domain'', put_string sc_Domain_update), (''path'', put_string sc_Path_update),
      (''expires_unix'', put_int64 sc_ExpiresUnix_update), (''secure'', put_bool sc_Secure_update),
      (''http_only'', put_bool sc_HTTPOnly_update)]"

definition no_cookie :: storedCookie where
  "no_cookie = \<lparr>sc_Name = [], sc_Value = [], sc_Domain = [], sc_Path = [], sc_ExpiresUnix = 0,
     sc_Secure = False, sc_HTTPOnly = False\<rparr>"

record origin_entry =
  oe_Origin :: string
  oe_Cookies :: "storedCookie list"

definition origin_members :: "golib \<Rightarrow> (string \<times> origin_entry member) list" where
  "origin_members L =
     [(''origin'', put_string oe_Origin_update),
      (''cookies'', put_list (\<lambda>v. decode_struct L cookie_members v no_cookie) oe_Cookies_update)]"

definition store_members :: "golib \<Rightarrow> (string \<times> origin_entry list member) list" where
  "store_members L =
     [(''origins'', put_list (\<lambda>v. decode_struct L (origin_members L) v \<lparr>oe_Origin = [], oe_Cookies = []\<rparr>) (\<lambda>f. f))]"

definition load_cookie :: "storedCookie \<Rightarrow> cookie" where
  "load_cookie c =
     \<lparr>ck_Name = sc_Name c, ck_Value = sc_Value c, ck_Domain = sc_Domain c,
      ck_Path = (if sc_Path c = [] then ''/'' else sc_Path c),
      ck_Expires = (if sc_ExpiresUnix c \<noteq> 0 then from_unix (sc_ExpiresUnix c) else zero_time),
      ck_MaxAge = 0, ck_Secure = sc_Secure c, ck_HttpOnly = sc_HTTPOnly c\<rparr>"

definition load_entry ::
  "golib \<Rightarrow> (url \<Rightarrow> cookie list \<Rightarrow> 'j \<Rightarrow> 'j) \<Rightarrow> (nat \<Rightarrow> instant) \<Rightarrow> origin_entry \<Rightarrow> 'j CookieStore
     \<Rightarrow> 'j CookieStore" where
  "load_entry L jar_set clock e s =
     (case lib_url L (oe_Origin e) of None \<Rightarrow> s
      | Some parsed \<Rightarrow>
          if url_host parsed = [] then s
          else
            (let cookies = map load_cookie (oe_Cookies e);
                 s = (if cookies \<noteq> [] then SetCookies jar_set clock parsed cookies s else s)
             in s\<lparr>cs_origins := List.insert (originFromURL parsed) (cs_origins s)\<rparr>))"

primrec load_entries ::
  "golib \<Rightarrow> (url \<Rightarrow> cookie list \<Rightarrow> 'j \<Rightarrow> 'j) \<Rightarrow> (nat \<Rightarrow> nat \<Rightarrow> instant) \<Rightarrow> origin_entry list \<Rightarrow> 'j CookieStore
     \<Rightarrow> 'j CookieStore" where
  "load_entries L jar_set clock [] s = s"
| "load_entries L jar_set clock (e # es) s =
     load_entries L jar_set (\<lambda>i. clock (Suc i)) es (load_entry L jar_set (clock 0) e s)"

definition CookieStore_Load ::
  "golib \<Rightarrow> osys \<Rightarrow> (url \<Rightarrow> cookie list \<Rightarrow> 'j \<Rightarrow> 'j) \<Rightarrow> (nat \<Rightarrow> nat \<Rightarrow> instant) \<Rightarrow> string \<Rightarrow> disk
     \<Rightarrow> 'j CookieStore \<Rightarrow> go_error option \<times> 'j CookieStore" where
  "CookieStore_Load L OS jar_set clock path d s =
     (case ReadFile OS path d of
        Inl None \<Rightarrow> (None, s)
      | Inl (Some err) \<Rightarrow> (Some err, s)
      | Inr data \<Rightarrow>
        (case Option.bind (lib_json L data) (\<lambda>v. decode_struct L (store_members L) v []) of
           None \<Rightarrow> (Some (ErrNew ''json''), s)
         | Some entries \<Rightarrow> (None, load_entries L jar_set clock entries s)))"

definition LoadCookieStore ::
  "golib \<Rightarrow> osys \<Rightarrow> 'j \<Rightarrow> (url \<Rightarrow> cookie list \<Rightarrow> 'j \<Rightarrow> 'j) \<Rightarrow> (nat \<Rightarrow> nat \<Rightarrow> instant) \<Rightarrow> string \<Rightarrow> disk
     \<Rightarrow> go_error + 'j CookieStore" where
  "LoadCookieStore L OS jar jar_set clock path d =
     (case CookieStore_Load L OS jar_set clock path d (NewCookieStore jar) of
        (Some err, _) \<Rightarrow> Inl err
      | (None, s) \<Rightarrow> Inr s)"

section \<open>What is recorded and saved\<close>

lemma map_of_record_cookie:
  "map_of (record_cookie now c m) =
     (if ck_Name c = [] then map_of m
      else (map_of m)(cookieKey c := if deletes now c then None else Some (stored c)))"
  by (simp add: record_cookie_def update_conv' delete_conv')

lemma record_all_append:
  "record_all clock (cs @ ds) m = record_all (\<lambda>i. clock (i + length cs)) ds (record_all clock cs m)"
  by (induction cs arbitrary: clock m) (simp_all add: comp_def)

lemma record_all_others:
  "list_all (\<lambda>d. ck_Name d = [] \<or> cookieKey d \<noteq> k) ds
    \<Longrightarrow> map_of (record_all clock ds m) k = map_of m k"
  by (induction ds arbitrary: clock m) (auto simp: map_of_record_cookie)

text \<open>
  Of all the cookies an origin sets, the recorder keeps for a key the last one, or nothing if that one
  deletes the cookie or has expired when it is set.
\<close>

theorem recorder_keeps_last:
  assumes "ck_Name c \<noteq> []" and "list_all (\<lambda>d. ck_Name d = [] \<or> cookieKey d \<noteq> cookieKey c) ds"
  shows "map_of (record_all clock (cs @ c # ds) m) (cookieKey c) =
    (if deletes (clock (length cs)) c then None else Some (stored c))"
  using assms by (simp add: record_all_append record_all_others map_of_record_cookie)

definition sample_cookie :: cookie where
  "sample_cookie = \<lparr>ck_Name = ''a'', ck_Value = ''1'', ck_Domain = [], ck_Path = ''/'', ck_Expires = zero_time,
     ck_MaxAge = 0, ck_Secure = True, ck_HttpOnly = False\<rparr>"

theorem recorder_keeps_last_witness:
  "map_of (record_all (\<lambda>_. 0) [sample_cookie, sample_cookie\<lparr>ck_Value := ''2''\<rparr>, sample_cookie\<lparr>ck_Name := ''b''\<rparr>] [])
     (cookieKey sample_cookie) = Some (stored (sample_cookie\<lparr>ck_Value := ''2''\<rparr>))"
  using recorder_keeps_last [of "sample_cookie\<lparr>ck_Value := ''2''\<rparr>" "[sample_cookie\<lparr>ck_Name := ''b''\<rparr>]" "\<lambda>_. 0" "[sample_cookie]" "[]"]
  by (simp add: sample_cookie_def cookieKey_def deletes_def)

text \<open>
  The stores that come about by responses, requests and saved files, with the cookies offered so far for
  each origin.
\<close>

inductive store_reach ::
  "golib \<Rightarrow> (url \<Rightarrow> cookie list \<Rightarrow> 'j \<Rightarrow> 'j) \<Rightarrow> (string \<times> cookie) set \<Rightarrow> 'j CookieStore \<Rightarrow> bool"
  for L jar_set where
  new: "store_reach L jar_set {} (NewCookieStore jar)"
| response: "store_reach L jar_set G s
    \<Longrightarrow> store_reach L jar_set (G \<union> {originFromURL u} \<times> set cs) (SetCookies jar_set clock u cs s)"
| request: "store_reach L jar_set G s \<Longrightarrow> store_reach L jar_set G (TrackRequest L req s)"
| loaded: "store_reach L jar_set G s \<Longrightarrow> lib_url L (oe_Origin e) = Some u
    \<Longrightarrow> store_reach L jar_set (G \<union> {originFromURL u} \<times> set (map load_cookie (oe_Cookies e)))
         (load_entry L jar_set clock e s)"

definition genuine :: "(string \<times> cookie) set \<Rightarrow> (string \<Rightarrow> recorded option) \<Rightarrow> bool" where
  "genuine G b \<longleftrightarrow> (\<forall>origin. \<forall>(k, sc) \<in> set (cookies_of b origin).
     \<exists>c. (origin, c) \<in> G \<and> ck_Name c \<noteq> [] \<and> k = cookieKey c \<and> sc = stored c)"

lemma set_record_cookie:
  "set (record_cookie now c m) \<subseteq> set m \<union> (if ck_Name c = [] then {} else {(cookieKey c, stored c)})"
proof -
  have "set (AList.update k v m) \<subseteq> insert (k, v) (set m)" for k :: string and v
    by (induction m) auto
  moreover have "set (AList.delete k m) \<subseteq> insert (k, v) (set m)" for k :: string and v
    by (auto simp: AList.delete_eq)
  ultimately show ?thesis by (auto simp: record_cookie_def AList.delete_eq)
qed

lemma set_record_all:
  "set (record_all clock cs m) \<subseteq> set m \<union> {(cookieKey c, stored c) | c. c \<in> set cs \<and> ck_Name c \<noteq> []}"
proof (induction cs arbitrary: clock m)
  case (Cons c cs)
  from Cons.IH [of "\<lambda>i. clock (Suc i)" "record_cookie (clock 0) c m"] set_record_cookie [of "clock 0" c m]
  show ?case by (auto split: if_splits)
qed simp

lemma cookies_of_jar_record:
  "cookies_of (jar_record clock u cs b) origin =
     (if url_host u \<noteq> [] \<and> origin = originFromURL u then record_all clock cs (cookies_of b origin)
      else cookies_of b origin)"
  by (auto simp: jar_record_def cookies_of_def Let_def)

lemma genuine_mono: "genuine G b \<Longrightarrow> G \<subseteq> H \<Longrightarrow> genuine H b"
  unfolding genuine_def by fast

lemma genuine_jar_record:
  assumes "genuine G b"
  shows "genuine (G \<union> {originFromURL u} \<times> set cs) (jar_record clock u cs b)"
proof -
  have "\<exists>c. (origin, c) \<in> G \<union> {originFromURL u} \<times> set cs \<and> ck_Name c \<noteq> [] \<and> k = cookieKey c \<and> sc = stored c"
    if "(k, sc) \<in> set (cookies_of (jar_record clock u cs b) origin)" for origin k sc
  proof (cases "(k, sc) \<in> set (cookies_of b origin)")
    case True
    then show ?thesis using assms unfolding genuine_def by fast
  next
    case False
    with that have "(k, sc) \<in> {(cookieKey c, stored c) | c. c \<in> set cs \<and> ck_Name c \<noteq> []}" "origin = originFromURL u"
      using set_record_all [of clock cs "cookies_of b origin"] by (auto simp: cookies_of_jar_record split: if_splits)
    then show ?thesis by blast
  qed
  then show ?thesis unfolding genuine_def by fast
qed

lemma tracking_records [simp]:
  "cs_byOrigin (TrackURL u s) = cs_byOrigin s" "cs_byOrigin (TrackRequest L req s) = cs_byOrigin s"
  "cs_byOrigin (SetCookies jar_set clock u' cs s) = jar_record clock u' cs (cs_byOrigin s)"
  by (simp_all add: TrackURL_def TrackRequest_def SetCookies_def split: option.split)

lemma load_entry_records:
  "lib_url L (oe_Origin e) = Some u
    \<Longrightarrow> cs_byOrigin (load_entry L jar_set clock e s) =
      (if url_host u = [] \<or> oe_Cookies e = [] then cs_byOrigin s
       else jar_record clock u (map load_cookie (oe_Cookies e)) (cs_byOrigin s))"
  by (simp add: load_entry_def Let_def)

lemma reach_genuine: "store_reach L jar_set G s \<Longrightarrow> genuine G (cs_byOrigin s)"
proof (induction rule: store_reach.induct)
  case (new jar)
  show ?case by (simp add: genuine_def NewCookieStore_def cookies_of_def)
next
  case (loaded G s e u clock)
  then show ?case
    using genuine_jar_record [OF loaded.IH, of u "map load_cookie (oe_Cookies e)"]
    by (auto simp: load_entry_records intro: genuine_mono)
qed (auto intro: genuine_jar_record)

definition permutes :: "('a list \<Rightarrow> 'a list) \<Rightarrow> bool" where
  "permutes f \<longleftrightarrow> (\<forall>xs. mset (f xs) = mset xs)"

lemma permutes_set: "permutes f \<Longrightarrow> set (f xs) = set xs"
  unfolding permutes_def by (metis set_mset_mset)

lemma permutes_Nil: "permutes f \<Longrightarrow> f xs = [] \<longleftrightarrow> xs = []"
  unfolding permutes_def by (metis mset_zero_iff)

lemma save_entry_iff:
  "permutes visit \<Longrightarrow> (origin, cs) \<in> set (save_entry L visit s origin') \<longleftrightarrow>
    origin' = origin \<and> cookies_of (cs_byOrigin s) origin \<noteq> []
    \<and> cs = visit (map snd (cookies_of (cs_byOrigin s) origin))
    \<and> (\<exists>u. lib_url L origin = Some u \<and> url_host u \<noteq> [] \<and> hostAllowed L (url_hostname u))"
  by (cases "lib_url L origin'") (auto simp: save_entry_def snapshot_def Let_def permutes_Nil)

lemma save_entries_iff:
  assumes "permutes ord" and "permutes visit"
  shows "(origin, cs) \<in> set (save_entries L ord visit s) \<longleftrightarrow>
    origin \<in> set (cs_origins s) \<and> cookies_of (cs_byOrigin s) origin \<noteq> []
    \<and> cs = visit (map snd (cookies_of (cs_byOrigin s) origin))
    \<and> (\<exists>u. lib_url L origin = Some u \<and> url_host u \<noteq> [] \<and> hostAllowed L (url_hostname u))"
  by (simp add: save_entries_def save_entry_iff [OF assms(2)] permutes_set [OF assms(1)])

text \<open>
  C13: Whatever hosts the client has talked to and whatever files it has loaded, what it saves for an origin
  was set by that origin, or loaded for it; and the host of the origin is one of the allowed hosts.
\<close>

theorem saved_cookies_genuine:
  assumes "store_reach L jar_set G s" and "permutes ord" and "permutes visit"
    and "(origin, cs) \<in> set (save_entries L ord visit s)"
  shows "(case lib_url L origin of None \<Rightarrow> False
          | Some u \<Rightarrow> lower L (url_hostname u) \<in> set defaultAllowedHosts
              \<or> has_suffix (lower L (url_hostname u)) ''.skype.com''
              \<or> has_suffix (lower L (url_hostname u)) ''.teams.live.com'')
    \<and> list_all (\<lambda>sc. sc \<in> stored ` {c. (origin, c) \<in> G \<and> ck_Name c \<noteq> []}) cs"
proof -
  from assms(4) obtain u where u: "lib_url L origin = Some u" "hostAllowed L (url_hostname u)"
    and cs: "set cs = snd ` set (cookies_of (cs_byOrigin s) origin)"
    by (auto simp: save_entries_iff [OF assms(2,3)] permutes_set [OF assms(3)])
  have "sc \<in> stored ` {c. (origin, c) \<in> G \<and> ck_Name c \<noteq> []}" if "sc \<in> set cs" for sc
    using that reach_genuine [OF assms(1)] unfolding cs genuine_def by fastforce
  then show ?thesis
    using u by (auto simp: hostAllowed_def Let_def defaultAllowedSuffixes_def list_all_iff split: if_splits)
qed

section \<open>Saved stores read back\<close>

lemma cookie_names_plain:
  "plain_name ''name''" "plain_name ''value''" "plain_name ''domain''" "plain_name ''path''"
  "plain_name ''expires_unix''" "plain_name ''secure''" "plain_name ''http_only''"
  "plain_name ''origin''" "plain_name ''cookies''" "plain_name ''origins''"
  by code_simp+

lemma decode_omit_bool:
  assumes "find (\<lambda>(name, _). field_is L name key) fs = Some (name, put_bool upd)"
    and "\<not> b \<Longrightarrow> upd (\<lambda>_. False) r = r"
  shows "decode_struct L fs (json_map (omit_bool key b)) r = Some (upd (\<lambda>_. b) r)"
  using assms by (auto simp: omit_bool_def json_map_def)

lemma decode_all_map: "list_all (\<lambda>x. dec (f x) = Some (g x)) xs \<Longrightarrow> decode_all dec (map f xs) = Some (map g xs)"
  by (induction xs) simp_all

lemma decode_slice_member:
  assumes "find (\<lambda>(name, _). field_is L name key) fs = Some (name, put_list dec upd)"
    and "list_all (\<lambda>x. dec (f x) = Some (g x)) xs"
  shows "decode_struct L fs (json_map [(key, slice_tree f xs)]) r = Some (upd (\<lambda>_. map g xs) r)"
  using assms decode_all_map [where dec = dec and f = f and g = g and xs = xs]
  by (cases "xs = []") (simp_all add: json_map_def slice_tree_def comp_def)

lemma cookie_tree_decodes:
  "int64_range (sc_ExpiresUnix c) \<Longrightarrow> decode_struct L cookie_members (cookie_tree c) no_cookie = Some c"
  unfolding cookie_tree_def
  by (simp add: cookie_names_plain cookie_members_def field_is_plain json_map_append json_map_Cons
      decode_string_member decode_omit_string decode_omit_int decode_omit_bool int64_range_def no_cookie_def)

lemma origin_tree_decodes:
  "list_all (\<lambda>c. int64_range (sc_ExpiresUnix c)) (snd e)
    \<Longrightarrow> decode_struct L (origin_members L) (origin_tree e) \<lparr>oe_Origin = [], oe_Cookies = []\<rparr>
      = Some \<lparr>oe_Origin = fst e, oe_Cookies = snd e\<rparr>"
  unfolding origin_tree_def
  by (simp add: cookie_names_plain origin_members_def field_is_plain json_map_Cons decode_string_member
      decode_slice_member [where g = "\<lambda>c. c"] cookie_tree_decodes list_all_iff)

lemma store_tree_decodes:
  "list_all (\<lambda>e. list_all (\<lambda>c. int64_range (sc_ExpiresUnix c)) (snd e)) es
    \<Longrightarrow> decode_struct L (store_members L) (store_tree es) [] =
      Some (map (\<lambda>e. \<lparr>oe_Origin = fst e, oe_Cookies = snd e\<rparr>) es)"
  unfolding store_tree_def
  by (simp add: cookie_names_plain store_members_def field_is_plain
      decode_slice_member [where g = "\<lambda>e. \<lparr>oe_Origin = fst e, oe_Cookies = snd e\<rparr>"] origin_tree_decodes list_all_iff)

lemma store_members_blind: "list_all (\<lambda>(name, p). text_blind p) (store_members L)"
proof -
  have c: "list_all (\<lambda>(name, p). text_blind p) cookie_members" by (simp add: cookie_members_def)
  have o: "list_all (\<lambda>(name, p). text_blind p) (origin_members L)"
    by (simp add: origin_members_def text_blind_list decode_struct_bare [OF c])
  show ?thesis
    by (simp add: store_members_def text_blind_list decode_struct_bare [OF o])
qed

text \<open>Records as they arise from cookies with a path and with times that Unix seconds can express.\<close>

definition storedKey :: "storedCookie \<Rightarrow> string" where
  "storedKey sc = join [sc_Name sc, sc_Domain sc, sc_Path sc] ''|''"

definition good_stored :: "storedCookie \<Rightarrow> bool" where
  "good_stored sc \<longleftrightarrow> sc_Name sc \<noteq> [] \<and> sc_Path sc \<noteq> [] \<and> int64_range (sc_ExpiresUnix sc)
     \<and> from_unix (sc_ExpiresUnix sc) \<noteq> zero_time"

definition sound_records :: "recorded \<Rightarrow> bool" where
  "sound_records m \<longleftrightarrow> distinct (map fst m) \<and> list_all (\<lambda>(k, sc). k = storedKey sc \<and> good_stored sc) m"

definition lapsed :: "instant \<Rightarrow> storedCookie \<Rightarrow> bool" where
  "lapsed now sc \<longleftrightarrow> sc_ExpiresUnix sc \<noteq> 0 \<and> from_unix (sc_ExpiresUnix sc) < now"

lemma load_cookie_good:
  assumes "good_stored sc"
  shows "stored (load_cookie sc) = sc" "cookieKey (load_cookie sc) = storedKey sc"
    "ck_Name (load_cookie sc) \<noteq> []" "deletes now (load_cookie sc) \<longleftrightarrow> lapsed now sc"
  using assms
  by (auto simp: good_stored_def stored_def load_cookie_def cookieKey_def storedKey_def deletes_def lapsed_def
      to_unix_def from_unix_def)

lemma map_of_reloaded:
  "list_all good_stored cs \<Longrightarrow> distinct (map storedKey cs) \<Longrightarrow>
    map_of (record_all (\<lambda>_. now) (map load_cookie cs) m) k =
      (case map_of (map (\<lambda>sc. (storedKey sc, sc)) cs) k of
         None \<Rightarrow> map_of m k
       | Some sc \<Rightarrow> if lapsed now sc then None else Some sc)"
proof (induction cs arbitrary: m)
  case (Cons c cs)
  have "map_of (map (\<lambda>sc. (storedKey sc, sc)) cs) (storedKey c) = None"
    using Cons.prems(2) by (auto simp: map_of_eq_None_iff image_image)
  with Cons show ?case
    by (auto simp: map_of_record_cookie load_cookie_good split: option.split)
qed simp

lemma sound_records_visit:
  assumes "sound_records m" and "permutes visit"
  shows "list_all good_stored (visit (map snd m))" "distinct (map storedKey (visit (map snd m)))"
    "map_of (map (\<lambda>sc. (storedKey sc, sc)) (visit (map snd m))) = map_of m"
proof -
  have keys: "map (\<lambda>sc. (storedKey sc, sc)) (map snd m) = m"
    using assms(1) by (auto simp: sound_records_def list_all_iff intro!: map_idI)
  have ms: "mset (visit (map snd m)) = mset (map snd m)" using assms(2) by (simp add: permutes_def)
  have fsts: "map storedKey (map snd m) = map fst m"
    using keys by (metis (no_types, lifting) comp_apply fst_conv map_eq_conv map_map)
  from ms show "list_all good_stored (visit (map snd m))"
    using assms(1) permutes_set [OF assms(2), of "map snd m"] by (auto simp: list_all_iff sound_records_def)
  have "mset (map storedKey (visit (map snd m))) = mset (map fst m)"
    using ms fsts by (metis mset_map)
  then show d: "distinct (map storedKey (visit (map snd m)))"
    using assms(1) by (metis mset_eq_imp_distinct_iff sound_records_def)
  show "map_of (map (\<lambda>sc. (storedKey sc, sc)) (visit (map snd m))) = map_of m"
  proof (subst map_of_inject_set)
    show "distinct (map fst (map (\<lambda>sc. (storedKey sc, sc)) (visit (map snd m))))" using d by (simp add: comp_def)
    show "distinct (map fst m)" using assms(1) by (simp add: sound_records_def)
    show "set (map (\<lambda>sc. (storedKey sc, sc)) (visit (map snd m))) = set m"
      using permutes_set [OF assms(2), of "map snd m"] keys by (metis set_map)
  qed
qed

definition entry_of :: "string \<times> storedCookie list \<Rightarrow> origin_entry" where
  "entry_of e = \<lparr>oe_Origin = fst e, oe_Cookies = snd e\<rparr>"

definition returns :: "golib \<Rightarrow> string \<Rightarrow> bool" where
  "returns L origin \<longleftrightarrow>
     (case lib_url L origin of None \<Rightarrow> True | Some u \<Rightarrow> originFromURL u = origin)"

definition savable :: "golib \<Rightarrow> string \<Rightarrow> bool" where
  "savable L origin \<longleftrightarrow>
     (case lib_url L origin of None \<Rightarrow> False
      | Some u \<Rightarrow> url_host u \<noteq> [] \<and> hostAllowed L (url_hostname u))"

lemma load_entries_cookies:
  "distinct (map fst es)
    \<Longrightarrow> list_all (\<lambda>(origin, cs). cs \<noteq> [] \<and> savable L origin \<and> returns L origin) es
    \<Longrightarrow> cookies_of (cs_byOrigin (load_entries L jar_set (\<lambda>_ _. now) (map entry_of es) s)) origin =
      (case map_of es origin of
         None \<Rightarrow> cookies_of (cs_byOrigin s) origin
       | Some cs \<Rightarrow> record_all (\<lambda>_. now) (map load_cookie cs) (cookies_of (cs_byOrigin s) origin))"
proof (induction es arbitrary: s)
  case (Cons e es)
  obtain o1 cs where e: "e = (o1, cs)" by (cases e)
  with Cons.prems obtain u where u: "lib_url L o1 = Some u" "url_host u \<noteq> []" "originFromURL u = o1" "cs \<noteq> []"
    by (auto simp: savable_def returns_def split: option.splits)
  have "map_of es o1 = None" using Cons.prems(1) e by (simp add: map_of_eq_None_iff)
  with Cons u show ?case
    by (auto simp: e entry_of_def load_entry_records cookies_of_jar_record split: option.split)
qed simp

lemma save_entries_distinct: "distinct os \<Longrightarrow> distinct (map fst (concat (map (save_entry L visit s) os)))"
proof (induction os)
  case (Cons origin os)
  let ?rest = "map fst (concat (map (save_entry L visit s) os))"
  have "distinct (map fst (save_entry L visit s origin))" "set (map fst (save_entry L visit s origin)) \<subseteq> {origin}"
    by (auto simp: save_entry_def Let_def split: option.split)
  moreover have "origin \<notin> set ?rest"
    using Cons.prems by (auto simp: save_entry_def Let_def split: option.splits if_splits)
  moreover have "distinct ?rest" using Cons by simp
  ultimately have "distinct (map fst (save_entry L visit s origin) @ ?rest)"
    unfolding distinct_append by blast
  then show ?case by simp
qed simp

lemma save_entries_map_of:
  assumes "permutes ord" and "permutes visit" and "distinct (cs_origins s)"
  shows "map_of (save_entries L ord visit s) origin =
    (if origin \<in> set (cs_origins s) \<and> savable L origin \<and> cookies_of (cs_byOrigin s) origin \<noteq> []
     then Some (visit (map snd (cookies_of (cs_byOrigin s) origin))) else None)"
proof -
  have "mset (ord (cs_origins s)) = mset (cs_origins s)" using assms(1) by (simp add: permutes_def)
  then have "distinct (ord (cs_origins s))" using assms(3) by (metis mset_eq_imp_distinct_iff)
  then have d: "distinct (map fst (save_entries L ord visit s))"
    unfolding save_entries_def by (rule save_entries_distinct)
  have iff: "(origin, cs) \<in> set (save_entries L ord visit s) \<longleftrightarrow>
      origin \<in> set (cs_origins s) \<and> savable L origin \<and> cookies_of (cs_byOrigin s) origin \<noteq> []
      \<and> cs = visit (map snd (cookies_of (cs_byOrigin s) origin))" for cs
    by (auto simp: save_entries_iff [OF assms(1,2)] savable_def split: option.split)
  show ?thesis
  proof (cases "map_of (save_entries L ord visit s) origin")
    case None
    then have "(origin, cs) \<notin> set (save_entries L ord visit s)" for cs
      by (metis map_of_eq_None_iff fst_conv image_eqI)
    with None iff show ?thesis by auto
  next
    case (Some cs)
    then show ?thesis using iff [of cs] d by (auto dest: map_of_SomeD)
  qed
qed


section \<open>Examples\<close>

definition live_url :: url where
  "live_url = \<lparr>url_scheme = ''https'', url_host = ''login.live.com:443'', url_path = ''/'',
     url_string = ''https://login.live.com:443/''\<rparr>"

definition other_url :: url where
  "other_url = \<lparr>url_scheme = ''https'', url_host = ''evil.com'', url_path = ''/'', url_string = ''https://evil.com/''\<rparr>"

definition sample_store :: "unit CookieStore" where
  "sample_store =
     SetCookies (\<lambda>_ _ j. j) (\<lambda>_. 5) other_url [sample_cookie]
       (SetCookies (\<lambda>_ _ j. j) (\<lambda>_. 5) live_url [sample_cookie]
         (TrackURL (Some other_url) (TrackURL (Some live_url) (NewCookieStore ()))))"

lemma sample_origins:
  "originFromURL live_url = ''https://login.live.com:443''" "originFromURL other_url = ''https://evil.com''"
  "url_hostname live_url = ''login.live.com''" "url_hostname other_url = ''evil.com''"
  by code_simp+

definition cookie_lib :: golib where
  "cookie_lib = plain_lib\<lparr>
     lib_url := (\<lambda>s. if s = ''https://login.live.com:443'' then Some live_url
                      else if s = ''https://evil.com'' then Some other_url else None),
     lib_json := (\<lambda>_. Some (store_tree [(''https://login.live.com:443'', [stored sample_cookie])]))\<rparr>"

lemma sample_allowed: "hostAllowed cookie_lib ''login.live.com''" "\<not> hostAllowed cookie_lib ''evil.com''"
proof -
  have l: "lower cookie_lib s = s" if "list_all is_ascii s" "map ascii_lower s = s" for s
    using that by (simp add: to_lower_ascii)
  have "lower cookie_lib ''login.live.com'' = ''login.live.com''" "lower cookie_lib ''evil.com'' = ''evil.com''"
    by (rule l; code_simp)+
  then show "hostAllowed cookie_lib ''login.live.com''" "\<not> hostAllowed cookie_lib ''evil.com''"
    by (simp_all add: hostAllowed_def defaultAllowedHosts_def defaultAllowedSuffixes_def suffix_def Let_def)
qed

lemma sample_store_records:
  "cs_origins sample_store = [''https://evil.com'', ''https://login.live.com:443'']"
  "cookies_of (cs_byOrigin sample_store) origin =
    (if origin = ''https://evil.com'' \<or> origin = ''https://login.live.com:443''
     then [(''a||/'', stored sample_cookie)] else [])"
proof -
  have h: "url_host live_url \<noteq> []" "url_host other_url \<noteq> []" by (simp_all add: live_url_def other_url_def)
  then show "cs_origins sample_store = [''https://evil.com'', ''https://login.live.com:443'']"
    by (simp add: sample_store_def TrackURL_def SetCookies_def NewCookieStore_def sample_origins)
  have "record_all (\<lambda>_. 5) [sample_cookie] [] = [(''a||/'', stored sample_cookie)]"
    by (simp add: record_cookie_def deletes_def cookieKey_def sample_cookie_def)
  moreover have "cookies_of (cs_byOrigin (NewCookieStore ())) x = []" for x
    by (simp add: NewCookieStore_def cookies_of_def)
  ultimately show "cookies_of (cs_byOrigin sample_store) origin =
    (if origin = ''https://evil.com'' \<or> origin = ''https://login.live.com:443''
     then [(''a||/'', stored sample_cookie)] else [])"
    using h by (simp add: sample_store_def cookies_of_jar_record sample_origins)
qed

lemma sample_entries:
  "save_entries cookie_lib (\<lambda>xs. xs) (\<lambda>xs. xs) sample_store
    = [(''https://login.live.com:443'', [stored sample_cookie])]"
proof -
  have "url_host live_url \<noteq> []" "url_host other_url \<noteq> []" by (simp_all add: live_url_def other_url_def)
  moreover have "lib_url cookie_lib ''https://login.live.com:443'' = Some live_url"
    "lib_url cookie_lib ''https://evil.com'' = Some other_url"
    by (simp_all add: cookie_lib_def)
  ultimately show ?thesis
    by (simp add: save_entries_def save_entry_def sample_store_records sample_origins sample_allowed snapshot_def Let_def)
qed

lemma permutes_id: "permutes (\<lambda>xs. xs)" by (simp add: permutes_def)

theorem saved_cookies_genuine_witness:
  "save_entries cookie_lib (\<lambda>xs. xs) (\<lambda>xs. xs) sample_store = [(''https://login.live.com:443'', [stored sample_cookie])]
   \<and> stored sample_cookie \<in> stored `
      {c. (''https://login.live.com:443'', c)
            \<in> {originFromURL live_url} \<times> {sample_cookie} \<union> {originFromURL other_url} \<times> {sample_cookie} \<and> ck_Name c \<noteq> []}"
proof -
  have t: "TrackURL (Some u) s = TrackRequest cookie_lib (Some \<lparr>req_method = ''GET'', req_url = originFromURL u,
      req_headers = [], req_body = None, req_get_body = None\<rparr>) s" if "u \<in> {live_url, other_url}" for u and s :: "unit CookieStore"
    using that by (auto simp: TrackRequest_def cookie_lib_def sample_origins)
  have "store_reach cookie_lib (\<lambda>_ _ j. j)
      ({} \<union> {originFromURL live_url} \<times> set [sample_cookie] \<union> {originFromURL other_url} \<times> set [sample_cookie]) sample_store"
    unfolding sample_store_def
    by (subst t, simp)+ (intro store_reach.intros)
  from saved_cookies_genuine [OF this permutes_id permutes_id, of "''https://login.live.com:443''" "[stored sample_cookie]"]
  show ?thesis by (simp add: sample_entries)
qed


section \<open>Two defects\<close>

text \<open>
  A cookie without a path is recorded under a key that ends with the bar, but stored with the path \<open>/\<close>; after a
  reload its key has the slash. A deletion of the cookie without a path then misses it: the cookie is kept
  and saved again, while without the reload it would be gone.
\<close>

theorem deletion_misses_reloaded:
  assumes "ck_Name c \<noteq> []" and "ck_Path c = []" and "ck_Expires c = zero_time" and "ck_MaxAge c = 0"
  shows "record_all (\<lambda>_. now) [c, c\<lparr>ck_MaxAge := -1\<rparr>] [] = []
    \<and> record_all (\<lambda>_. now) [load_cookie (stored c), c\<lparr>ck_MaxAge := -1\<rparr>] []
       = [(cookieKey (c\<lparr>ck_Path := ''/''\<rparr>), stored c)]"
  using assms by (simp add: record_cookie_def deletes_def stored_def load_cookie_def cookieKey_def AList.delete_eq)

text \<open>A cookie that is to live for some seconds only is stored as one without an end.\<close>

theorem max_age_forgotten:
  "0 < n \<Longrightarrow> record_all (\<lambda>_. now) [sample_cookie\<lparr>ck_MaxAge := n\<rparr>] m = record_all (\<lambda>_. now) [sample_cookie] m
     \<and> sc_ExpiresUnix (stored (sample_cookie\<lparr>ck_MaxAge := n\<rparr>)) = 0"
  by (simp add: record_cookie_def deletes_def sample_cookie_def stored_def cookieKey_def)

end
