(* ===== verification/Authorize.thy ===== *)
theory Authorize
  imports TokenCache
begin

text \<open>
  Proof keys, the authorize URL and the probe of \<open>internal/teams/auth\<close>: \<open>pkce.go\<close>, \<open>AuthorizeURL\<close> and
  \<open>AttachSkypeToken\<close> of \<open>client.go\<close>, and \<open>probe.go\<close>.

  Randomness and SHA-256 are parameters; base64 is written out and shown to be the inverse of the decoder in
  \<open>TokenCache\<close>. A query is the list of its pairs, in which \<open>Values.Set\<close> replaces those of one key.
\<close>

section \<open>Proof keys\<close>

definition b64_digit :: "nat \<Rightarrow> char" where
  "b64_digit d =
     (if d < 26 then char_of (65 + d)
      else if d < 52 then char_of (71 + d)
      else if d < 62 then char_of (d - 4)
      else if d = 62 then CHR ''-'' else CHR ''_'')"

fun b64_sextets :: "string \<Rightarrow> nat list" where
  "b64_sextets (x # y # z # rest) =
     [of_char x div 4, (of_char x mod 4) * 16 + of_char y div 16, (of_char y mod 16) * 4 + of_char z div 64,
      of_char z mod 64] @ b64_sextets rest"
| "b64_sextets [x, y] =
     [of_char x div 4, (of_char x mod 4) * 16 + of_char y div 16, (of_char y mod 16) * 4]"
| "b64_sextets [x] = [of_char x div 4, (of_char x mod 4) * 16]"
| "b64_sextets [] = []"

text \<open>\<open>base64.RawURLEncoding.EncodeToString\<close>.\<close>

definition b64_encode :: "string \<Rightarrow> string" where
  "b64_encode s = map b64_digit (b64_sextets s)"

text \<open>\<open>rand\<close> fills a buffer of the length it is given, or fails.\<close>

definition GenerateCodeVerifier :: "(nat \<Rightarrow> go_error + string) \<Rightarrow> go_error + string" where
  "GenerateCodeVerifier rand =
     (case rand 32 of Inl err \<Rightarrow> Inl err | Inr buf \<Rightarrow> Inr (b64_encode buf))"

definition CodeChallengeS256 :: "(string \<Rightarrow> string) \<Rightarrow> string \<Rightarrow> string" where
  "CodeChallengeS256 sha verifier = b64_encode (sha verifier)"

section \<open>The authorize URL\<close>

definition values_set :: "string \<Rightarrow> string \<Rightarrow> (string \<times> string) list \<Rightarrow> (string \<times> string) list" where
  "values_set k v vs = filter (\<lambda>p. fst p \<noteq> k) vs @ [(k, v)]"

text \<open>\<open>query\<close> is \<open>URL.Query\<close>; \<open>with_query\<close> is \<open>URL.String\<close> after the raw query was replaced.\<close>

definition authorize_query ::
  "AuthClient \<Rightarrow> string \<Rightarrow> string \<Rightarrow> (string \<times> string) list \<Rightarrow> (string \<times> string) list" where
  "authorize_query c codeChallenge state q =
     (let q = values_set ''client_id'' (ac_ClientID c) q;
          q = values_set ''redirect_uri'' (ac_RedirectURI c) q;
          q = values_set ''response_type'' ''code'' q;
          q = values_set ''response_mode'' ''fragment'' q;
          q = values_set ''scope'' (join (ac_Scopes c) '' '') q;
          q = values_set ''code_challenge'' codeChallenge q;
          q = values_set ''code_challenge_method'' ''S256'' q
      in if state \<noteq> [] then values_set ''state'' state q else q)"

definition AuthorizeURL ::
  "golib \<Rightarrow> (url \<Rightarrow> (string \<times> string) list) \<Rightarrow> (url \<Rightarrow> string \<Rightarrow> string) \<Rightarrow> string \<Rightarrow> AuthClient
     \<Rightarrow> string \<Rightarrow> string \<Rightarrow> go_error + string" where
  "AuthorizeURL L query with_query authorizeEndpoint c codeChallenge state =
     (case lib_url L authorizeEndpoint of
        None \<Rightarrow> Inl (ErrNew ''invalid url'')
      | Some u \<Rightarrow> Inr (with_query u (encode_values (authorize_query c codeChallenge state (query u)))))"

section \<open>The probe\<close>

definition AttachSkypeToken :: "request option \<Rightarrow> string \<Rightarrow> request option" where
  "AttachSkypeToken req token =
     (case req of None \<Rightarrow> None
      | Some r \<Rightarrow> if token = [] then Some r
          else Some (r\<lparr>req_headers := values_set ''authentication'' (''skypetoken='' @ token) (req_headers r)\<rparr>))"

definition isAuthHeader :: "golib \<Rightarrow> string \<Rightarrow> bool" where
  "isAuthHeader L key =
     (let low = lower L key
      in if low = ''set-cookie'' \<or> low = ''www-authenticate'' then True
         else has_prefix low ''x-ms-'' \<or> has_prefix low ''x-azure-'')"

text \<open>A header map is the list of its keys, which are different, with their values.\<close>

definition filterAuthHeaders :: "golib \<Rightarrow> (string \<times> string list) list \<Rightarrow> (string \<times> string) list" where
  "filterAuthHeaders L headers =
     map (\<lambda>(key, vs). (key, join vs ''; '')) (filter (\<lambda>(key, vs). isAuthHeader L key) headers)"

definition maxProbeBytes :: nat where "maxProbeBytes = 1024"

record ProbeResult =
  prb_StatusCode :: int
  prb_BodySnippet :: string
  prb_AuthHeaders :: "(string \<times> string) list"

text \<open>\<open>headers\<close> gives the headers of a response. A new request has no headers to delete.\<close>

definition ProbeTeamsEndpoint ::
  "golib \<Rightarrow> exchange \<Rightarrow> (response \<Rightarrow> (string \<times> string list) list) \<Rightarrow> string \<Rightarrow> string \<Rightarrow> go_error + ProbeResult"
where
  "ProbeTeamsEndpoint L http headers endpoint token =
     (case new_request L ''GET'' endpoint None [] of
        Inl err \<Rightarrow> Inl err
      | Inr req \<Rightarrow>
        (let req = req\<lparr>req_headers := filter (\<lambda>h. fst h \<noteq> ''Authorization'' \<and> fst h \<noteq> ''authentication'') (req_headers req)\<rparr>;
             req = (if token \<noteq> [] then the (AttachSkypeToken (Some req) token) else req)
         in case http req of
              Inl err \<Rightarrow> Inl (NetErr err)
            | Inr resp \<Rightarrow>
              (case read_limited maxProbeBytes resp of
                 (_, Some err) \<Rightarrow> Inl err
               | (body, None) \<Rightarrow>
                   Inr \<lparr>prb_StatusCode = resp_status resp, prb_BodySnippet = body,
                        prb_AuthHeaders = filterAuthHeaders L (headers resp)\<rparr>)))"

section \<open>Base64\<close>

lemma byte_parts:
  fixes n :: nat
  assumes "n < 256"
  shows "n div 4 < 64" "n div 16 < 16" "n div 64 < 4" "n div 16 div 16 = 0" "n div 64 div 4 = 0"
    "n div 16 mod 16 = n div 16" "n div 64 mod 4 = n div 64"
  using assms by (simp_all add: less_mult_imp_div_less)

lemmas char_parts = byte_parts [OF of_char_lt_256]

lemma sextet_bounds:
  fixes a b :: nat
  assumes "b < 256"
  shows "a mod 4 * 16 + b div 16 < 64" "a mod 16 * 4 + b div 64 < 64"
proof -
  have "a mod 4 \<le> 3" "a mod 16 \<le> 15" by (simp_all add: less_Suc_eq_le [symmetric])
  with byte_parts(2,3) [OF assms] show "a mod 4 * 16 + b div 16 < 64" "a mod 16 * 4 + b div 64 < 64"
    by linarith+
qed

lemma b64_sextets_range: "list_all (\<lambda>d. d < 64) (b64_sextets s)"
proof (induction s rule: b64_sextets.induct)
  case (2 x y)
  have "of_char y mod 16 * 4 < (64 :: nat)" using sextet_bounds(2) [of 0 "of_char y"] by simp
  then show ?case by (simp add: char_parts sextet_bounds(1) [OF of_char_lt_256])
next
  case (3 x)
  have "of_char x mod 4 * 16 < (64 :: nat)" using sextet_bounds(1) [of 0 "of_char x"] by simp
  then show ?case by (simp add: char_parts)
qed (simp_all add: char_parts sextet_bounds [OF of_char_lt_256])

lemma b64_bytes_sextets: "b64_bytes (b64_sextets s) = Some s"
  by (induction s rule: b64_sextets.induct) (simp_all add: char_parts)

lemma b64_digit_code:
  "d < 62 \<Longrightarrow> of_char (b64_digit d) = (if d < 26 then 65 + d else if d < 52 then 71 + d else d - 4)"
  by (auto simp: b64_digit_def)

lemma b64_digit_value: "d < 64 \<Longrightarrow> b64_value True (b64_digit d) = Some d"
proof -
  assume "d < 64"
  then consider "d < 62" | "d = 62" | "d = 63" by linarith
  then show ?thesis
  proof cases
    case 1
    then show ?thesis by (auto simp: b64_value_def b64_digit_code Let_def)
  qed (simp_all add: b64_value_def b64_digit_def Let_def)
qed

lemma b64_digit_safe: "d < 64 \<Longrightarrow> query_safe (b64_digit d)"
proof -
  assume "d < 64"
  then consider "d < 62" | "d = 62" | "d = 63" by linarith
  then show ?thesis
  proof cases
    case 1
    then show ?thesis by (auto simp: query_safe_def is_digit_def b64_digit_code)
  qed (simp_all add: query_safe_def b64_digit_def)
qed

lemma b64_digit_plain: "d < 64 \<Longrightarrow> query_safe (b64_digit d) \<and> b64_digit d \<notin> {CHR 0x0A, CHR 0x0D, CHR ''=''}"
proof -
  have "\<not> query_safe (CHR 0x0A)" "\<not> query_safe (CHR 0x0D)" "\<not> query_safe (CHR ''='')"
    by (simp_all add: query_safe_def is_digit_def)
  then show "d < 64 \<Longrightarrow> query_safe (b64_digit d) \<and> b64_digit d \<notin> {CHR 0x0A, CHR 0x0D, CHR ''=''}"
    using b64_digit_safe [of d] by auto
qed

lemma b64_sextets_length: "length (b64_sextets s) = (4 * length s + 2) div 3"
  by (induction s rule: b64_sextets.induct) simp_all

lemma b64_roundtrip: "b64_decode True False (b64_encode s) = Some s"
proof -
  let ?ds = "b64_sextets s"
  have r: "d < 64" if "d \<in> set ?ds" for d
    using that b64_sextets_range [of s] by (simp add: list_all_iff)
  have f: "filter (\<lambda>c. c \<noteq> CHR 0x0A \<and> c \<noteq> CHR 0x0D) (map b64_digit ?ds) = map b64_digit ?ds"
    using r b64_digit_plain by (auto intro!: filter_True)
  have t: "takeWhile (\<lambda>c. c \<noteq> CHR ''='') (map b64_digit ?ds) = map b64_digit ?ds"
    using r b64_digit_plain by (auto simp: takeWhile_eq_all_conv)
  have "those (map (b64_value True) (map b64_digit ds)) = Some ds" if "list_all (\<lambda>d. d < 64) ds" for ds
    using that by (induction ds) (simp_all add: b64_digit_value)
  from this [OF b64_sextets_range] show ?thesis
    by (simp only: b64_decode_def b64_encode_def Let_def f t) (simp add: b64_bytes_sextets)
qed

text \<open>
  A code verifier is 43 characters that need no escaping in a URL, and carries all the random bytes: it
  decodes to them, so different bytes give different verifiers.
\<close>

theorem code_verifier_wellformed:
  assumes "rand 32 = Inr buf" and "length buf = 32"
  shows "case GenerateCodeVerifier rand of
      Inl err \<Rightarrow> False
    | Inr v \<Rightarrow> length v = 43 \<and> query_escape v = v \<and> b64_decode True False v = Some buf"
proof -
  have "query_safe c" if "c \<in> set (b64_encode buf)" for c
    using that b64_sextets_range [of buf] b64_digit_plain by (auto simp: b64_encode_def list_all_iff)
  then have "query_escape (b64_encode buf) = b64_encode buf"
    unfolding query_escape_def by (simp add: concat_map_singleton cong: map_cong)
  with assms show ?thesis
    by (simp add: GenerateCodeVerifier_def b64_roundtrip) (simp add: b64_encode_def b64_sextets_length)
qed

theorem code_verifier_wellformed_witness:
  "case GenerateCodeVerifier (\<lambda>n. Inr (replicate n (CHR ''x''))) of
      Inl err \<Rightarrow> False
    | Inr v \<Rightarrow> length v = 43 \<and> b64_decode True False v = Some (replicate 32 (CHR ''x''))"
  using code_verifier_wellformed [of "\<lambda>n. Inr (replicate n (CHR ''x''))" "replicate 32 (CHR ''x'')"]
  by (simp split: sum.splits)

text \<open>
  The query of the authorize URL has one value for each parameter of the request, the client's own, and keeps
  the other parameters of the endpoint.
\<close>

theorem authorize_query_exact:
  "filter (\<lambda>p. fst p = k) (authorize_query c codeChallenge state q) =
     (if k = ''client_id'' then [(k, ac_ClientID c)]
      else if k = ''redirect_uri'' then [(k, ac_RedirectURI c)]
      else if k = ''response_type'' then [(k, ''code'')]
      else if k = ''response_mode'' then [(k, ''fragment'')]
      else if k = ''scope'' then [(k, join (ac_Scopes c) '' '')]
      else if k = ''code_challenge'' then [(k, codeChallenge)]
      else if k = ''code_challenge_method'' then [(k, ''S256'')]
      else if k = ''state'' \<and> state \<noteq> [] then [(k, state)]
      else filter (\<lambda>p. fst p = k) q)"
proof -
  have v: "filter (\<lambda>p. fst p = k) (values_set k' v vs) = (if k = k' then [(k', v)] else filter (\<lambda>p. fst p = k) vs)"
    for k k' v and vs :: "(string \<times> string) list"
    by (auto simp: values_set_def filter_empty_conv intro!: filter_cong)
  show ?thesis by (simp add: authorize_query_def Let_def v)
qed

text \<open>
  A probe sends the token in one header to the endpoint alone, and what it reports is a bounded part of the body and only the headers that
  bear on authentication.
\<close>

theorem probe_reports_little:
  assumes "ProbeTeamsEndpoint L http headers endpoint token = Inr r"
  shows "\<exists>resp. http \<lparr>req_method = ''GET'', req_url = endpoint,
        req_headers = (if token = [] then [] else [(''authentication'', ''skypetoken='' @ token)]),
        req_body = None, req_get_body = None\<rparr> = Inr resp
    \<and> length (prb_BodySnippet r) \<le> 1024 \<and> prefix (prb_BodySnippet r) (resp_body resp)
    \<and> prb_StatusCode r = resp_status resp
    \<and> list_all (\<lambda>h. isAuthHeader L (fst h)) (prb_AuthHeaders r)"
  using assms
  by (auto simp: ProbeTeamsEndpoint_def new_request_Inr AttachSkypeToken_def values_set_def read_limited_def
      maxProbeBytes_def filterAuthHeaders_def list_all_iff take_is_prefix Let_def
      split: sum.splits if_splits option.splits)

end
