(* ===== verification/Spec2Isabelle.thy ===== *)
theory Spec2Isabelle
  imports Startup Interleave Lifecycle Receipts RequestLog Listener Convert Cookies Authorize
begin

text \<open>
  Verification of mautrix-teams, a bridge between Matrix and Microsoft Teams (personal accounts).

  \<^bold>\<open>The program.\<close> The bridge is a connector for the mautrix framework (\<open>pkg/connector\<close>). For a login it runs
  a sync loop, which discovers the user's conversations, polls every thread that is due and queues what it
  finds as events for Matrix; and it handles the Matrix events that the framework hands it, each with a
  call of the Teams consumer client (\<open>internal/teams/client\<close>). Attachments go through OneDrive by way of the
  Graph client (\<open>internal/teams/graph\<close>). Tokens come from a device-code login or from the storage of a
  browser, are kept in the metadata of the login and refreshed by both sides (\<open>internal/teams/auth\<close>). The
  cursor of every thread, the names of users and the read positions are rows of the bridge's database
  (\<open>pkg/teamsdb\<close>). Both clients send requests that may fail for a while through an executor that retries.

  \<^bold>\<open>The theories\<close>, in the order of their imports, with the code they model:

  \<^item> \<open>GoBase\<close>: strings, numbers, times and escaping as Go's standard library has them.
  \<^item> \<open>GoLib\<close>: JSON trees and decoding, URLs; the record \<open>golib\<close> of what is a parameter.
  \<^item> \<open>Executor\<close>: \<open>client/executor.go\<close> and the classifiers of all requests.
    Locale \<open>retry_classifier\<close>, interpreted for each of the ten classifiers.
  \<^item> \<open>PollBackoff\<close>: \<open>connector/poll_backoff.go\<close>, on 64-bit words.
  \<^item> \<open>MessageHtml\<close>, \<open>Message\<close>, \<open>Conversation\<close>: \<open>internal/teams/model\<close>: bodies and their sanitising; messages,
    attachments, sequence IDs, read horizons; conversations and their names.
  \<^item> \<open>ClientID\<close>: the compare-and-swap loop of \<open>GenerateClientMessageID\<close>, as interleaved steps.
  \<^item> \<open>Http\<close>, \<open>ConsumerClient\<close>: every request and response of \<open>internal/teams/client\<close>. Locale \<open>slice_sorter\<close>
    for \<open>sort.Slice\<close>.
  \<^item> \<open>RequestLog\<close>: the log lines of the executor, of the sending calls and of the token requests, with the request
    metadata; each logged operation is the plain one with its lines (\<open>log_erasure\<close>).
  \<^item> \<open>TeamsDB\<close>: the queries of \<open>pkg/teamsdb\<close>, on lists of rows. Locale \<open>keyed_table\<close>.
  \<^item> \<open>Auth\<close>, \<open>Session\<close>: \<open>auth/token.go\<close>, \<open>skype_token.go\<close>, \<open>device_code.go\<close>; the login with its refreshes
    (\<open>client.go\<close>, \<open>graph_token.go\<close>, \<open>oauth_refresh.go\<close>, \<open>device_code_login.go\<close> of the connector).
  \<^item> \<open>Lifecycle\<close>: the goroutine of the sync loop with the calls that start and stop it, and a refresh of the tokens
    with a logout in the middle, as interleaved steps.
  \<^item> \<open>Reactions\<close>, \<open>Polling\<close>, \<open>Scheduler\<close>: \<open>connector/handleteams.go\<close>, \<open>reactions.go\<close>, \<open>id.go\<close>: the reaction
    syncs, one poll of a thread, and the loop that polls the threads that are due.
  \<^item> \<open>Receipts\<close>: the SQL query of \<open>handleteams.go\<close> that finds the message a read receipt points at.
  \<^item> \<open>Graph\<close>, \<open>Attachments\<close>: \<open>internal/teams/graph\<close>, \<open>internal/bridge\<close> and \<open>attachments\<close>. Locale
    \<open>attachment_apis\<close>: what the orchestrator relies on, given by the two clients.
  \<^item> \<open>Matrix\<close>: \<open>connector/handlematrix.go\<close>, \<open>gif.go\<close>, \<open>matrix_media.go\<close>, \<open>send_attachment.go\<close>.
  \<^item> \<open>Convert\<close>: \<open>connector/convert.go\<close>, from Teams messages to Matrix parts.
  \<^item> \<open>TokenCache\<close>: \<open>auth/msal.go\<close>, \<open>teams_cache.go\<close>, the capture handler of \<open>flow.go\<close>. Locale \<open>best_token\<close>,
    interpreted for the five loops that keep the token that lasts longest.
  \<^item> \<open>Listener\<close>: the local listener of \<open>auth/flow.go\<close> and \<open>WaitForState\<close>, as interleaved steps of their goroutines.
  \<^item> \<open>StateFile\<close>, \<open>Cookies\<close>: \<open>auth/state.go\<close> and \<open>cookies.go\<close>: the token file, atomic writes, the cookie store.
  \<^item> \<open>Authorize\<close>: \<open>auth/pkce.go\<close>, \<open>probe.go\<close> and the authorize URL of \<open>client.go\<close>.
  \<^item> \<open>System\<close>: \<open>connector.go\<close>, and all of the above as one step relation, \<open>bridge_step\<close>. Locale
    \<open>bridge_invariant\<close>: what an invariant of the whole has to promise for each kind of step.
  \<^item> \<open>Interleave\<close>: the loop of a poll over its messages with Matrix handlers in between.
  \<^item> \<open>Startup\<close>: \<open>config.go\<close>, \<open>capabilities.go\<close>, \<open>dbmeta.go\<close>, \<open>login_lifecycle.go\<close>, \<open>teamsdb/database.go\<close>, the stored
    metadata of a login; the background sync as a run of the bridge.

  \<^bold>\<open>How the model corresponds to the code.\<close> A definition has the name of the function it translates; where a
  name is taken it carries a prefix (\<open>Login_Start\<close>, \<open>CookieStore_Save\<close>). A struct is a record whose fields have
  the Go names with a two- or three-letter prefix. An error is a value of \<open>go_error\<close>, a fallible function
  returns a sum with the error on the left, a pointer that may be nil is an option. State is passed and
  returned: \<open>Session\<close> is the login, \<open>Sync\<close> is the \<open>TeamsClient\<close> with the tables and the events it has queued,
  \<open>Bridge\<close> adds the pending messages and the log of the requests sent. A mutex is left out: every step holds
  it throughout, or the interleaving is the subject (\<open>ClientID\<close>, \<open>Lifecycle\<close>, \<open>Listener\<close>, \<open>System\<close>, \<open>Interleave\<close>). The order in which Go visits a
  map is a parameter wherever it can be seen.

  \<^bold>\<open>Parameters.\<close> \<open>golib\<close>: the Unicode tables, the parsers of JSON, HTML, URLs and dates. \<open>outside\<close>,
  \<open>handler_env\<close>, \<open>sched_world\<close>: servers, clock, faults of the database, random jitter, cancelled contexts, by
  the number of the call. \<open>matrix_lib\<close>: the Matrix client. \<open>crypto\<close>: ciphers. \<open>osys\<close>: the calls of the
  operating system, each of which may fail. The cookie jar of the standard library is a type variable. What a
  theorem asks of a parameter is a hypothesis of its own, and its witness gives an instance.

  \<^bold>\<open>Loops.\<close> Loops over data are recursions on it. A loop that may run for ever is a partial function whose
  value \<open>None\<close> means that it does not return: the chunked upload, the device-code poll, the sync loop. For
  these it is proved when they return. There is no fuel, except for the number of retries, which is the code's.

  \<^bold>\<open>What is shown.\<close>

  \<^item> The whole (\<open>System\<close>): in any order of discoveries, polls, Matrix events, logins, logouts and restarts every
    message of a thread is delivered once and in order; stored read positions grow; the tables stay
    well-formed; the sync loop and the background sync are runs of these steps; and a poll is not disturbed by
    handlers that run in the middle of it.
  \<^item> Polling: which messages a poll delivers, how the cursor moves, which receipts it queues and what
    they point at; which threads a pass polls and when the next poll is; when the loop ends.
  \<^item> Sending: IDs are unique, pending messages are those under way, echoes are recognised once, receipts are
    sent once, an attachment is announced only after its upload.
  \<^item> Requests: the executor returns the first decisive answer within bounded time; tokens go only where they
    belong; chunks make up the file; the log tells what a run did, and not what was in its messages.
  \<^item> Content: formatted bodies are sanitised, no attachment is lost, conversions are well-formed.
  \<^item> Tokens and files: the listener hands over one state and does not get stuck; rotated tokens are saved, the best token wins, files are written atomically even if the
    machine crashes, what is saved reads back, cookies of other hosts are never saved.
  \<^item> Defects: an overflow of the backoff, an upload that does not end, receipts lost after a failed call,
    deletions of cookies that miss, a sync loop that panics, a logout undone by a refresh, and others; each is a
    theorem.

  \<^bold>\<open>Not modelled.\<close> The embedded SQL of the schema and \<open>main.go\<close>, which hands the connector to the framework; the
  text of the helper page in \<open>flow.go\<close>, a script for the browser; the default jitter, a product of floating-point
  numbers, which is a parameter; log lines other than those of the requests (a warning per dropped request of the
  listener and per failure in the connector), which nothing reads. A step of \<open>bridge_step\<close> is a whole poll or a
  whole handler; \<open>Interleave\<close> shows why the loop of a poll may be taken as one step, as long as the handlers in
  between act for the same user. That two handlers overlap is not modelled.
\<close>

end
